(* ===== verification/Prelude.thy ===== *)
theory Prelude
  imports "HOL-Library.AList" "HOL-Library.Sublist" "HOL-Library.Multiset"
begin

text \<open>
  Shared by every component: the result type of code that can raise, Python's insertion-ordered
  dictionaries as association lists, the first minimum that \<open>min(xs, key=f)\<close> returns, the
  stable descending sort of \<open>sort(key=f, reverse=True)\<close>, and the string operations the code
  uses. The lemmas are collected in \<open>dict_simps\<close> and \<open>pylist_simps\<close>.
\<close>

named_theorems dict_simps \<open>dictionaries as association lists\<close>
named_theorems pylist_simps \<open>list operations of the Python library\<close>

section \<open>Results that may be exceptions\<close>

fun rbind :: "'e + 'a \<Rightarrow> ('a \<Rightarrow> 'e + 'b) \<Rightarrow> 'e + 'b" where
  "rbind (Inl e) f = Inl e"
| "rbind (Inr x) f = f x"

lemma rbind_eq_Inr: "rbind r f = Inr y \<longleftrightarrow> (\<exists>x. r = Inr x \<and> f x = Inr y)"
  by (cases r) simp_all

lemma rbind_eq_Inl: "rbind r f = Inl e \<longleftrightarrow> r = Inl e \<or> (\<exists>x. r = Inr x \<and> f x = Inl e)"
  by (cases r) simp_all

lemma rbind_split: "P (rbind r f) \<longleftrightarrow> (\<forall>e. r = Inl e \<longrightarrow> P (Inl e)) \<and> (\<forall>x. r = Inr x \<longrightarrow> P (f x))"
  by (cases r) simp_all

fun rmap_list :: "('a \<Rightarrow> 'e + 'b) \<Rightarrow> 'a list \<Rightarrow> 'e + 'b list" where
  "rmap_list f [] = Inr []"
| "rmap_list f (x # xs) = rbind (f x) (\<lambda>y. rbind (rmap_list f xs) (\<lambda>ys. Inr (y # ys)))"

lemma rmap_list_Inr:
  "rmap_list f xs = Inr ys \<Longrightarrow> length ys = length xs \<and> (\<forall>i < length xs. f (xs ! i) = Inr (ys ! i))"
proof (induction xs arbitrary: ys)
  case Nil
  then show ?case by simp
next
  case (Cons x xs)
  then obtain z zs where "f x = Inr z" "rmap_list f xs = Inr zs" "ys = z # zs"
    by (auto simp: rbind_eq_Inr)
  with Cons.IH [of zs] show ?case by (auto simp: less_Suc_eq_0_disj)
qed

section \<open>Dictionaries\<close>

text \<open>
  A Python \<open>dict\<close> keeps its keys in insertion order and updating a present key keeps its
  place. That is what \<open>AList.update\<close> does on an association list; lookup is \<open>map_of\<close> and
  \<open>del\<close> is \<open>AList.delete\<close>.
\<close>

type_synonym ('k, 'v) dict = "('k \<times> 'v) list"

abbreviation dict_keys :: "('k, 'v) dict \<Rightarrow> 'k list" where
  "dict_keys d \<equiv> map fst d"

abbreviation dict_values :: "('k, 'v) dict \<Rightarrow> 'v list" where
  "dict_values d \<equiv> map snd d"

abbreviation dict_set :: "'k \<Rightarrow> 'v \<Rightarrow> ('k, 'v) dict \<Rightarrow> ('k, 'v) dict" where
  "dict_set \<equiv> AList.update"

definition dict_getd :: "('k, 'v) dict \<Rightarrow> 'k \<Rightarrow> 'v \<Rightarrow> 'v" where
  "dict_getd d k v = (case map_of d k of None \<Rightarrow> v | Some x \<Rightarrow> x)"

lemma map_of_dict_set [dict_simps]: "map_of (dict_set k v d) = (map_of d)(k \<mapsto> v)"
  by (rule update_conv')

lemma map_of_dict_del [dict_simps]: "map_of (AList.delete k d) = (map_of d)(k := None)"
  by (rule delete_conv')

lemma dict_keys_set [dict_simps]:
  "dict_keys (dict_set k v d) = (if k \<in> set (dict_keys d) then dict_keys d else dict_keys d @ [k])"
  by (induction d) auto

lemma dict_set_at:
  "k \<notin> set (dict_keys xs) \<Longrightarrow> dict_set k v (xs @ (k, u) # ys) = xs @ (k, v) # ys"
  by (induction xs) auto

lemma dict_set_fresh: "k \<notin> set (dict_keys d) \<Longrightarrow> dict_set k v d = d @ [(k, v)]"
  by (induction d) auto

lemma dict_lookup_split:
  assumes "map_of d k = Some v"
  obtains xs ys where "d = xs @ (k, v) # ys" "k \<notin> set (dict_keys xs)"
  using assms
proof (induction d arbitrary: thesis)
  case Nil
  then show ?case by simp
next
  case (Cons p d)
  show ?case
  proof (cases "fst p = k")
    case True
    with Cons.prems(2) have "p # d = [] @ (k, v) # d" by (cases p) auto
    then show ?thesis using Cons.prems(1) [of "[]" d] by simp
  next
    case False
    with Cons.prems(2) have "map_of d k = Some v" by (cases p) auto
    with Cons.IH obtain xs ys where "d = xs @ (k, v) # ys" "k \<notin> set (dict_keys xs)" by blast
    with False show ?thesis using Cons.prems(1) [of "p # xs" ys] by simp
  qed
qed

lemma map_of_map_keyed [dict_simps]:
  "map_of (map (\<lambda>(k, v). (k, f k v)) d) k = map_option (f k) (map_of d k)"
  by (induction d) auto

lemma dict_keys_map_keyed [dict_simps]:
  "dict_keys (map (\<lambda>(k, v). (k, f k v)) d) = dict_keys d"
  by (induction d) auto

lemma dict_value_in: "map_of d k = Some v \<Longrightarrow> v \<in> set (dict_values d)"
  by (auto dest: map_of_SomeD intro: image_eqI [of _ snd "(k, v)"])

lemma sum_dict_set:
  fixes f :: "'v \<Rightarrow> 'n::comm_monoid_add"
  assumes "map_of d k = Some u"
  shows "sum_list (map f (dict_values (dict_set k v d))) + f u = sum_list (map f (dict_values d)) + f v"
proof -
  obtain xs ys where "d = xs @ (k, u) # ys" "k \<notin> set (dict_keys xs)"
    using assms by (rule dict_lookup_split)
  then show ?thesis by (simp add: dict_set_at ac_simps)
qed

text \<open>The indices of \<open>n\<close> consecutive numbers modulo the length of a list run through it once.\<close>

lemma mset_rotation:
  assumes "n = length xs"
  shows "mset (map (\<lambda>i. xs ! ((k + i) mod n)) [0..<n]) = mset xs"
proof (cases "n = 0")
  case False
  have "map (\<lambda>i. xs ! ((k + i) mod n)) [0..<n] = rotate k xs"
    using assms False by (intro nth_equalityI) (simp_all add: nth_rotate)
  moreover have "mset (rotate k xs) = mset xs"
    by (metis append_take_drop_id mset_append rotate_drop_take union_commute)
  ultimately show ?thesis by simp
qed (use assms in simp)

section \<open>First minimum and stable descending sort\<close>

text \<open>
  \<open>min(xs, key=f)\<close> returns the first element with the least key; on an empty list it raises,
  so the model of a call site says what guards it. \<open>sort(key=f, reverse=True)\<close> is stable too:
  equal keys keep their order.
\<close>

abbreviation min_by :: "('a \<Rightarrow> 'k::linorder) \<Rightarrow> 'a list \<Rightarrow> 'a" where
  "min_by \<equiv> arg_min_list"

lemma min_by_cong_order:
  "(\<And>x y. f x \<le> f y \<longleftrightarrow> g x \<le> g y) \<Longrightarrow> xs \<noteq> [] \<Longrightarrow> min_by f xs = min_by g xs"
  by (induction f xs rule: arg_min_list.induct) (simp_all add: Let_def)

lemma min_by_in: "xs \<noteq> [] \<Longrightarrow> min_by f xs \<in> set xs"
  by (rule arg_min_list_in)

lemma min_by_le: "x \<in> set xs \<Longrightarrow> f (min_by f xs) \<le> f x"
proof (induction f xs rule: arg_min_list.induct)
  case (2 f x y zs)
  then show ?case by (auto simp: Let_def)
qed auto

lemma min_by_first:
  assumes "xs \<noteq> []"
  shows "\<exists>ys zs. xs = ys @ min_by f xs # zs \<and> (\<forall>y \<in> set ys. f (min_by f xs) < f y)"
  using assms
proof (induction f xs rule: arg_min_list.induct)
  case (1 f x)
  show ?case by (intro exI [of _ "[]"]) simp
next
  case (2 f x y zs)
  then obtain us vs where ih: "y # zs = us @ min_by f (y # zs) # vs"
    "\<forall>u \<in> set us. f (min_by f (y # zs)) < f u" by auto
  show ?case
  proof (cases "f x \<le> f (min_by f (y # zs))")
    case True
    then show ?thesis by (intro exI [of _ "[]"] exI [of _ "y # zs"]) (simp add: Let_def)
  next
    case False
    with ih show ?thesis
      by (intro exI [of _ "x # us"] exI [of _ vs]) (auto simp: Let_def)
  qed
qed simp

lemma min_by_unique:
  assumes "\<And>y. y \<in> set ys \<Longrightarrow> f m < f y" "\<And>z. z \<in> set zs \<Longrightarrow> f m \<le> f z"
  shows "min_by f (ys @ m # zs) = m"
  using assms
proof (induction ys)
  case Nil
  then show ?case
    using min_by_in [of zs f] by (cases zs) (auto simp: Let_def)
next
  case (Cons y ys)
  then have "min_by f (ys @ m # zs) = m" "f m < f y" by auto
  then show ?case by (cases "ys @ m # zs") (auto simp: Let_def)
qed

lemma min_by_filter:
  assumes "xs \<noteq> []" "P (min_by f xs)"
  shows "min_by f (filter P xs) = min_by f xs"
proof -
  obtain ys zs where split: "xs = ys @ min_by f xs # zs" "\<forall>y \<in> set ys. f (min_by f xs) < f y"
    using min_by_first [OF assms(1)] by blast
  have "filter P xs = filter P ys @ min_by f xs # filter P zs"
    using assms(2) arg_cong [OF split(1), of "filter P"] by simp
  moreover have "f (min_by f xs) \<le> f z" if "z \<in> set zs" for z
    using that by (intro min_by_le) (subst split(1), simp)
  ultimately show ?thesis using split(2) by (auto intro!: min_by_unique)
qed

fun insert_desc :: "('a \<Rightarrow> 'k::linorder) \<Rightarrow> 'a \<Rightarrow> 'a list \<Rightarrow> 'a list" where
  "insert_desc f x [] = [x]"
| "insert_desc f x (y # ys) = (if f y \<le> f x then x # y # ys else y # insert_desc f x ys)"

fun insert_asc :: "('a \<Rightarrow> 'k::linorder) \<Rightarrow> 'a \<Rightarrow> 'a list \<Rightarrow> 'a list" where
  "insert_asc f x [] = [x]"
| "insert_asc f x (y # ys) = (if f x \<le> f y then x # y # ys else y # insert_asc f x ys)"

fun sort_desc :: "('a \<Rightarrow> 'k::linorder) \<Rightarrow> 'a list \<Rightarrow> 'a list" where
  "sort_desc f [] = []"
| "sort_desc f (x # xs) = insert_desc f x (sort_desc f xs)"

fun sort_asc :: "('a \<Rightarrow> 'k::linorder) \<Rightarrow> 'a list \<Rightarrow> 'a list" where
  "sort_asc f [] = []"
| "sort_asc f (x # xs) = insert_asc f x (sort_asc f xs)"

lemma insert_asc_insort: "insert_asc f x xs = insort_key f x xs"
  by (induction f x xs rule: insert_asc.induct) auto

lemma sort_asc_sort_key: "sort_asc f xs = sort_key f xs"
  by (induction xs) (simp_all add: insert_asc_insort)

lemma insert_desc_insort:
  fixes f :: "'a \<Rightarrow> 'k::linordered_ab_group_add"
  shows "insert_desc f x xs = insort_key (\<lambda>x. - f x) x xs"
  by (induction f x xs rule: insert_desc.induct) auto

lemma sort_desc_sort_key:
  fixes f :: "'a \<Rightarrow> 'k::linordered_ab_group_add"
  shows "sort_desc f xs = sort_key (\<lambda>x. - f x) xs"
  by (induction xs) (simp_all add: insert_desc_insort)

lemma mset_insert_desc [simp]: "mset (insert_desc f x xs) = add_mset x (mset xs)"
  by (induction f x xs rule: insert_desc.induct) auto

lemma mset_sort_desc [simp, pylist_simps]: "mset (sort_desc f xs) = mset xs"
  by (induction xs) auto

lemma set_sort_desc [simp, pylist_simps]: "set (sort_desc f xs) = set xs"
  using mset_sort_desc [of f xs] by (metis set_mset_mset)

lemma length_sort_desc [simp, pylist_simps]: "length (sort_desc f xs) = length xs"
  using mset_sort_desc [of f xs] by (metis size_mset)

lemma mset_sort_asc [simp, pylist_simps]: "mset (sort_asc f xs) = mset xs"
  by (simp add: sort_asc_sort_key)

lemma set_sort_asc [simp, pylist_simps]: "set (sort_asc f xs) = set xs"
  by (simp add: sort_asc_sort_key)

lemma sorted_sort_asc [simp, pylist_simps]: "sorted (map f (sort_asc f xs))"
  by (simp add: sort_asc_sort_key)

lemma sort_desc_stable:
  fixes f :: "'a \<Rightarrow> 'k::linordered_ab_group_add"
  shows "filter (\<lambda>y. f y = k) (sort_desc f xs) = filter (\<lambda>y. f y = k) xs"
proof -
  have "filter (\<lambda>y. - f y = - k) (sort_key (\<lambda>x. - f x) xs) = filter (\<lambda>y. - f y = - k) xs"
    by (rule sort_key_stable)
  then show ?thesis by (simp add: sort_desc_sort_key)
qed

lemma sort_asc_stable: "filter (\<lambda>y. f y = k) (sort_asc f xs) = filter (\<lambda>y. f y = k) xs"
  by (simp add: sort_asc_sort_key sort_key_stable)

section \<open>Sublists\<close>

lemma subseq_filter_lemma: "subseq (filter P xs) xs"
  by (induction xs) auto

lemma subset_eq_add_mset: "M \<subseteq># add_mset x M"
  by (simp add: subseteq_mset_def)

lemma mset_subseq: "subseq xs ys \<Longrightarrow> mset xs \<subseteq># mset ys"
  by (induction rule: list_emb.induct) (auto simp: subset_mset.add_increasing
      simp flip: add_mset_add_single intro: subset_mset.order_trans [OF _ subset_eq_add_mset])

lemma subseq_prefix_suffix:
  assumes "i + j \<le> length xs"
  shows "subseq (take i xs @ drop (length xs - j) xs) xs"
proof -
  have "xs = take i xs @ take (length xs - j - i) (drop i xs) @ drop (length xs - j) xs"
    using assms by (metis append.assoc append_take_drop_id add.commute le_diff_conv2
        le_add1 le_trans ordered_cancel_comm_monoid_diff_class.diff_add take_add)
  then show ?thesis
    by (metis list_emb_append_mono list_emb_append2 subseq_order.order_refl)
qed

lemma sum_list_map_nonneg:
  fixes f :: "'a \<Rightarrow> int"
  shows "(\<And>x. x \<in> set xs \<Longrightarrow> 0 \<le> f x) \<Longrightarrow> 0 \<le> sum_list (map f xs)"
  by (induction xs) (simp_all add: add_nonneg_nonneg)

lemma subseq_sum_list_le:
  fixes f :: "'a \<Rightarrow> int"
  assumes "subseq xs ys" "\<And>y. y \<in> set ys \<Longrightarrow> 0 \<le> f y"
  shows "sum_list (map f xs) \<le> sum_list (map f ys)"
  using assms
proof (induction rule: list_emb.induct)
  case (list_emb_Nil ys)
  then show ?case by (simp add: sum_list_map_nonneg)
next
  case (list_emb_Cons xs ys y)
  then show ?case by (simp add: add_increasing)
next
  case (list_emb_Cons2 x y xs ys)
  then show ?case by simp
qed

lemma mset_subset_sum_list_le:
  fixes f :: "'a \<Rightarrow> int"
  assumes "mset xs \<subseteq># mset ys" "\<And>y. y \<in> set ys \<Longrightarrow> 0 \<le> f y"
  shows "sum_list (map f xs) \<le> sum_list (map f ys)"
proof -
  obtain zs where zs: "mset ys = mset xs + mset zs"
    using assms(1) by (metis ex_mset mset_subset_eq_exists_conv)
  have "set zs \<subseteq> set ys" using zs by (metis set_mset_mset set_mset_union Un_upper2)
  then have "0 \<le> sum_list (map f zs)" by (intro sum_list_map_nonneg assms(2)) blast
  moreover have "sum_list (map f ys) = sum_list (map f xs) + sum_list (map f zs)"
    using zs by (metis mset_append mset_map sum_list_append map_append sum_mset_sum_list)
  ultimately show ?thesis by simp
qed

section \<open>Strings\<close>

text \<open>
  A Python string is a list of characters; the model's \<open>char\<close> covers the code points below
  256. \<open>split(sep, 1)\<close> cuts at the first separator and \<open>rstrip(c)\<close> drops the trailing
  occurrences of \<open>c\<close>. \<open>lower()\<close> maps the upper-case letters of that range.
\<close>

fun split_once :: "char \<Rightarrow> string \<Rightarrow> (string \<times> string) option" where
  "split_once c [] = None"
| "split_once c (x # xs) =
     (if x = c then Some ([], xs)
      else map_option (\<lambda>(a, b). (x # a, b)) (split_once c xs))"

lemma split_once_Some:
  "split_once c s = Some (a, b) \<longleftrightarrow> s = a @ c # b \<and> c \<notin> set a"
  by (induction c s arbitrary: a b rule: split_once.induct)
    (auto simp: Cons_eq_append_conv)

lemma split_once_None: "split_once c s = None \<longleftrightarrow> c \<notin> set s"
  by (induction c s rule: split_once.induct) auto

definition rstrip :: "char \<Rightarrow> string \<Rightarrow> string" where
  "rstrip c s = rev (dropWhile (\<lambda>x. x = c) (rev s))"

lemma rstrip_idem: "rstrip c (rstrip c s) = rstrip c s"
  by (simp add: rstrip_def)

lemma rstrip_no_suffix: "rstrip c s \<noteq> [] \<Longrightarrow> last (rstrip c s) \<noteq> c"
  using hd_dropWhile [of "\<lambda>x. x = c" "rev s"] by (simp add: rstrip_def last_rev)

definition lower_char :: "char \<Rightarrow> char" where
  "lower_char c = (let n = of_char c :: nat
     in if 65 \<le> n \<and> n \<le> 90 \<or> 192 \<le> n \<and> n \<le> 222 \<and> n \<noteq> 215 then char_of (n + 32) else c)"

definition lower :: "string \<Rightarrow> string" where
  "lower s = map lower_char s"

fun contains :: "string \<Rightarrow> string \<Rightarrow> bool" where
  "contains p [] = (p = [])"
| "contains p (x # xs) = (prefix p (x # xs) \<or> contains p xs)"

lemma contains_sublist: "contains p s \<longleftrightarrow> sublist p s"
  by (induction s) (auto simp: sublist_Cons_right)

text \<open>Decimal notation, as \<open>str(n)\<close> and f-strings print integers.\<close>

definition digit_char :: "nat \<Rightarrow> char" where
  "digit_char d = char_of (48 + d)"

fun show_nat :: "nat \<Rightarrow> string" where
  "show_nat n = (if n < 10 then [digit_char n] else show_nat (n div 10) @ [digit_char (n mod 10)])"

declare show_nat.simps [simp del]

definition show_int :: "int \<Rightarrow> string" where
  "show_int i = (if i < 0 then CHR ''-'' # show_nat (nat (- i)) else show_nat (nat i))"

definition digit_value :: "char \<Rightarrow> nat" where
  "digit_value c = of_char c - 48"

definition read_nat :: "string \<Rightarrow> nat" where
  "read_nat s = foldl (\<lambda>n c. 10 * n + digit_value c) 0 s"

lemma digit_value_char: "d < 10 \<Longrightarrow> digit_value (digit_char d) = d"
  by (simp add: digit_value_def digit_char_def of_char_of)

lemma read_show_nat: "read_nat (show_nat n) = n"
proof (induction n rule: show_nat.induct)
  case (1 n)
  show ?case
  proof (cases "n < 10")
    case True
    then show ?thesis by (simp add: show_nat.simps [of n] read_nat_def digit_value_char)
  next
    case False
    with 1 have "read_nat (show_nat (n div 10)) = n div 10" by simp
    with False show ?thesis
      by (simp add: show_nat.simps [of n] digit_value_char) (simp add: read_nat_def digit_value_char)
  qed
qed

lemma show_nat_inject: "show_nat m = show_nat n \<Longrightarrow> m = n"
  using read_show_nat by metis

lemma set_show_nat: "set (show_nat n) \<subseteq> digit_char ` {..<10}"
proof (induction n rule: show_nat.induct)
  case (1 n)
  then show ?case by (subst show_nat.simps) auto
qed

lemma digit_char_neq:
  assumes "d < 10" "of_char c < (48 :: nat)"
  shows "digit_char d \<noteq> c"
proof
  assume "digit_char d = c"
  then have "of_char (digit_char d) < (48 :: nat)" using assms(2) by simp
  then show False using assms(1) by (simp add: digit_char_def of_char_of)
qed

lemma show_nat_no_char: "of_char c < (48 :: nat) \<Longrightarrow> c \<notin> set (show_nat n)"
  using set_show_nat [of n] digit_char_neq [of _ c] by fastforce

section \<open>Lines\<close>

definition newline :: char where
  "newline = CHR 0x0A"

fun join_lines :: "string list \<Rightarrow> string" where
  "join_lines [] = []"
| "join_lines [l] = l"
| "join_lines (l # m # ls) = l @ newline # join_lines (m # ls)"

fun split_lines :: "string \<Rightarrow> string list" where
  "split_lines [] = [[]]"
| "split_lines (c # cs) =
     (if c = newline then [] # split_lines cs
      else (case split_lines cs of [] \<Rightarrow> [[c]] | l # ls \<Rightarrow> (c # l) # ls))"

lemma split_lines_append:
  "newline \<notin> set l \<Longrightarrow> split_lines (l @ newline # cs) = l # split_lines cs"
  by (induction l) auto

lemma split_lines_single: "newline \<notin> set l \<Longrightarrow> split_lines l = [l]"
  by (induction l) auto

lemma split_join_lines:
  "ls \<noteq> [] \<Longrightarrow> list_all (\<lambda>l. newline \<notin> set l) ls \<Longrightarrow> split_lines (join_lines ls) = ls"
  by (induction ls rule: join_lines.induct) (simp_all add: split_lines_append split_lines_single)

text \<open>The number after the last blank of a line\<close>

definition read_last :: "string \<Rightarrow> nat" where
  "read_last l = read_nat (rev (takeWhile (\<lambda>c. c \<noteq> CHR '' '') (rev l)))"

lemma read_last_show: "read_last (s @ CHR '' '' # show_nat n) = n"
proof -
  have "takeWhile (\<lambda>c. c \<noteq> CHR '' '') (rev (show_nat n) @ CHR '' '' # rev s) = rev (show_nat n)"
    using show_nat_no_char [of "CHR '' ''" n] by (subst takeWhile_append2) auto
  then show ?thesis by (simp add: read_last_def read_show_nat)
qed

end
