(* ===== verification/Md5.thy ===== *)
theory Md5
  imports Prelude "HOL-Library.Word"
begin

unbundle bit_operations_syntax

text \<open>
  \<open>hashlib.md5(s.encode()).hexdigest()\<close> of the Python library, which the condenser uses as a
  content fingerprint: UTF-8 encoding of the code points below 256, the padding and the 64
  rounds of RFC 1321 on 32-bit words, and the hexadecimal digest. The test vector at the end is evaluated
  by the kernel.
\<close>

section \<open>UTF-8 and padding\<close>

definition utf8_char :: "char \<Rightarrow> int list" where
  "utf8_char c = (let n = of_char c :: int in if n < 128 then [n] else [192 + n div 64, 128 + n mod 64])"

definition utf8 :: "string \<Rightarrow> int list" where
  "utf8 s = concat (map utf8_char s)"

definition le_bytes :: "nat \<Rightarrow> int \<Rightarrow> int list" where
  "le_bytes k n = map (\<lambda>i. n div 256 ^ i mod 256) [0..<k]"

definition md5_pad :: "int list \<Rightarrow> int list" where
  "md5_pad bs =
     bs @ [128] @ replicate ((119 - length bs mod 64) mod 64) 0 @ le_bytes 8 (8 * int (length bs))"

lemma length_md5_pad: "length (md5_pad bs) mod 64 = 0"
proof -
  define r where "r = length bs mod 64"
  have r: "r < 64" by (simp add: r_def)
  have "(length bs + k) mod 64 = (r + k) mod 64" for k
    by (simp add: r_def mod_add_left_eq)
  moreover have "(r + (9 + (119 - r) mod 64)) mod 64 = 0"
  proof (cases "r \<le> 55")
    case True
    then have "(119 - r) mod 64 = 55 - r" using r by (simp add: mod_if)
    with True show ?thesis by simp
  next
    case False
    with r have "(119 - r) mod 64 = 119 - r" by simp
    with r show ?thesis by simp
  qed
  ultimately show ?thesis by (simp add: md5_pad_def le_bytes_def r_def)
qed

section \<open>The compression function\<close>

type_synonym u32 = "32 word"

definition md5_k :: "u32 list" where
  "md5_k = [
   3614090360, 3905402710, 606105819, 3250441966, 4118548399, 1200080426, 2821735955, 4249261313,
   1770035416, 2336552879, 4294925233, 2304563134, 1804603682, 4254626195, 2792965006, 1236535329,
   4129170786, 3225465664, 643717713, 3921069994, 3593408605, 38016083, 3634488961, 3889429448,
   568446438, 3275163606, 4107603335, 1163531501, 2850285829, 4243563512, 1735328473, 2368359562,
   4294588738, 2272392833, 1839030562, 4259657740, 2763975236, 1272893353, 4139469664, 3200236656,
   681279174, 3936430074, 3572445317, 76029189, 3654602809, 3873151461, 530742520, 3299628645,
   4096336452, 1126891415, 2878612391, 4237533241, 1700485571, 2399980690, 4293915773, 2240044497,
   1873313359, 4264355552, 2734768916, 1309151649, 4149444226, 3174756917, 718787259, 3951481745]"

definition md5_s :: "nat list" where
  "md5_s = concat (replicate 4 [7, 12, 17, 22]) @ concat (replicate 4 [5, 9, 14, 20])
     @ concat (replicate 4 [4, 11, 16, 23]) @ concat (replicate 4 [6, 10, 15, 21])"

type_synonym md5_state = "u32 \<times> u32 \<times> u32 \<times> u32"

definition md5_mix :: "nat \<Rightarrow> u32 \<Rightarrow> u32 \<Rightarrow> u32 \<Rightarrow> u32" where
  "md5_mix i b c d =
     (if i < 16 then (b AND c) OR (NOT b AND d)
      else if i < 32 then (d AND b) OR (NOT d AND c)
      else if i < 48 then b XOR c XOR d
      else c XOR (b OR NOT d))"

definition md5_word_index :: "nat \<Rightarrow> nat" where
  "md5_word_index i =
     (if i < 16 then i
      else if i < 32 then (5 * i + 1) mod 16
      else if i < 48 then (3 * i + 5) mod 16
      else (7 * i) mod 16)"

definition rotl32 :: "nat \<Rightarrow> u32 \<Rightarrow> u32" where
  "rotl32 n w = push_bit n w OR drop_bit (32 - n) w"

fun md5_round :: "u32 list \<Rightarrow> nat \<times> nat \<times> u32 \<Rightarrow> md5_state \<Rightarrow> md5_state" where
  "md5_round m (i, s, k) (a, b, c, d) =
     (d, b + rotl32 s (a + md5_mix i b c d + k + m ! md5_word_index i), b, c)"

fun add_state :: "md5_state \<Rightarrow> md5_state \<Rightarrow> md5_state" where
  "add_state (a, b, c, d) (a', b', c', d') = (a + a', b + b', c + c', d + d')"

definition md5_block :: "md5_state \<Rightarrow> u32 list \<Rightarrow> md5_state" where
  "md5_block st m = add_state st (fold (md5_round m) (zip [0..<64] (zip md5_s md5_k)) st)"

fun words_of :: "int list \<Rightarrow> u32 list" where
  "words_of (a # b # c # d # bs) =
     of_int (a + 256 * b + 65536 * c + 16777216 * d) # words_of bs"
| "words_of bs = []"

function blocks :: "u32 list \<Rightarrow> u32 list list" where
  "blocks ws = (if length ws < 16 then [] else take 16 ws # blocks (drop 16 ws))"
  by pat_completeness auto
termination
  by (relation "measure length") auto

declare blocks.simps [simp del]

definition md5_init :: md5_state where
  "md5_init = (1732584193, 4023233417, 2562383102, 271733878)"

definition md5 :: "int list \<Rightarrow> md5_state" where
  "md5 bs = fold (\<lambda>m st. md5_block st m) (blocks (words_of (md5_pad bs))) md5_init"

section \<open>The hexadecimal digest\<close>

definition hex_char :: "int \<Rightarrow> char" where
  "hex_char n = (if n < 10 then char_of (48 + n) else char_of (87 + n))"

definition hex_byte :: "int \<Rightarrow> string" where
  "hex_byte n = [hex_char (n div 16), hex_char (n mod 16)]"

definition hex_word :: "u32 \<Rightarrow> string" where
  "hex_word w = concat (map hex_byte (le_bytes 4 (uint w)))"

definition md5_hexdigest :: "int list \<Rightarrow> string" where
  "md5_hexdigest bs =
     (case md5 bs of (a, b, c, d) \<Rightarrow> hex_word a @ hex_word b @ hex_word c @ hex_word d)"

lemma length_md5_hexdigest: "length (md5_hexdigest bs) = 32"
  by (simp add: md5_hexdigest_def hex_word_def hex_byte_def le_bytes_def upt_rec split: prod.splits)

lemma md5_vector_abc: "md5_hexdigest (utf8 ''abc'') = ''900150983cd24fb0d6963f7d28e17f72''"
  by code_simp

end
