(* ===== verification/Float64.thy ===== *)
theory Float64
  imports Complex_Main
begin

text \<open>
  Python's \<open>float\<close> is an IEEE 754 binary64 number and every arithmetic operation on floats
  returns the double nearest to the exact result (ties to even). This theory models the finite
  doubles as rational numbers: \<open>fl\<close> is the rounding function, computed from the binary exponent
  of its argument, with 53 bits of precision and the subnormal range below \<open>2 ^ (-1022)\<close>, and
  \<open>fadd\<close>, \<open>fsub\<close>, \<open>fmul\<close> and \<open>fdiv\<close> are the rounded operations. Magnitudes of
  \<open>2 ^ 1024\<close> and above, where Python produces an infinity, and NaN are outside the model.
  The last section has the compensated \<open>sum\<close> of floats and \<open>random.uniform\<close>.

  The locale \<open>rounding\<close> states what the components need of a rounding function (it is
  monotone, idempotent, symmetric, and leaves 0 and 1 alone) and derives the sign and bound
  lemmas from it; the interpretation at the end discharges these laws for \<open>fl\<close>.
\<close>

section \<open>The interface: what a rounding function promises\<close>

locale rounding =
  fixes rnd :: "rat \<Rightarrow> rat"
  assumes rnd_mono: "x \<le> y \<Longrightarrow> rnd x \<le> rnd y"
    and rnd_idem: "rnd (rnd x) = rnd x"
    and rnd_uminus: "rnd (- x) = - rnd x"
    and rnd_one: "rnd 1 = 1"
begin

lemma rnd_zero: "rnd 0 = 0"
  using rnd_uminus [of 0] by simp

lemma rnd_nonneg: "0 \<le> x \<Longrightarrow> 0 \<le> rnd x"
  using rnd_mono [of 0 x] by (simp add: rnd_zero)

lemma rnd_nonpos: "x \<le> 0 \<Longrightarrow> rnd x \<le> 0"
  using rnd_mono [of x 0] by (simp add: rnd_zero)

lemma rnd_le_one: "x \<le> 1 \<Longrightarrow> rnd x \<le> 1"
  using rnd_mono [of x 1] by (simp add: rnd_one)

lemma rnd_le_fixed: "rnd y = y \<Longrightarrow> x \<le> y \<Longrightarrow> rnd x \<le> y"
  using rnd_mono [of x y] by simp

lemma rnd_ge_fixed: "rnd y = y \<Longrightarrow> y \<le> x \<Longrightarrow> y \<le> rnd x"
  using rnd_mono [of y x] by simp

lemma rnd_less_imp_less: "rnd x < rnd y \<Longrightarrow> x < y"
  using rnd_mono [of y x] by (cases "x < y") simp_all

end

section \<open>Binary64 rounding\<close>

subsection \<open>Bit length and binary exponent\<close>

function blen :: "int \<Rightarrow> int" where
  "blen n = (if n \<le> 0 then 0 else 1 + blen (n div 2))"
  by pat_completeness auto
termination
  by (relation "measure nat") auto

declare blen.simps [simp del]

lemma blen_nonneg: "0 \<le> blen n"
proof (induction n rule: blen.induct)
  case (1 n)
  then show ?case by (subst blen.simps) auto
qed

lemma blen_pos: "0 < n \<Longrightarrow> 0 < blen n"
  using blen_nonneg [of "n div 2"] by (subst blen.simps) simp

lemma blen_bounds: "0 < n \<Longrightarrow> 2 ^ nat (blen n - 1) \<le> n \<and> n < 2 ^ nat (blen n)"
proof (induction n rule: blen.induct)
  case (1 n)
  have eq: "blen n = 1 + blen (n div 2)" using "1.prems" by (subst blen.simps) simp
  show ?case
  proof (cases "n = 1")
    case True
    have "blen 1 = 1" by (subst blen.simps, subst blen.simps) simp
    with True show ?thesis by simp
  next
    case False
    with "1.prems" have pos: "0 < n div 2" by simp
    with "1.IH" "1.prems"
    have b: "2 ^ nat (blen (n div 2) - 1) \<le> n div 2" "n div 2 < 2 ^ nat (blen (n div 2))"
      by auto
    have bp: "0 < blen (n div 2)" using pos by (rule blen_pos)
    have e1: "nat (blen n) = Suc (nat (blen (n div 2)))" using bp by (simp add: eq nat_add_distrib)
    have e2: "nat (blen n - 1) = Suc (nat (blen (n div 2) - 1))"
      using bp by (simp add: eq nat_diff_distrib)
    have "2 * 2 ^ nat (blen (n div 2) - 1) \<le> n" using b(1) by linarith
    moreover have "n < 2 * 2 ^ nat (blen (n div 2))" using b(2) by linarith
    ultimately show ?thesis unfolding e1 e2 by simp
  qed
qed

definition pow2 :: "int \<Rightarrow> rat" where
  "pow2 k = (if 0 \<le> k then 2 ^ nat k else 1 / 2 ^ nat (- k))"

lemma pow2_powi: "pow2 k = 2 powi k"
  by (simp add: pow2_def power_int_def inverse_eq_divide power_one_over)

lemma pow2_pos [simp]: "0 < pow2 k"
  by (simp add: pow2_def)

lemma pow2_add: "pow2 (a + b) = pow2 a * pow2 b"
  by (simp add: pow2_powi power_int_add)

lemma pow2_mono: "a \<le> b \<Longrightarrow> pow2 a \<le> pow2 b"
  by (simp add: pow2_powi power_int_increasing)

lemma pow2_less: "a < b \<Longrightarrow> pow2 a < pow2 b"
  by (simp add: pow2_powi power_int_strict_increasing)

lemma pow2_strict: "pow2 a < pow2 b \<Longrightarrow> a < b"
  using pow2_mono [of b a] by linarith

lemma pow2_0 [simp]: "pow2 0 = 1"
  by (simp add: pow2_def)

lemma pow2_nonneg_int: "0 \<le> k \<Longrightarrow> pow2 k = of_int (2 ^ nat k)"
  by (simp add: pow2_def)

definition ilog2 :: "rat \<Rightarrow> int" where
  "ilog2 x = (let (p, q) = quotient_of x; k = blen p - blen q
              in if pow2 k \<le> x then k else k - 1)"

lemma blen_pow2: "0 < n \<Longrightarrow> pow2 (blen n - 1) \<le> of_int n \<and> of_int n < pow2 (blen n)"
proof -
  assume n: "0 < n"
  have "0 \<le> blen n - 1" using blen_pos [OF n] by simp
  then have e: "pow2 (blen n - 1) = of_int (2 ^ nat (blen n - 1))" by (rule pow2_nonneg_int)
  have e': "pow2 (blen n) = of_int (2 ^ nat (blen n))" by (rule pow2_nonneg_int [OF blen_nonneg])
  from blen_bounds [OF n] show ?thesis
    unfolding e e' of_int_le_iff of_int_less_iff .
qed

lemma ilog2_bounds:
  assumes "0 < x"
  shows "pow2 (ilog2 x) \<le> x \<and> x < pow2 (ilog2 x + 1)"
proof -
  obtain p q where pq: "quotient_of x = (p, q)" by (cases "quotient_of x")
  have q: "0 < q" using pq by (rule quotient_of_denom_pos)
  have x: "x = of_int p / of_int q" using pq by (rule quotient_of_div)
  have "0 < (of_int p :: rat)"
    using assms q unfolding x by (simp add: zero_less_divide_iff)
  then have p: "0 < p" by simp
  have bp: "pow2 (blen p - 1) \<le> of_int p" "of_int p < pow2 (blen p)"
    using blen_pow2 [OF p] by auto
  have bq: "pow2 (blen q - 1) \<le> of_int q" "of_int q < pow2 (blen q)"
    using blen_pow2 [OF q] by auto
  have up: "x < pow2 (blen p - blen q + 1)"
  proof -
    have "x * pow2 (blen q - 1) \<le> x * of_int q"
      using bq(1) assms by (simp add: mult_left_mono)
    also have "\<dots> = of_int p" using q by (simp add: x)
    also have "\<dots> < pow2 (blen p - blen q + 1) * pow2 (blen q - 1)"
      using bp(2) pow2_add [of "blen p - blen q + 1" "blen q - 1"] by simp
    finally show ?thesis using pow2_pos less_imp_le mult_right_less_imp_less by blast
  qed
  have low: "pow2 (blen p - blen q - 1) \<le> x"
  proof -
    have "pow2 (blen p - blen q - 1) * pow2 (blen q) \<le> of_int p"
      using bp(1) pow2_add [of "blen p - blen q - 1" "blen q"] by simp
    also have "\<dots> = x * of_int q" using q by (simp add: x)
    also have "\<dots> \<le> x * pow2 (blen q)" using bq(2) assms by (simp add: mult_left_mono)
    finally show ?thesis using pow2_pos mult_right_le_imp_le by blast
  qed
  show ?thesis using up low by (simp add: ilog2_def pq Let_def)
qed

subsection \<open>Rounding to an integer, ties to even\<close>

definition rhe :: "rat \<Rightarrow> int" where
  "rhe x = (let f = \<lfloor>x\<rfloor>; d = x - of_int f
            in if d < 1 / 2 then f else if 1 / 2 < d then f + 1
               else if even f then f else f + 1)"

lemma rhe_int [simp]: "rhe (of_int n) = n"
  by (simp add: rhe_def)

lemma rhe_cases: "rhe x = \<lfloor>x\<rfloor> \<or> rhe x = \<lfloor>x\<rfloor> + 1"
  by (simp add: rhe_def Let_def)

lemma rhe_mono:
  assumes "x \<le> y"
  shows "rhe x \<le> rhe y"
proof (cases "\<lfloor>x\<rfloor> = \<lfloor>y\<rfloor>")
  case True
  with assms show ?thesis by (auto simp: rhe_def Let_def)
next
  case False
  with assms have "\<lfloor>x\<rfloor> + 1 \<le> \<lfloor>y\<rfloor>" using floor_mono [OF assms] by simp
  with rhe_cases [of x] rhe_cases [of y] show ?thesis by auto
qed

definition rgrid :: "int \<Rightarrow> rat \<Rightarrow> rat" where
  "rgrid e x = of_int (rhe (x / pow2 e)) * pow2 e"

lemma rgrid_mono: "x \<le> y \<Longrightarrow> rgrid e x \<le> rgrid e y"
  by (simp add: rgrid_def rhe_mono divide_right_mono less_imp_le mult_right_mono)

lemma rgrid_fixed: "rgrid e (of_int n * pow2 e) = of_int n * pow2 e"
  using pow2_pos [of e] by (simp add: rgrid_def less_imp_neq [symmetric])

lemma rgrid_multiple:
  assumes "e \<le> f"
  shows "rgrid e (of_int n * pow2 f) = of_int n * pow2 f"
proof -
  have "pow2 f = pow2 (f - e) * pow2 e" using pow2_add [of "f - e" e] by simp
  then have eq: "of_int n * pow2 f = of_int (n * 2 ^ nat (f - e)) * pow2 e"
    using assms by (simp add: pow2_nonneg_int)
  show ?thesis unfolding eq by (rule rgrid_fixed)
qed

lemma rgrid_pow2: "e \<le> f \<Longrightarrow> rgrid e (pow2 f) = pow2 f"
  using rgrid_multiple [of e f 1] by simp

subsection \<open>The rounding function\<close>

definition fexp :: "rat \<Rightarrow> int" where
  "fexp x = max (ilog2 x - 52) (- 1074)"

definition fl :: "rat \<Rightarrow> rat" where
  "fl x = (if x = 0 then 0
           else if x < 0 then - rgrid (fexp (- x)) (- x) else rgrid (fexp x) x)"

lemma fexp_mono:
  assumes "0 < x" "x \<le> y"
  shows "fexp x \<le> fexp y"
proof -
  have "pow2 (ilog2 x) < pow2 (ilog2 y + 1)"
    using ilog2_bounds [of x] ilog2_bounds [of y] assms by linarith
  then have "ilog2 x < ilog2 y + 1" by (rule pow2_strict)
  then show ?thesis by (simp add: fexp_def)
qed

lemma fl_pos_mono:
  assumes "0 < x" "x \<le> y"
  shows "rgrid (fexp x) x \<le> rgrid (fexp y) y"
proof (cases "fexp x = fexp y")
  case True
  then show ?thesis using assms rgrid_mono by simp
next
  case False
  with fexp_mono [OF assms] have less: "fexp x < fexp y" by simp
  then have y: "fexp y = ilog2 y - 52" by (auto simp: fexp_def)
  have "x < pow2 (ilog2 x + 1)" using ilog2_bounds assms(1) by blast
  also have "\<dots> \<le> pow2 (fexp x + 53)" by (rule pow2_mono) (simp add: fexp_def)
  finally have "rgrid (fexp x) x \<le> rgrid (fexp x) (pow2 (fexp x + 53))"
    by (intro rgrid_mono) simp
  also have "\<dots> = pow2 (fexp x + 53)" by (rule rgrid_pow2) simp
  also have "\<dots> \<le> pow2 (ilog2 y)" using less y by (intro pow2_mono) simp
  also have "\<dots> = rgrid (fexp y) (pow2 (ilog2 y))" using y by (simp add: rgrid_pow2)
  also have "\<dots> \<le> rgrid (fexp y) y"
    using ilog2_bounds [of y] assms by (intro rgrid_mono) simp
  finally show ?thesis .
qed

lemma rgrid_nonneg: "0 \<le> x \<Longrightarrow> 0 \<le> rgrid e x"
  using rgrid_mono [of 0 x e] rgrid_fixed [of e 0] by simp

lemma fl_mono_lemma:
  assumes "x \<le> y"
  shows "fl x \<le> fl y"
proof -
  consider "0 < x" | "y < 0" | "x \<le> 0" "0 \<le> y" by linarith
  then show ?thesis
  proof cases
    case 1
    with assms fl_pos_mono [of x y] show ?thesis by (simp add: fl_def)
  next
    case 2
    with assms fl_pos_mono [of "- y" "- x"] show ?thesis by (simp add: fl_def)
  next
    case 3
    then have "fl x \<le> 0" "0 \<le> fl y" using rgrid_nonneg by (auto simp: fl_def)
    then show ?thesis by linarith
  qed
qed

lemma fl_neg_lemma: "fl (- x) = - fl x"
  by (simp add: fl_def)

lemma ilog2_le:
  assumes "0 < x" "x < pow2 k"
  shows "ilog2 x < k"
proof -
  have "pow2 (ilog2 x) < pow2 k" using ilog2_bounds [OF assms(1)] assms(2) by linarith
  then show ?thesis by (rule pow2_strict)
qed

text \<open>
  Every number \<open>m * 2 ^ e\<close> with a significand of at most 53 bits is a double: rounding leaves
  it alone.
\<close>

lemma fl_representable_pos:
  assumes "0 < m" "m \<le> 2 ^ 53" "- 1074 \<le> e"
  shows "fl (of_int m * pow2 e) = of_int m * pow2 e"
proof (cases "m = 2 ^ 53")
  case True
  have "pow2 53 = of_int m" using True by (simp add: pow2_nonneg_int)
  then have eq: "of_int m * pow2 e = pow2 (e + 53)" using pow2_add [of e 53] by simp
  have "ilog2 (pow2 (e + 53)) < e + 54"
    by (rule ilog2_le) (simp_all add: pow2_less)
  then have "fexp (pow2 (e + 53)) \<le> e + 53" using assms(3) by (auto simp: fexp_def)
  moreover have "pow2 (e + 53) \<noteq> 0" "\<not> pow2 (e + 53) < 0"
    using pow2_pos [of "e + 53"] by linarith+
  ultimately show ?thesis unfolding eq by (simp add: fl_def rgrid_pow2)
next
  case False
  let ?x = "of_int m * pow2 e :: rat"
  have pos: "0 < ?x" using assms(1) by simp
  have "of_int m < pow2 53"
    using False assms(2) by (simp add: pow2_nonneg_int)
  then have "?x < pow2 (53 + e)" by (simp add: pow2_add)
  with pos have "ilog2 ?x < 53 + e" by (rule ilog2_le)
  then have "fexp ?x \<le> e" using assms(3) by (simp add: fexp_def)
  then have "rgrid (fexp ?x) ?x = ?x" by (rule rgrid_multiple)
  with pos show ?thesis by (simp add: fl_def)
qed

lemma fl_representable:
  assumes "\<bar>m\<bar> \<le> 2 ^ 53" "- 1074 \<le> e"
  shows "fl (of_int m * pow2 e) = of_int m * pow2 e"
proof -
  consider "m = 0" | "0 < m" | "m < 0" by linarith
  then show ?thesis
  proof cases
    case 1
    then show ?thesis by (simp add: fl_def)
  next
    case 2
    with assms show ?thesis by (intro fl_representable_pos) auto
  next
    case 3
    with assms have "fl (of_int (- m) * pow2 e) = of_int (- m) * pow2 e"
      by (intro fl_representable_pos) auto
    then show ?thesis using fl_neg_lemma [of "of_int m * pow2 e"] by simp
  qed
qed

lemma fl_int: "\<bar>n\<bar> \<le> 2 ^ 53 \<Longrightarrow> fl (of_int n) = of_int n"
  using fl_representable [of n 0] by simp

text \<open>The significand of a rounded number has at most 53 bits, so rounding is idempotent.\<close>

lemma fl_significand_pos:
  assumes "0 < x"
  shows "\<exists>m e. fl x = of_int m * pow2 e \<and> \<bar>m\<bar> \<le> 2 ^ 53 \<and> - 1074 \<le> e"
proof -
  let ?m = "rhe (x / pow2 (fexp x))"
  have "x < pow2 (ilog2 x + 1)" using ilog2_bounds assms by blast
  also have "\<dots> \<le> pow2 (53 + fexp x)" by (rule pow2_mono) (simp add: fexp_def)
  finally have "x / pow2 (fexp x) \<le> of_int (2 ^ 53)"
    by (simp add: pow2_add pow2_nonneg_int divide_le_eq)
  then have "?m \<le> 2 ^ 53" using rhe_mono rhe_int by metis
  moreover have "0 \<le> ?m"
    using rhe_mono [of 0 "x / pow2 (fexp x)"] rhe_int [of 0] assms by (simp add: less_imp_le)
  ultimately show ?thesis
    using assms by (intro exI [of _ ?m] exI [of _ "fexp x"]) (auto simp: fl_def rgrid_def fexp_def)
qed

lemma fl_significand: "\<exists>m e. fl x = of_int m * pow2 e \<and> \<bar>m\<bar> \<le> 2 ^ 53 \<and> - 1074 \<le> e"
proof -
  consider "x = 0" | "0 < x" | "0 < - x" by linarith
  then show ?thesis
  proof cases
    case 1
    then show ?thesis by (intro exI [of _ 0]) (auto simp: fl_def)
  next
    case 2
    then show ?thesis by (rule fl_significand_pos)
  next
    case 3
    then obtain m e where "fl (- x) = of_int m * pow2 e" "\<bar>m\<bar> \<le> 2 ^ 53" "- 1074 \<le> e"
      using fl_significand_pos by blast
    then show ?thesis
      by (intro exI [of _ "- m"] exI [of _ e]) (simp add: fl_neg_lemma minus_equation_iff)
  qed
qed

lemma fl_idem_lemma: "fl (fl x) = fl x"
  using fl_significand [of x] fl_representable by metis

interpretation f64: rounding fl
proof (unfold_locales)
  show "fl 1 = 1" using fl_int [of 1] by simp
qed (simp_all add: fl_mono_lemma fl_idem_lemma fl_neg_lemma)

section \<open>The rounded operations\<close>

text \<open>
  \<open>fdiv\<close> is only reached with a non-zero divisor: Python raises \<open>ZeroDivisionError\<close>
  otherwise, and the models that divide test for it. \<open>idiv\<close> is Python's true division of two
  integers, which rounds the exact quotient once. \<open>of_pyint\<close> is the conversion of an integer
  operand of a mixed operation.
\<close>

definition fadd :: "rat \<Rightarrow> rat \<Rightarrow> rat" where "fadd a b = fl (a + b)"

definition fsub :: "rat \<Rightarrow> rat \<Rightarrow> rat" where "fsub a b = fl (a - b)"

definition fmul :: "rat \<Rightarrow> rat \<Rightarrow> rat" where "fmul a b = fl (a * b)"

definition fdiv :: "rat \<Rightarrow> rat \<Rightarrow> rat" where "fdiv a b = fl (a / b)"

definition idiv :: "int \<Rightarrow> int \<Rightarrow> rat" where "idiv a b = fl (of_int a / of_int b)"

definition of_pyint :: "int \<Rightarrow> rat" where "of_pyint n = fl (of_int n)"

named_theorems float_sign \<open>signs and bounds of rounded operations\<close>

lemma fl_nonneg [float_sign]: "0 \<le> x \<Longrightarrow> 0 \<le> fl x"
  by (rule f64.rnd_nonneg)

lemma fl_zero [simp]: "fl 0 = 0"
  by (rule f64.rnd_zero)

lemma fl_one [simp]: "fl 1 = 1"
  by (rule f64.rnd_one)

lemma fadd_nonneg [float_sign]: "0 \<le> a \<Longrightarrow> 0 \<le> b \<Longrightarrow> 0 \<le> fadd a b"
  by (simp add: fadd_def f64.rnd_nonneg)

lemma fsub_nonneg [float_sign]: "b \<le> a \<Longrightarrow> 0 \<le> fsub a b"
  by (simp add: fsub_def f64.rnd_nonneg)

lemma fmul_nonneg [float_sign]: "0 \<le> a \<Longrightarrow> 0 \<le> b \<Longrightarrow> 0 \<le> fmul a b"
  by (simp add: fmul_def f64.rnd_nonneg)

lemma fdiv_nonneg [float_sign]: "0 \<le> a \<Longrightarrow> 0 \<le> b \<Longrightarrow> 0 \<le> fdiv a b"
  by (simp add: fdiv_def f64.rnd_nonneg)

lemma idiv_nonneg [float_sign]: "0 \<le> a \<Longrightarrow> 0 \<le> b \<Longrightarrow> 0 \<le> idiv a b"
  by (simp add: idiv_def f64.rnd_nonneg)

lemma idiv_le_one [float_sign]: "0 \<le> a \<Longrightarrow> a \<le> b \<Longrightarrow> idiv a b \<le> 1"
  by (cases "b = 0") (simp_all add: idiv_def f64.rnd_le_one divide_le_eq_1)

lemma fadd_mono: "a \<le> c \<Longrightarrow> b \<le> d \<Longrightarrow> fadd a b \<le> fadd c d"
  by (simp add: fadd_def f64.rnd_mono add_mono)

lemma fadd_ge_left: "fl a = a \<Longrightarrow> 0 \<le> b \<Longrightarrow> a \<le> fadd a b"
  by (simp add: fadd_def f64.rnd_ge_fixed)

lemma fl_fadd [simp]: "fl (fadd a b) = fadd a b"
  by (simp add: fadd_def f64.rnd_idem)

lemma fl_fmul [simp]: "fl (fmul a b) = fmul a b"
  by (simp add: fmul_def f64.rnd_idem)

lemma fl_idiv [simp]: "fl (idiv a b) = idiv a b"
  by (simp add: idiv_def f64.rnd_idem)

lemma fl_fdiv [simp]: "fl (fdiv a b) = fdiv a b"
  by (simp add: fdiv_def f64.rnd_idem)

lemma of_pyint_small: "\<bar>n\<bar> \<le> 2 ^ 53 \<Longrightarrow> of_pyint n = of_int n"
  by (simp add: of_pyint_def fl_int)

section \<open>\<open>sum\<close> and \<open>random.uniform\<close>\<close>

text \<open>
  From version 3.12 on \<open>sum\<close> adds floats with Neumaier's compensation: \<open>s\<close> is the running sum, \<open>c\<close>
  collects what each addition lost, and the two are added at the end. The sum of a non-empty list
  starts with the integer 0 plus the first item. \<open>fsum_plain\<close> is the loop \<open>cur += x\<close>.
\<close>

fun neumaier :: "rat \<Rightarrow> rat \<Rightarrow> rat list \<Rightarrow> rat" where
  "neumaier s c [] = (if c = 0 then s else fadd s c)"
| "neumaier s c (x # xs) =
     (let t = fadd s x;
          d = (if \<bar>x\<bar> \<le> \<bar>s\<bar> then fadd (fsub s t) x else fadd (fsub x t) s)
      in neumaier t (fadd c d) xs)"

definition py_sum :: "rat list \<Rightarrow> rat" where
  "py_sum xs = (case xs of [] \<Rightarrow> 0 | x # ys \<Rightarrow> neumaier (fadd 0 x) 0 ys)"

definition fsum_plain :: "rat list \<Rightarrow> rat" where
  "fsum_plain xs = foldl fadd 0 xs"

text \<open>\<open>random.uniform(a, b)\<close> is \<open>a + (b - a) * random()\<close>; \<open>random()\<close> is in [0, 1).\<close>

definition random_uniform :: "rat \<Rightarrow> rat \<Rightarrow> rat \<Rightarrow> rat" where
  "random_uniform a b r = fadd a (fmul (fsub b a) r)"

lemma fl_neumaier: "fl s = s \<Longrightarrow> fl (neumaier s c xs) = neumaier s c xs"
  by (induction s c xs rule: neumaier.induct) (simp_all add: Let_def)

lemma fl_py_sum: "fl (py_sum xs) = py_sum xs"
  by (simp add: py_sum_def fl_neumaier split: list.split)

lemma fl_foldl_fadd: "fl c = c \<Longrightarrow> fl (foldl fadd c xs) = foldl fadd c xs"
  by (induction xs arbitrary: c) simp_all

lemma fl_fsum_plain [simp]: "fl (fsum_plain xs) = fsum_plain xs"
  by (simp add: fsum_plain_def fl_foldl_fadd)

lemma fsum_plain_snoc: "fsum_plain (xs @ [x]) = fadd (fsum_plain xs) x"
  by (simp add: fsum_plain_def)

text \<open>Nothing is lost while every addition is exact: then both sums are the sum.\<close>

lemma neumaier_exact:
  assumes "fl s = s" "list_all (\<lambda>x. fl x = x) xs"
    and "\<And>k. k \<le> length xs \<Longrightarrow> fl (s + sum_list (take k xs)) = s + sum_list (take k xs)"
  shows "neumaier s 0 xs = s + sum_list xs"
  using assms
proof (induction xs arbitrary: s)
  case (Cons x xs)
  have t: "fadd s x = s + x" using Cons.prems(3) [of 1] by (simp add: fadd_def)
  have "fl (- x) = - x" using Cons.prems(2) by (simp add: f64.rnd_uminus)
  moreover have "fl (- s) = - s" using Cons.prems(1) by (simp add: f64.rnd_uminus)
  ultimately have d: "fadd (fsub s (s + x)) x = 0" "fadd (fsub x (s + x)) s = 0"
    by (simp_all add: fadd_def fsub_def)
  have "neumaier (s + x) 0 xs = (s + x) + sum_list xs"
  proof (rule Cons.IH)
    show "fl (s + x) = s + x" using Cons.prems(3) [of 1] by simp
    show "list_all (\<lambda>x. fl x = x) xs" using Cons.prems(2) by simp
    show "fl (s + x + sum_list (take k xs)) = s + x + sum_list (take k xs)" if "k \<le> length xs" for k
      using Cons.prems(3) [of "Suc k"] that by (simp add: add.assoc)
  qed
  moreover have "fadd 0 0 = 0" by (simp add: fadd_def)
  ultimately show ?case by (simp add: Let_def t d add.assoc)
qed simp

lemma random_uniform_bounds:
  assumes "fl b = b" "0 \<le> b" "0 \<le> r" "r \<le> 1"
  shows "0 \<le> random_uniform 0 b r \<and> random_uniform 0 b r \<le> b"
proof -
  have "b * r \<le> b * 1" using assms by (intro mult_left_mono) simp_all
  then have "fl (b * r) \<le> b" using f64.rnd_le_fixed [OF assms(1)] by simp
  then show ?thesis
    using assms by (simp add: random_uniform_def fadd_def fmul_def fsub_def f64.rnd_idem fl_nonneg)
qed

end
