(* ===== verification/Condenser.thy ===== *)
theory Condenser
  imports Md5 Float64
begin

text \<open>
  \<open>python/condenser.py\<close>: the context-compression pipeline. A \<open>Message\<close> and the condenser's
  input and output are records with the source's fields; \<open>dedup\<close>, \<open>sliding_window\<close> and
  \<open>summarize_trigger\<close> are the three stages and \<open>condense\<close> composes them under the strategy of
  the condenser object and updates its two counters. Floats are rounded as in \<open>Float64\<close>; the
  two readings of the monotonic clock are arguments of \<open>condense\<close>.
\<close>

section \<open>Data\<close>

datatype CompressionStrategy = NONE | DEDUP | SLIDING_WINDOW | SUMMARIZE | HYBRID

record message =
  role :: string
  content :: string
  timestamp :: rat
  token_count :: int
  importance :: rat

definition estimate_tokens :: "string \<Rightarrow> int" where
  "estimate_tokens text = max 1 (int (length text) div 4)"

text \<open>The dataclass constructor with \<open>__post_init__\<close>: a zero count is replaced by an estimate.\<close>

definition new_message :: "string \<Rightarrow> string \<Rightarrow> rat \<Rightarrow> int \<Rightarrow> rat \<Rightarrow> message" where
  "new_message r c ts tc imp =
     \<lparr>role = r, content = c, timestamp = ts,
      token_count = (if tc = 0 then estimate_tokens c else tc), importance = imp\<rparr>"

definition fingerprint :: "message \<Rightarrow> string" where
  "fingerprint m = take 12 (md5_hexdigest (utf8 (role m @ '':'' @ content m)))"

record condenser_input =
  in_messages :: "message list"
  max_tokens :: int
  in_strategy :: CompressionStrategy
  preserve_system :: bool
  min_messages :: int

record condenser_output =
  out_messages :: "message list"
  original_tokens :: int
  compressed_tokens :: int
  tokens_saved :: int
  compression_ratio :: rat
  strategy_used :: CompressionStrategy
  processing_time_ms :: rat

definition was_compressed :: "condenser_output \<Rightarrow> bool" where
  "was_compressed out \<longleftrightarrow> 0 < tokens_saved out"

record condenser =
  strategy :: CompressionStrategy
  total_compressed :: int
  total_saved :: int

definition new_condenser :: "CompressionStrategy \<Rightarrow> condenser" where
  "new_condenser s = \<lparr>strategy = s, total_compressed = 0, total_saved = 0\<rparr>"

definition total_tokens :: "message list \<Rightarrow> int" where
  "total_tokens ms = sum_list (map token_count ms)"

definition is_system :: "message \<Rightarrow> bool" where
  "is_system m \<longleftrightarrow> role m = ''system''"

section \<open>The three stages\<close>

text \<open>
  \<open>_dedup\<close>: the loop carries the set \<open>seen\<close> of fingerprints; a system message under
  \<open>preserve_system\<close> is kept without being recorded.
\<close>

fun dedup_loop :: "bool \<Rightarrow> string set \<Rightarrow> message list \<Rightarrow> message list" where
  "dedup_loop preserve seen [] = []"
| "dedup_loop preserve seen (m # ms) =
     (if preserve \<and> is_system m then m # dedup_loop preserve seen ms
      else let fp = fingerprint m
           in if fp \<notin> seen then m # dedup_loop preserve (insert fp seen) ms
              else dedup_loop preserve seen ms)"

definition dedup :: "message list \<Rightarrow> bool \<Rightarrow> message list" where
  "dedup ms preserve = dedup_loop preserve {} ms"

text \<open>\<open>_sliding_window\<close>: the score, the loop over the scored messages, and the stage.\<close>

definition score :: "message \<Rightarrow> rat" where
  "score m = fadd (fmul (importance m) (fl (6 / 10)))
                  (fmul (fdiv (timestamp m) 1000000000000) (fl (4 / 10)))"

definition window_full :: "int \<Rightarrow> int \<Rightarrow> message list \<Rightarrow> int \<Rightarrow> bool" where
  "window_full budget min_msgs kept used \<longleftrightarrow>
     min_msgs \<le> int (length kept) \<and> fmul (of_pyint budget) (fl (9 / 10)) \<le> of_int used"

fun window_loop ::
  "int \<Rightarrow> int \<Rightarrow> nat \<Rightarrow> message list \<Rightarrow> int \<Rightarrow> message list \<Rightarrow> message list \<times> int" where
  "window_loop budget min_msgs n kept used [] = (kept, used)"
| "window_loop budget min_msgs n kept used (m # ms) =
     (let (kept', used') =
        (if used + token_count m \<le> budget \<and> length kept < n
         then (kept @ [m], used + token_count m) else (kept, used))
      in if window_full budget min_msgs kept' used' then (kept', used')
         else window_loop budget min_msgs n kept' used' ms)"

definition window_system :: "message list \<Rightarrow> bool \<Rightarrow> message list" where
  "window_system ms preserve = (if preserve then filter is_system ms else [])"

definition window_others :: "message list \<Rightarrow> bool \<Rightarrow> message list" where
  "window_others ms preserve = filter (\<lambda>m. \<not> is_system m \<or> \<not> preserve) ms"

definition sliding_window :: "message list \<Rightarrow> int \<Rightarrow> bool \<Rightarrow> int \<Rightarrow> message list" where
  "sliding_window ms max_toks preserve min_msgs =
     (if total_tokens ms \<le> max_toks then ms
      else
        let system_msgs = window_system ms preserve;
            other_msgs = window_others ms preserve;
            budget = max_toks - total_tokens system_msgs;
            scored = sort_desc score other_msgs;
            kept = fst (window_loop budget min_msgs (length other_msgs) [] 0 scored)
        in system_msgs @ sort_asc timestamp kept)"

text \<open>\<open>_summarize_trigger\<close>: the placeholder keeps the first message and the last three.\<close>

definition summarize_trigger :: "message list \<Rightarrow> int \<Rightarrow> message list" where
  "summarize_trigger ms max_toks =
     (if total_tokens ms \<le> max_toks then ms
      else if 4 < length ms then take 1 ms @ drop (length ms - 3) ms
      else ms)"

section \<open>The pipeline\<close>

definition stage_dedup :: "condenser \<Rightarrow> condenser_input \<Rightarrow> message list \<Rightarrow> message list" where
  "stage_dedup self inp ms =
     (if strategy self \<in> {DEDUP, HYBRID} then dedup ms (preserve_system inp) else ms)"

definition stage_window :: "condenser \<Rightarrow> condenser_input \<Rightarrow> message list \<Rightarrow> message list" where
  "stage_window self inp ms =
     (if strategy self \<in> {SLIDING_WINDOW, HYBRID}
      then sliding_window ms (max_tokens inp) (preserve_system inp) (min_messages inp) else ms)"

definition stage_summarize :: "condenser \<Rightarrow> condenser_input \<Rightarrow> message list \<Rightarrow> message list" where
  "stage_summarize self inp ms =
     (if strategy self \<in> {SUMMARIZE, HYBRID} \<and> max_tokens inp < total_tokens ms
      then summarize_trigger ms (max_tokens inp) else ms)"

definition condense_messages :: "condenser \<Rightarrow> condenser_input \<Rightarrow> message list" where
  "condense_messages self inp =
     stage_summarize self inp (stage_window self inp (stage_dedup self inp (in_messages inp)))"

definition condense ::
  "condenser \<Rightarrow> condenser_input \<Rightarrow> rat \<Rightarrow> rat \<Rightarrow> condenser_output \<times> condenser" where
  "condense self inp start finish =
     (let original = total_tokens (in_messages inp);
          ms = condense_messages self inp;
          compressed = total_tokens ms;
          saved = original - compressed;
          ratio = idiv compressed (max original 1);
          elapsed = fmul (fsub finish start) 1000
      in (\<lparr>out_messages = ms, original_tokens = original, compressed_tokens = compressed,
           tokens_saved = saved, compression_ratio = ratio,
           strategy_used = strategy self, processing_time_ms = elapsed\<rparr>,
          self\<lparr>total_compressed := total_compressed self + 1,
               total_saved := total_saved self + saved\<rparr>))"

record condenser_stats =
  stat_compressed :: int
  stat_saved :: int
  stat_avg_savings :: rat

definition condenser_get_stats :: "condenser \<Rightarrow> condenser_stats" where
  "condenser_get_stats self =
     \<lparr>stat_compressed = total_compressed self, stat_saved = total_saved self,
      stat_avg_savings = idiv (total_saved self) (max (total_compressed self) 1)\<rparr>"

section \<open>The interface of a stage\<close>

text \<open>
  A stage only drops and reorders messages. From that the pipeline gets that every message of
  the output is one of the input, that the output is not longer and, since counts are not
  negative, that the token total never grows.
\<close>

locale compression_stage =
  fixes stage :: "message list \<Rightarrow> message list"
  assumes shrinks: "mset (stage ms) \<subseteq># mset ms"
begin

lemma stage_set: "set (stage ms) \<subseteq> set ms"
  using shrinks [of ms] by (metis set_mset_mono set_mset_mset)

lemma stage_length: "length (stage ms) \<le> length ms"
  using size_mset_mono [OF shrinks [of ms]] by simp

lemma stage_tokens:
  "(\<And>m. m \<in> set ms \<Longrightarrow> 0 \<le> token_count m) \<Longrightarrow> total_tokens (stage ms) \<le> total_tokens ms"
  unfolding total_tokens_def by (rule mset_subset_sum_list_le [OF shrinks])

end

lemma compression_stage_comp:
  assumes "compression_stage f" "compression_stage g"
  shows "compression_stage (\<lambda>ms. g (f ms))"
  using assms unfolding compression_stage_def by (meson subset_mset.order_trans)

lemma compression_stage_if:
  "(b \<Longrightarrow> compression_stage f) \<Longrightarrow> compression_stage (\<lambda>ms. if b then f ms else ms)"
  by (cases b) (simp_all add: compression_stage_def)

subsection \<open>Token totals\<close>

lemma total_tokens_simps [simp]:
  "total_tokens [] = 0"
  "total_tokens (m # ms) = token_count m + total_tokens ms"
  "total_tokens (ms @ ns) = total_tokens ms + total_tokens ns"
  by (simp_all add: total_tokens_def)

lemma total_tokens_mset: "mset ms = mset ns \<Longrightarrow> total_tokens ms = total_tokens ns"
  unfolding total_tokens_def by (metis mset_map sum_mset_sum_list)

lemma total_tokens_sort [simp]: "total_tokens (sort_asc f ms) = total_tokens ms"
  by (rule total_tokens_mset) simp

lemma total_tokens_nonneg: "(\<And>m. m \<in> set ms \<Longrightarrow> 0 \<le> token_count m) \<Longrightarrow> 0 \<le> total_tokens ms"
  unfolding total_tokens_def by (rule sum_list_map_nonneg)

section \<open>Deduplication\<close>

text \<open>
  The reference: position \<open>i\<close> survives when its message is protected or no earlier
  unprotected message has its fingerprint. The loop with a set of fingerprints selects exactly
  these positions.
\<close>

definition protected :: "bool \<Rightarrow> message \<Rightarrow> bool" where
  "protected preserve m \<longleftrightarrow> preserve \<and> is_system m"

definition dedup_keeps :: "bool \<Rightarrow> message list \<Rightarrow> nat \<Rightarrow> bool" where
  "dedup_keeps preserve ms i \<longleftrightarrow>
     protected preserve (ms ! i) \<or>
     (\<forall>j < i. \<not> protected preserve (ms ! j) \<longrightarrow> fingerprint (ms ! j) \<noteq> fingerprint (ms ! i))"

lemma dedup_loop_Cons:
  "dedup_loop p seen (m # ms) =
     (if protected p m then m # dedup_loop p seen ms
      else if fingerprint m \<in> seen then dedup_loop p seen ms
      else m # dedup_loop p (insert (fingerprint m) seen) ms)"
  by (simp add: protected_def Let_def)

declare dedup_loop.simps(2) [simp del]
declare dedup_loop_Cons [simp]

lemma dedup_loop_nths:
  "dedup_loop p seen ms =
     nths ms {i. protected p (ms ! i) \<or> (fingerprint (ms ! i) \<notin> seen \<and>
       (\<forall>j < i. \<not> protected p (ms ! j) \<longrightarrow> fingerprint (ms ! j) \<noteq> fingerprint (ms ! i)))}"
proof (induction ms arbitrary: seen)
  case Nil
  show ?case by simp
next
  case (Cons m ms)
  show ?case
    unfolding nths_Cons dedup_loop_Cons Cons.IH
    by (auto simp: less_Suc_eq_0_disj all_conj_distrib intro!: arg_cong [of _ _ "nths ms"])
qed

lemma dedup_loop_subseq: "subseq (dedup_loop p seen ms) ms"
  by (induction ms arbitrary: seen) auto

lemma dedup_loop_system: "filter (protected p) (dedup_loop p seen ms) = filter (protected p) ms"
  by (induction ms arbitrary: seen) auto

lemma dedup_loop_fresh:
  "m \<in> set (dedup_loop p seen ms) \<Longrightarrow> \<not> protected p m \<Longrightarrow> fingerprint m \<notin> seen"
  by (induction ms arbitrary: seen) (auto split: if_splits)

lemma dedup_loop_distinct:
  "distinct (map fingerprint (filter (\<lambda>m. \<not> protected p m) (dedup_loop p seen ms)))"
  by (induction ms arbitrary: seen) (auto dest: dedup_loop_fresh)

lemma dedup_loop_covers:
  "m \<in> set ms \<Longrightarrow> \<not> protected p m \<Longrightarrow> fingerprint m \<notin> seen \<Longrightarrow>
   \<exists>m' \<in> set (dedup_loop p seen ms). \<not> protected p m' \<and> fingerprint m' = fingerprint m"
proof (induction ms arbitrary: seen)
  case (Cons x ms)
  show ?case
  proof (cases "\<not> protected p x \<and> fingerprint x = fingerprint m")
    case True
    with Cons.prems show ?thesis by auto
  next
    case False
    with Cons.prems have "m \<in> set ms" by auto
    with Cons.IH [of seen] Cons.IH [of "insert (fingerprint x) seen"] Cons.prems False
    show ?thesis by auto
  qed
qed simp

lemma dedup_loop_id:
  "distinct (map fingerprint (filter (\<lambda>m. \<not> protected p m) ms)) \<Longrightarrow>
   (\<And>m. m \<in> set ms \<Longrightarrow> \<not> protected p m \<Longrightarrow> fingerprint m \<notin> seen) \<Longrightarrow>
   dedup_loop p seen ms = ms"
proof (induction ms arbitrary: seen)
  case (Cons x ms)
  have "dedup_loop p (insert (fingerprint x) seen) ms = ms" if "\<not> protected p x"
    using that Cons.prems by (intro Cons.IH) (auto simp: image_iff)
  moreover have "dedup_loop p seen ms = ms" if "protected p x"
    using that Cons.prems by (intro Cons.IH) auto
  ultimately show ?case using Cons.prems(2) [of x] by auto
qed simp

interpretation dedup_stage: compression_stage "\<lambda>ms. dedup ms preserve"
  by unfold_locales (simp add: dedup_def dedup_loop_subseq mset_subseq)

section \<open>The sliding window\<close>

lemma window_loop_spec:
  assumes "window_loop b k n kept used ms = (kept', used')"
    and "length kept + length ms \<le> n"
    and "\<And>m. m \<in> set ms \<Longrightarrow> 0 \<le> token_count m"
  shows "\<exists>zs. kept' = kept @ zs \<and> used' = used + total_tokens zs \<and> subseq zs ms \<and>
           (zs \<noteq> [] \<longrightarrow> used' \<le> b) \<and>
           (window_full b k kept' used' \<or> (\<forall>m \<in># mset ms - mset zs. b < used' + token_count m))"
  using assms
proof (induction ms arbitrary: kept used)
  case Nil
  then show ?case by simp
next
  case (Cons m ms)
  have nn: "\<And>x. x \<in> set ms \<Longrightarrow> 0 \<le> token_count x" "0 \<le> token_count m"
    using Cons.prems(3) by auto
  have len: "length kept < n" using Cons.prems(2) by simp
  show ?case
  proof (cases "used + token_count m \<le> b")
    case fits: True
    show ?thesis
    proof (cases "window_full b k (kept @ [m]) (used + token_count m)")
      case True
      with fits len Cons.prems(1) show ?thesis by (intro exI [of _ "[m]"]) auto
    next
      case False
      with fits len Cons.prems(1)
      have "window_loop b k n (kept @ [m]) (used + token_count m) ms = (kept', used')" by simp
      with Cons.IH [OF this] nn(1) Cons.prems(2)
      obtain zs where zs: "kept' = (kept @ [m]) @ zs" "used' = used + token_count m + total_tokens zs"
        "subseq zs ms" "zs \<noteq> [] \<longrightarrow> used' \<le> b"
        "window_full b k kept' used' \<or> (\<forall>x \<in># mset ms - mset zs. b < used' + token_count x)"
        by auto
      then show ?thesis using fits by (intro exI [of _ "m # zs"]) auto
    qed
  next
    case skip: False
    show ?thesis
    proof (cases "window_full b k kept used")
      case True
      with skip Cons.prems(1) show ?thesis by (intro exI [of _ "[]"]) auto
    next
      case False
      with skip Cons.prems(1) have "window_loop b k n kept used ms = (kept', used')" by simp
      with Cons.IH [OF this] nn(1) Cons.prems(2)
      obtain zs where zs: "kept' = kept @ zs" "used' = used + total_tokens zs"
        "subseq zs ms" "zs \<noteq> [] \<longrightarrow> used' \<le> b"
        "window_full b k kept' used' \<or> (\<forall>x \<in># mset ms - mset zs. b < used' + token_count x)"
        by auto
      have "set zs \<subseteq> set ms" using zs(3) by (auto dest: subseq_order.trans list_emb_set)
      with nn(1) have "0 \<le> total_tokens zs" by (intro total_tokens_nonneg) auto
      with skip zs(2) have over: "b < used' + token_count m" by linarith
      have sub: "x = m \<or> x \<in># mset ms - mset zs" if "x \<in># mset (m # ms) - mset zs" for x
        using that by (auto simp: in_diff_count split: if_splits)
      show ?thesis using zs over sub by (intro exI [of _ zs]) auto
    qed
  qed
qed

text \<open>The messages the window keeps besides the system messages, in the order it picks them.\<close>

definition window_kept :: "message list \<Rightarrow> int \<Rightarrow> bool \<Rightarrow> int \<Rightarrow> message list" where
  "window_kept ms mx p k =
     (if total_tokens ms \<le> mx then window_others ms p
      else fst (window_loop (mx - total_tokens (window_system ms p)) k (length (window_others ms p))
             [] 0 (sort_desc score (window_others ms p))))"

lemma mset_system_others: "mset (window_system ms p) + mset (window_others ms p) = mset ms"
  by (induction ms) (auto simp: window_system_def window_others_def)

lemma total_system_others:
  "total_tokens (window_system ms p) + total_tokens (window_others ms p) = total_tokens ms"
  by (metis mset_append mset_system_others total_tokens_mset total_tokens_simps(3))

lemma window_kept_spec:
  assumes "\<And>m. m \<in> set ms \<Longrightarrow> 0 \<le> token_count m"
  shows "mset (window_kept ms mx p k) \<subseteq># mset (window_others ms p)"
    and "window_kept ms mx p k = [] \<or>
         total_tokens (window_kept ms mx p k) \<le> mx - total_tokens (window_system ms p)"
    and "mx < total_tokens ms \<Longrightarrow>
         window_full (mx - total_tokens (window_system ms p)) k (window_kept ms mx p k)
           (total_tokens (window_kept ms mx p k)) \<or>
         (\<forall>m \<in># mset (window_others ms p) - mset (window_kept ms mx p k).
            mx - total_tokens (window_system ms p) < total_tokens (window_kept ms mx p k) + token_count m)"
proof -
  let ?b = "mx - total_tokens (window_system ms p)"
  let ?sc = "sort_desc score (window_others ms p)"
  have nn: "0 \<le> token_count m" if "m \<in> set ?sc" for m
    using that assms by (auto simp: window_others_def)
  obtain kept used where run: "window_loop ?b k (length (window_others ms p)) [] 0 ?sc = (kept, used)"
    by (cases "window_loop ?b k (length (window_others ms p)) [] 0 ?sc")
  from window_loop_spec [OF run _ nn] obtain zs where zs: "kept = zs" "used = total_tokens zs"
    "subseq zs ?sc" "zs \<noteq> [] \<longrightarrow> used \<le> ?b"
    "window_full ?b k kept used \<or> (\<forall>m \<in># mset ?sc - mset zs. ?b < used + token_count m)"
    by auto
  have kept: "window_kept ms mx p k = zs" if "mx < total_tokens ms"
    using that run zs(1) by (simp add: window_kept_def)
  show "mset (window_kept ms mx p k) \<subseteq># mset (window_others ms p)"
    using kept mset_subseq [OF zs(3)] by (cases "total_tokens ms \<le> mx") (auto simp: window_kept_def)
  show "window_kept ms mx p k = [] \<or> total_tokens (window_kept ms mx p k) \<le> ?b"
    using kept zs(2,4) total_system_others [of ms p]
    by (cases "total_tokens ms \<le> mx") (auto simp: window_kept_def)
  show "mx < total_tokens ms \<Longrightarrow>
         window_full ?b k (window_kept ms mx p k) (total_tokens (window_kept ms mx p k)) \<or>
         (\<forall>m \<in># mset (window_others ms p) - mset (window_kept ms mx p k).
            ?b < total_tokens (window_kept ms mx p k) + token_count m)"
    using kept zs by simp
qed

lemma sliding_window_kept:
  "mx < total_tokens ms \<Longrightarrow>
   sliding_window ms mx p k = window_system ms p @ sort_asc timestamp (window_kept ms mx p k)"
  by (simp add: sliding_window_def window_kept_def Let_def)

lemma window_loop_subset:
  "mset (fst (window_loop b k n kept used ms)) \<subseteq># mset kept + mset ms"
proof (induction b k n kept used ms rule: window_loop.induct)
  case (2 b k n kept used m ms)
  then show ?case
    by (auto simp: Let_def split: if_splits prod.splits)
      (meson subset_mset.order_trans subset_eq_add_mset mset_subset_eq_add_left)+
qed simp

lemma mset_sliding_window: "mset (sliding_window ms mx p k) \<subseteq># mset ms"
proof (cases "total_tokens ms \<le> mx")
  case False
  have "mset (window_kept ms mx p k) \<subseteq># mset (window_others ms p)"
    using False window_loop_subset [of _ k _ "[]" 0 "sort_desc score (window_others ms p)"]
    by (simp add: window_kept_def)
  with False mset_system_others [of ms p] show ?thesis
    by (simp add: sliding_window_kept) (metis subset_mset.add_left_mono)
qed (simp add: sliding_window_def)

interpretation window_stage: compression_stage "\<lambda>ms. sliding_window ms mx preserve k"
  by unfold_locales (rule mset_sliding_window)

interpretation summarize_stage: compression_stage "\<lambda>ms. summarize_trigger ms mx"
proof
  fix ms :: "message list"
  have "subseq (take 1 ms @ drop (length ms - 3) ms) ms" if "4 < length ms"
    using that by (intro subseq_prefix_suffix) simp
  then have "mset (take 1 ms @ drop (length ms - 3) ms) \<subseteq># mset ms" if "4 < length ms"
    using that mset_subseq by blast
  then show "mset (summarize_trigger ms mx) \<subseteq># mset ms"
    by (simp add: summarize_trigger_def)
qed

interpretation pipeline: compression_stage
  "\<lambda>ms. stage_summarize self inp (stage_window self inp (stage_dedup self inp ms))"
proof -
  have "compression_stage (stage_dedup self inp)"
    unfolding stage_dedup_def [abs_def]
    by (rule compression_stage_if) (rule dedup_stage.compression_stage_axioms)
  moreover have "compression_stage (stage_window self inp)"
    unfolding stage_window_def [abs_def]
    by (rule compression_stage_if) (rule window_stage.compression_stage_axioms)
  moreover have "compression_stage (stage_summarize self inp)"
    using summarize_stage.shrinks
    by (simp add: compression_stage_def stage_summarize_def)
  ultimately show "compression_stage
      (\<lambda>ms. stage_summarize self inp (stage_window self inp (stage_dedup self inp ms)))"
    using compression_stage_comp [OF compression_stage_comp] by blast
qed

section \<open>Properties\<close>

definition counts_ok :: "message list \<Rightarrow> bool" where
  "counts_ok ms \<longleftrightarrow> list_all (\<lambda>m. 0 \<le> token_count m) ms"

lemma counts_okD: "counts_ok ms \<Longrightarrow> m \<in> set ms \<Longrightarrow> 0 \<le> token_count m"
  by (simp add: counts_ok_def list_all_iff)

lemma counts_ok_total: "counts_ok ms \<Longrightarrow> 0 \<le> total_tokens ms"
  by (rule total_tokens_nonneg) (rule counts_okD)

lemma counts_ok_stage:
  "compression_stage f \<Longrightarrow> counts_ok ms \<Longrightarrow> counts_ok (f ms)"
  using compression_stage.stage_set unfolding counts_ok_def list_all_iff by blast

lemma total_sliding_window:
  assumes "counts_ok ms"
  shows "total_tokens (sliding_window ms mx p k) \<le> max mx (total_tokens (window_system ms p))"
proof (cases "total_tokens ms \<le> mx")
  case False
  then show ?thesis
    using window_kept_spec(2) [of ms mx p k] counts_okD [OF assms]
    by (auto simp: sliding_window_kept)
qed (simp add: sliding_window_def)

lemma protected_True: "protected True = is_system"
  by (simp add: protected_def fun_eq_iff)

lemma window_system_dedup: "window_system (dedup ms p) p = window_system ms p"
  using dedup_loop_system [of p "{}" ms]
  by (cases p) (simp_all add: window_system_def dedup_def protected_True)

text \<open>
  C22: deduplication is its reference. The one-pass loop with a set of seen fingerprints keeps
  exactly the positions whose message is protected or has no earlier unprotected message with
  the same fingerprint, in their order.
\<close>

theorem dedup_reference: "dedup ms p = nths ms {i. dedup_keeps p ms i}"
  by (simp add: dedup_def dedup_loop_nths dedup_keeps_def)

text \<open>
  C27: what deduplication promises. System messages under \<open>preserve_system\<close> stay as they were,
  the others have pairwise different fingerprints, no fingerprint is lost, and a second pass
  changes nothing.
\<close>

theorem dedup_contract:
  "filter (protected p) (dedup ms p) = filter (protected p) ms
   \<and> distinct (map fingerprint (filter (\<lambda>m. \<not> protected p m) (dedup ms p)))
   \<and> fingerprint ` set (filter (\<lambda>m. \<not> protected p m) (dedup ms p))
       = fingerprint ` set (filter (\<lambda>m. \<not> protected p m) ms)
   \<and> dedup (dedup ms p) p = dedup ms p"
proof (intro conjI)
  let ?out = "dedup_loop p {} ms"
  show "filter (protected p) (dedup ms p) = filter (protected p) ms"
    unfolding dedup_def by (rule dedup_loop_system)
  show "distinct (map fingerprint (filter (\<lambda>m. \<not> protected p m) (dedup ms p)))"
    unfolding dedup_def by (rule dedup_loop_distinct)
  show "fingerprint ` set (filter (\<lambda>m. \<not> protected p m) (dedup ms p))
       = fingerprint ` set (filter (\<lambda>m. \<not> protected p m) ms)"
    using dedup_loop_covers [of _ ms p "{}"] dedup_stage.stage_set [of ms p]
    by (fastforce simp: dedup_def image_iff)
  show "dedup (dedup ms p) p = dedup ms p"
    unfolding dedup_def by (rule dedup_loop_id) (simp_all add: dedup_loop_distinct)
qed

text \<open>
  C10: the token budget. With non-negative counts, a condenser whose strategy has a window stage
  returns at most \<open>max_tokens\<close> tokens, unless the preserved system messages alone exceed the
  limit; then it returns at most their total.
\<close>

theorem condense_within_budget:
  assumes "counts_ok (in_messages inp)" "strategy self \<in> {SLIDING_WINDOW, HYBRID}"
  shows "compressed_tokens (fst (condense self inp t0 t1))
           \<le> max (max_tokens inp) (total_tokens (window_system (in_messages inp) (preserve_system inp)))"
proof -
  let ?d = "stage_dedup self inp (in_messages inp)" and ?p = "preserve_system inp"
  let ?w = "stage_window self inp ?d"
  have d: "?d = dedup (in_messages inp) ?p \<or> ?d = in_messages inp"
    by (simp add: stage_dedup_def)
  then have sys: "window_system ?d ?p = window_system (in_messages inp) ?p"
    using window_system_dedup by auto
  have okd: "counts_ok ?d"
    using d assms(1) counts_ok_stage [OF dedup_stage.compression_stage_axioms] by auto
  have w: "?w = sliding_window ?d (max_tokens inp) ?p (min_messages inp)"
    using assms(2) by (simp add: stage_window_def)
  then have okw: "counts_ok ?w"
    using okd counts_ok_stage [OF window_stage.compression_stage_axioms] by simp
  have "total_tokens (stage_summarize self inp ?w) \<le> total_tokens ?w"
    using summarize_stage.stage_tokens counts_okD [OF okw] by (simp add: stage_summarize_def)
  also have "\<dots> \<le> max (max_tokens inp) (total_tokens (window_system (in_messages inp) ?p))"
    using total_sliding_window [OF okd] by (simp add: w flip: sys)
  finally show ?thesis by (simp add: condense_def condense_messages_def Let_def)
qed

theorem condense_within_budget_witness:
  "compressed_tokens (fst (condense (new_condenser HYBRID)
     \<lparr>in_messages = [new_message ''system'' ''be brief'' 1 4 1, new_message ''user'' ''hello'' 2 9 1,
                     new_message ''user'' ''bye'' 3 6 1],
      max_tokens = 12, in_strategy = HYBRID, preserve_system = True, min_messages = 2\<rparr> 0 1)) \<le> 12"
  using condense_within_budget [of
     "\<lparr>in_messages = [new_message ''system'' ''be brief'' 1 4 1, new_message ''user'' ''hello'' 2 9 1,
                     new_message ''user'' ''bye'' 3 6 1],
      max_tokens = 12, in_strategy = HYBRID, preserve_system = True, min_messages = 2\<rparr>"
     "new_condenser HYBRID" 0 1]
  by (simp add: counts_ok_def new_message_def new_condenser_def window_system_def is_system_def)

text \<open>
  C21: the window is greedy to the end. A message that the window drops would not have fitted
  beside what was kept, unless the loop stopped early because at least \<open>min_messages\<close> messages
  were kept and they fill nine tenths of the budget.
\<close>

theorem sliding_window_greedy:
  assumes "counts_ok ms" "m \<in># mset ms - mset (sliding_window ms mx p k)"
  shows "mx < total_tokens (sliding_window ms mx p k) + token_count m
         \<or> window_full (mx - total_tokens (window_system ms p)) k
              (window_kept ms mx p k) (total_tokens (window_kept ms mx p k))"
proof -
  have over: "mx < total_tokens ms"
    using assms(2) by (cases "total_tokens ms \<le> mx") (simp_all add: sliding_window_def)
  have "mset ms - mset (sliding_window ms mx p k)
      = mset (window_others ms p) - mset (window_kept ms mx p k)"
    by (simp add: sliding_window_kept [OF over] flip: mset_system_others [of ms p])
  with assms(2) have "m \<in># mset (window_others ms p) - mset (window_kept ms mx p k)" by simp
  then show ?thesis
    using window_kept_spec(3) [of ms mx p k] counts_okD [OF assms(1)] over
    by (auto simp: sliding_window_kept [OF over])
qed

theorem sliding_window_greedy_witness:
  "let a = new_message ''user'' ''one'' 0 5 1; b = new_message ''user'' ''two'' 0 9 0
   in 10 < total_tokens (sliding_window [a, b] 10 True 2) + token_count b"
proof -
  let ?a = "new_message ''user'' ''one'' 0 5 1" and ?b = "new_message ''user'' ''two'' 0 9 0"
  have out: "sliding_window [?a, ?b] 10 True 2 = [?a]" by code_simp
  have over: "10 < total_tokens [?a, ?b]" by (simp add: new_message_def)
  have "?b \<in># mset [?a, ?b] - mset (sliding_window [?a, ?b] 10 True 2)"
    unfolding out by (simp add: new_message_def)
  moreover have "counts_ok [?a, ?b]" by (simp add: counts_ok_def new_message_def)
  moreover have "size (mset (window_kept [?a, ?b] 10 True 2)) = 1"
    using arg_cong [OF out, of "\<lambda>xs. size (mset xs)"] unfolding sliding_window_kept [OF over]
    by (simp add: window_system_def is_system_def new_message_def)
  ultimately show ?thesis
    using sliding_window_greedy [of "[?a, ?b]" ?b 10 True 2] by (simp add: Let_def window_full_def)
qed

text \<open>
  C32: what the window returns when it has to cut. The preserved system messages come first, in
  their original order and all of them; then a sub-multiset of the other messages in
  chronological order.
\<close>

theorem sliding_window_shape:
  assumes "mx < total_tokens ms"
  shows "\<exists>kept. sliding_window ms mx p k = window_system ms p @ kept
           \<and> sorted (map timestamp kept) \<and> mset kept \<subseteq># mset (window_others ms p)"
proof (intro exI conjI)
  show "sliding_window ms mx p k = window_system ms p @ sort_asc timestamp (window_kept ms mx p k)"
    by (rule sliding_window_kept [OF assms])
  show "mset (sort_asc timestamp (window_kept ms mx p k)) \<subseteq># mset (window_others ms p)"
    using assms window_loop_subset [of _ k _ "[]" 0 "sort_desc score (window_others ms p)"]
    by (simp add: window_kept_def)
qed simp

theorem sliding_window_shape_witness:
  "let ms = [new_message ''user'' ''one'' 3 5 1, new_message ''system'' ''s'' 2 1 1,
             new_message ''user'' ''two'' 1 5 1, new_message ''user'' ''big'' 4 50 1]
   in \<exists>kept. sliding_window ms 20 True 2 = window_system ms True @ kept
         \<and> sorted (map timestamp kept) \<and> mset kept \<subseteq># mset (window_others ms True)"
  using sliding_window_shape [of 20
     "[new_message ''user'' ''one'' 3 5 1, new_message ''system'' ''s'' 2 1 1,
       new_message ''user'' ''two'' 1 5 1, new_message ''user'' ''big'' 4 50 1]" True 2]
  by (simp add: new_message_def Let_def)

text \<open>
  \<open>min_messages\<close> is not a guarantee. The comment on the field says that at least that many
  messages are always kept, but when every other message is larger than the remaining budget the
  window keeps none of them, whatever \<open>min_messages\<close> says.
\<close>

theorem min_messages_not_guaranteed:
  assumes "mx < total_tokens ms" "counts_ok ms"
    and "list_all (\<lambda>m. mx - total_tokens (window_system ms p) < token_count m) (window_others ms p)"
  shows "sliding_window ms mx p k = window_system ms p"
proof -
  have "window_kept ms mx p k = []"
  proof (rule ccontr)
    assume ne: "window_kept ms mx p k \<noteq> []"
    then obtain m kept where kept: "window_kept ms mx p k = m # kept" by (cases "window_kept ms mx p k") auto
    have spec: "mset (m # kept) \<subseteq># mset (window_others ms p)"
      "total_tokens (m # kept) \<le> mx - total_tokens (window_system ms p)"
      using window_kept_spec(1,2) [of ms mx p k] counts_okD [OF assms(2)] kept by auto
    then have sub: "set (m # kept) \<subseteq> set (window_others ms p)"
      using set_mset_mono by fastforce
    then have "0 \<le> total_tokens kept"
      using counts_okD [OF assms(2)] by (intro total_tokens_nonneg) (auto simp: window_others_def)
    moreover have "mx - total_tokens (window_system ms p) < token_count m"
      using sub assms(3) by (simp add: list_all_iff)
    ultimately show False using spec(2) by simp
  qed
  then show ?thesis by (simp add: sliding_window_kept [OF assms(1)])
qed

theorem min_messages_not_guaranteed_witness:
  "let ms = [new_message ''user'' ''a'' 1 50 1, new_message ''user'' ''b'' 2 60 1,
             new_message ''user'' ''c'' 3 70 1]
   in length (sliding_window ms 10 True 2) < 2"
proof -
  let ?ms = "[new_message ''user'' ''a'' 1 50 1, new_message ''user'' ''b'' 2 60 1,
             new_message ''user'' ''c'' 3 70 1]"
  have "sliding_window ?ms 10 True 2 = window_system ?ms True"
    by (rule min_messages_not_guaranteed)
      (simp_all add: new_message_def counts_ok_def window_system_def window_others_def is_system_def)
  also have "\<dots> = []" by (simp add: new_message_def window_system_def is_system_def)
  finally show ?thesis unfolding Let_def by simp
qed

text \<open>
  C40: \<open>preserve_system\<close> does not survive summarisation. The field is documented as "never
  compress system messages", but when the system messages alone exceed \<open>max_tokens\<close> and there are
  more than four of them, the HYBRID pipeline returns exactly four messages.
\<close>

theorem hybrid_drops_system_messages:
  assumes "strategy self = HYBRID" "preserve_system inp" "counts_ok (in_messages inp)"
    and "max_tokens inp < total_tokens (filter is_system (in_messages inp))"
    and "4 < length (filter is_system (in_messages inp))"
  shows "length (condense_messages self inp) = 4"
proof -
  let ?d = "dedup (in_messages inp) True" and ?mx = "max_tokens inp"
  let ?w = "sliding_window ?d ?mx True (min_messages inp)"
  have sys: "window_system ?d True = filter is_system (in_messages inp)"
    by (simp add: window_system_dedup) (simp add: window_system_def)
  have okd: "counts_ok ?d"
    using assms(3) counts_ok_stage [OF dedup_stage.compression_stage_axioms] by blast
  have "counts_ok (window_others ?d True)"
    using okd by (auto simp: counts_ok_def list_all_iff window_others_def)
  then have over: "?mx < total_tokens ?d"
    using counts_ok_total total_system_others [of ?d True] assms(4) by (force simp: sys)
  have "counts_ok ?w" using okd counts_ok_stage [OF window_stage.compression_stage_axioms] by blast
  then have "0 \<le> total_tokens (window_kept ?d ?mx True (min_messages inp))"
    by (intro counts_ok_total)
      (auto simp: sliding_window_kept [OF over] counts_ok_def list_all_iff)
  then have "?mx < total_tokens ?w" "4 < length ?w"
    using assms(4,5) by (simp_all add: sliding_window_kept [OF over] sys)
  then have "length (summarize_trigger ?w ?mx) = 4" by (simp add: summarize_trigger_def)
  with \<open>?mx < total_tokens ?w\<close> show ?thesis
    using assms(1,2)
    by (simp add: condense_messages_def stage_dedup_def stage_window_def stage_summarize_def)
qed

theorem hybrid_drops_system_messages_witness:
  "let ms = map (\<lambda>i. new_message ''system'' ''rule'' i 10 1) [1, 2, 3, 4, 5]
   in length (condense_messages (new_condenser HYBRID)
       \<lparr>in_messages = ms, max_tokens = 20, in_strategy = HYBRID, preserve_system = True,
        min_messages = 2\<rparr>) < length (filter is_system ms)"
  using hybrid_drops_system_messages [of "new_condenser HYBRID"
    "\<lparr>in_messages = map (\<lambda>i. new_message ''system'' ''rule'' i 10 1) [1, 2, 3, 4, 5],
      max_tokens = 20, in_strategy = HYBRID, preserve_system = True, min_messages = 2\<rparr>"]
  by (simp add: new_condenser_def new_message_def counts_ok_def is_system_def)

text \<open>
  C33: the accounting of one call. Whatever the strategy, every returned message is one of the
  input and there are not more of them; with non-negative counts the saving is between 0 and the
  original total, it is exactly the difference of the two totals, and the reported ratio is a
  float between 0 and 1.
\<close>

theorem condense_accounting:
  assumes "counts_ok (in_messages inp)" "condense self inp t0 t1 = (out, self')"
  shows "mset (out_messages out) \<subseteq># mset (in_messages inp)
    \<and> original_tokens out = total_tokens (in_messages inp)
    \<and> compressed_tokens out = total_tokens (out_messages out)
    \<and> tokens_saved out = original_tokens out - compressed_tokens out
    \<and> 0 \<le> tokens_saved out \<and> tokens_saved out \<le> original_tokens out
    \<and> 0 \<le> compression_ratio out \<and> compression_ratio out \<le> 1
    \<and> (was_compressed out \<longleftrightarrow> compressed_tokens out < original_tokens out)"
proof -
  let ?ms = "condense_messages self inp"
  have sub: "mset ?ms \<subseteq># mset (in_messages inp)"
    unfolding condense_messages_def by (rule pipeline.shrinks)
  have le: "total_tokens ?ms \<le> total_tokens (in_messages inp)"
    unfolding condense_messages_def using counts_okD [OF assms(1)] by (rule pipeline.stage_tokens)
  have ok: "counts_ok ?ms"
    using assms(1) set_mset_mono [OF sub] by (auto simp: counts_ok_def list_all_iff)
  have nn: "0 \<le> total_tokens ?ms" by (rule counts_ok_total [OF ok])
  have "0 \<le> idiv (total_tokens ?ms) (max (total_tokens (in_messages inp)) 1)"
    using nn by (simp add: float_sign)
  moreover have "idiv (total_tokens ?ms) (max (total_tokens (in_messages inp)) 1) \<le> 1"
    using nn le by (intro idiv_le_one) auto
  ultimately show ?thesis
    using assms(2) sub le nn by (auto simp: condense_def Let_def was_compressed_def)
qed

theorem condense_accounting_witness:
  "let inp = \<lparr>in_messages = [new_message ''user'' ''hello'' 0 9 1, new_message ''user'' ''hello'' 1 9 1],
        max_tokens = 100, in_strategy = HYBRID, preserve_system = True, min_messages = 2\<rparr>;
       out = fst (condense (new_condenser DEDUP) inp 0 1)
   in tokens_saved out = original_tokens out - compressed_tokens out \<and> compression_ratio out \<le> 1"
  using condense_accounting [of
    "\<lparr>in_messages = [new_message ''user'' ''hello'' 0 9 1, new_message ''user'' ''hello'' 1 9 1],
        max_tokens = 100, in_strategy = HYBRID, preserve_system = True, min_messages = 2\<rparr>"
    "new_condenser DEDUP" 0 1, OF _ surjective_pairing]
  by (simp add: counts_ok_def new_message_def Let_def)

text \<open>The condenser object over a sequence of calls; each call brings its two clock readings.\<close>

fun condense_run ::
  "condenser \<Rightarrow> (condenser_input \<times> rat \<times> rat) list \<Rightarrow> condenser_output list \<times> condenser" where
  "condense_run self [] = ([], self)"
| "condense_run self ((inp, t0, t1) # calls) =
     (let (out, self') = condense self inp t0 t1; (outs, self'') = condense_run self' calls
      in (out # outs, self''))"

lemma condense_run_state:
  "condense_run self calls = (outs, self') \<Longrightarrow>
   length outs = length calls \<and> strategy self' = strategy self
   \<and> total_compressed self' = total_compressed self + int (length calls)
   \<and> total_saved self' = total_saved self + sum_list (map tokens_saved outs)"
proof (induction self calls arbitrary: outs self' rule: condense_run.induct)
  case (2 self inp t0 t1 calls)
  obtain out s1 where c: "condense self inp t0 t1 = (out, s1)" by fastforce
  obtain outs2 s2 where r: "condense_run s1 calls = (outs2, s2)" by fastforce
  from c have "strategy s1 = strategy self" "total_compressed s1 = total_compressed self + 1"
    "total_saved s1 = total_saved self + tokens_saved out"
    by (auto simp: condense_def Let_def)
  with "2.IH" [OF c [symmetric] refl r] "2.prems" c r show ?case by auto
qed simp

text \<open>
  The statistics after any sequence of calls of a new condenser. \<open>get_stats\<close> reports the
  number of calls, the exact sum of their savings, and the rounded quotient of the two.
\<close>

theorem condenser_stats_after_run:
  "let (outs, self) = condense_run (new_condenser s) calls; saved = sum_list (map tokens_saved outs)
   in condenser_get_stats self =
        \<lparr>stat_compressed = int (length calls), stat_saved = saved,
         stat_avg_savings = idiv saved (max (int (length calls)) 1)\<rparr>"
  using condense_run_state [of "new_condenser s" calls]
  by (auto simp: condenser_get_stats_def new_condenser_def Let_def split: prod.splits)

end
