(* ===== verification/PyValue.thy ===== *)
theory PyValue
  imports Prelude Float64
begin

text \<open>
  The dynamically typed values that cross the program's boundaries: decoded JSON documents and
  request payloads. Subscription, \<open>.get\<close>, \<open>+\<close>, \<open>*\<close> and \<open>/\<close> are the Python operations on
  such values, and \<open>int()\<close>, with the exception each of them raises on a value of the wrong shape. An
  exception is its class and the text that \<open>str(e)\<close> yields.
\<close>

section \<open>Exceptions\<close>

datatype exn_class =
    KeyError | IndexError | TypeError | ValueError | AttributeError | ZeroDivisionError
  | ImportError | NotImplementedError | FutureTimeoutError | AsyncTimeoutError
  | HTTPStatusError int \<comment> \<open>with the status code of \<open>e.response\<close>\<close>
  | HttpTimeoutException
  | HTTPError
  | OtherException

datatype pyexn = Exn (exn_class: exn_class) (exn_str: string)

type_synonym 'a res = "pyexn + 'a"

section \<open>Values\<close>

datatype json =
    JNull | JBool bool | JInt int | JFloat rat | JStr string
  | JList "json list" | JObj "(string \<times> json) list"

fun type_name :: "json \<Rightarrow> string" where
  "type_name JNull = ''NoneType''"
| "type_name (JBool b) = ''bool''"
| "type_name (JInt i) = ''int''"
| "type_name (JFloat x) = ''float''"
| "type_name (JStr s) = ''str''"
| "type_name (JList xs) = ''list''"
| "type_name (JObj d) = ''dict''"

fun truthy :: "json \<Rightarrow> bool" where
  "truthy JNull = False"
| "truthy (JBool b) = b"
| "truthy (JInt i) = (i \<noteq> 0)"
| "truthy (JFloat x) = (x \<noteq> 0)"
| "truthy (JStr s) = (s \<noteq> [])"
| "truthy (JList xs) = (xs \<noteq> [])"
| "truthy (JObj d) = (d \<noteq> [])"

section \<open>Subscription and \<open>get\<close>\<close>

definition quoted :: "string \<Rightarrow> string" where
  "quoted s = [CHR 0x27] @ s @ [CHR 0x27]"

definition key_error :: "string \<Rightarrow> pyexn" where
  "key_error k = Exn KeyError (quoted k)"

definition not_subscriptable :: "json \<Rightarrow> pyexn" where
  "not_subscriptable v = Exn TypeError (quoted (type_name v) @ '' object is not subscriptable'')"

text \<open>\<open>v[k]\<close> with a string key\<close>

fun get_key :: "json \<Rightarrow> string \<Rightarrow> json res" where
  "get_key (JObj d) k = (case map_of d k of Some x \<Rightarrow> Inr x | None \<Rightarrow> Inl (key_error k))"
| "get_key (JList xs) k = Inl (Exn TypeError ''list indices must be integers or slices, not str'')"
| "get_key (JStr s) k = Inl (Exn TypeError (''string indices must be integers, not '' @ quoted ''str''))"
| "get_key v k = Inl (not_subscriptable v)"

text \<open>\<open>v[0]\<close>: the code only subscripts with the constant 0\<close>

fun get_first :: "json \<Rightarrow> json res" where
  "get_first (JList xs) =
     (case xs of [] \<Rightarrow> Inl (Exn IndexError ''list index out of range'') | x # _ \<Rightarrow> Inr x)"
| "get_first (JStr s) =
     (case s of [] \<Rightarrow> Inl (Exn IndexError ''string index out of range'') | c # _ \<Rightarrow> Inr (JStr [c]))"
| "get_first (JObj d) = Inl (Exn KeyError ''0'')"
| "get_first v = Inl (not_subscriptable v)"

text \<open>\<open>v.get(k, default)\<close>\<close>

fun get_default :: "json \<Rightarrow> string \<Rightarrow> json \<Rightarrow> json res" where
  "get_default (JObj d) k v = Inr (dict_getd d k v)"
| "get_default w k v =
     Inl (Exn AttributeError (quoted (type_name w) @ '' object has no attribute '' @ quoted ''get''))"

text \<open>A typed \<open>Dict[str, str]\<close>, as the messages are: \<open>m[k]\<close>\<close>

type_synonym msg = "(string, string) dict"

definition msg_item :: "msg \<Rightarrow> string \<Rightarrow> string res" where
  "msg_item m k = (case map_of m k of Some x \<Rightarrow> Inr x | None \<Rightarrow> Inl (key_error k))"

definition json_of_msg :: "msg \<Rightarrow> json" where
  "json_of_msg m = JObj (map (\<lambda>(k, v). (k, JStr v)) m)"

definition json_of_msgs :: "msg list \<Rightarrow> json" where
  "json_of_msgs ms = JList (map json_of_msg ms)"

section \<open>Arithmetic\<close>

text \<open>A number is an integer (a \<open>bool\<close> counts as one) or a float.\<close>

fun as_int :: "json \<Rightarrow> int option" where
  "as_int (JBool b) = Some (if b then 1 else 0)"
| "as_int (JInt i) = Some i"
| "as_int v = None"

fun as_float :: "json \<Rightarrow> rat option" where
  "as_float (JFloat x) = Some x"
| "as_float v = map_option of_pyint (as_int v)"

definition bad_operands :: "string \<Rightarrow> json \<Rightarrow> json \<Rightarrow> pyexn" where
  "bad_operands op v w = Exn TypeError (''unsupported operand type(s) for '' @ op @ '': ''
     @ quoted (type_name v) @ '' and '' @ quoted (type_name w))"

definition num_op ::
  "string \<Rightarrow> (int \<Rightarrow> int \<Rightarrow> int) \<Rightarrow> (rat \<Rightarrow> rat \<Rightarrow> rat) \<Rightarrow> json \<Rightarrow> json \<Rightarrow> json res" where
  "num_op op fi ff v w =
     (case (as_int v, as_int w) of
        (Some i, Some j) \<Rightarrow> Inr (JInt (fi i j))
      | _ \<Rightarrow> (case (as_float v, as_float w) of
          (Some x, Some y) \<Rightarrow> Inr (JFloat (ff x y))
        | _ \<Rightarrow> Inl (bad_operands op v w)))"

text \<open>\<open>v + w\<close>: numbers add, strings and lists concatenate.\<close>

fun py_add :: "json \<Rightarrow> json \<Rightarrow> json res" where
  "py_add (JStr s) w =
     (case w of JStr t \<Rightarrow> Inr (JStr (s @ t))
      | _ \<Rightarrow> Inl (Exn TypeError (''can only concatenate str (not '' @ [CHR 0x22] @ type_name w
                @ [CHR 0x22] @ '') to str'')))"
| "py_add (JList xs) w =
     (case w of JList ys \<Rightarrow> Inr (JList (xs @ ys))
      | _ \<Rightarrow> Inl (Exn TypeError (''can only concatenate list (not '' @ [CHR 0x22] @ type_name w
                @ [CHR 0x22] @ '') to list'')))"
| "py_add v w = num_op ''+'' (+) fadd v w"

text \<open>\<open>v * w\<close>: numbers multiply, a sequence times an integer repeats.\<close>

definition bad_repeat :: "json \<Rightarrow> pyexn" where
  "bad_repeat w = Exn TypeError (''can't multiply sequence by non-int of type '' @ quoted (type_name w))"

fun repeat_seq :: "json \<Rightarrow> json \<Rightarrow> json res" where
  "repeat_seq (JStr s) w =
     (case as_int w of Some n \<Rightarrow> Inr (JStr (concat (replicate (nat n) s))) | None \<Rightarrow> Inl (bad_repeat w))"
| "repeat_seq (JList xs) w =
     (case as_int w of Some n \<Rightarrow> Inr (JList (concat (replicate (nat n) xs))) | None \<Rightarrow> Inl (bad_repeat w))"
| "repeat_seq v w = Inl (bad_operands ''*'' v w)"

definition is_seq :: "json \<Rightarrow> bool" where
  "is_seq v = (case v of JStr _ \<Rightarrow> True | JList _ \<Rightarrow> True | _ \<Rightarrow> False)"

definition py_mul :: "json \<Rightarrow> json \<Rightarrow> json res" where
  "py_mul v w =
     (if is_seq v then repeat_seq v w
      else if is_seq w then repeat_seq w v
      else num_op ''*'' (*) fmul v w)"

text \<open>\<open>v / n\<close> with a non-zero integer constant \<open>n\<close>\<close>

definition py_div_const :: "json \<Rightarrow> int \<Rightarrow> rat res" where
  "py_div_const v n =
     (case as_int v of
        Some i \<Rightarrow> Inr (idiv i n)
      | None \<Rightarrow> (case as_float v of
          Some x \<Rightarrow> Inr (fdiv x (of_pyint n))
        | None \<Rightarrow> Inl (bad_operands ''/'' v (JInt n))))"

lemma py_div_const_int [simp]: "py_div_const (JInt i) n = Inr (idiv i n)"
  by (simp add: py_div_const_def)

lemma py_add_int [simp]: "py_add (JInt i) (JInt j) = Inr (JInt (i + j))"
  by (simp add: num_op_def)

lemma py_mul_int_float: "py_mul (JInt i) (JFloat x) = Inr (JFloat (fmul (of_pyint i) x))"
  by (simp add: py_mul_def is_seq_def num_op_def)

lemma py_mul_int [simp]: "py_mul (JInt i) (JInt j) = Inr (JInt (i * j))"
  by (simp add: py_mul_def is_seq_def num_op_def)

lemma py_div_const_float: "py_div_const (JFloat x) n = Inr (fdiv x (of_pyint n))"
  by (simp add: py_div_const_def)

section \<open>\<open>int(v)\<close>\<close>

text \<open>
  \<open>repr\<close> of a string: double quotes if it has a single quote and no double quote; backslash escapes
  for the quote, the backslash and what is not printable.
\<close>

definition hex_digit :: "nat \<Rightarrow> char" where
  "hex_digit n = (if n < 10 then char_of (48 + n) else char_of (87 + n))"

definition repr_char :: "char \<Rightarrow> char \<Rightarrow> string" where
  "repr_char q c =
     (let n = of_char c :: nat in
      if c = q \<or> n = 92 then [CHR 0x5C, c]
      else if n = 9 then [CHR 0x5C, CHR ''t'']
      else if n = 10 then [CHR 0x5C, CHR ''n'']
      else if n = 13 then [CHR 0x5C, CHR ''r'']
      else if n < 32 \<or> 127 \<le> n \<and> n \<le> 160 \<or> n = 173
        then [CHR 0x5C, CHR ''x'', hex_digit (n div 16), hex_digit (n mod 16)]
      else [c])"

definition py_repr :: "string \<Rightarrow> string" where
  "py_repr s =
     (let q = (if CHR 0x27 \<in> set s \<and> CHR 0x22 \<notin> set s then CHR 0x22 else CHR 0x27)
      in [q] @ concat (map (repr_char q) s) @ [q])"

text \<open>
  The text of an integer: blanks around it, a sign, digits with single underscores between them, at
  most 4300 digits. \<open>int_digits\<close> reads the digits that must follow; \<open>again\<close> says that the last
  character was a digit, so that the text may end or go on with an underscore.
\<close>

definition is_blank :: "char \<Rightarrow> bool" where
  "is_blank c \<longleftrightarrow> (let n = of_char c :: nat in 9 \<le> n \<and> n \<le> 13 \<or> n = 32 \<or> n = 133 \<or> n = 160)"

definition is_digit :: "char \<Rightarrow> bool" where
  "is_digit c \<longleftrightarrow> (let n = of_char c :: nat in 48 \<le> n \<and> n \<le> 57)"

fun int_digits :: "bool \<Rightarrow> string \<Rightarrow> string option" where
  "int_digits again [] = (if again then Some [] else None)"
| "int_digits again (c # cs) =
     (if is_digit c then map_option (Cons c) (int_digits True cs)
      else if again \<and> c = CHR ''_'' then int_digits False cs
      else None)"

definition strip_blanks :: "string \<Rightarrow> string" where
  "strip_blanks s = rev (dropWhile is_blank (rev (dropWhile is_blank s)))"

definition split_sign :: "string \<Rightarrow> int \<times> string" where
  "split_sign s = (case s of
     [] \<Rightarrow> (1, [])
   | c # cs \<Rightarrow> if c = CHR ''-'' then (-1, cs) else if c = CHR ''+'' then (1, cs) else (1, s))"

definition bad_int_literal :: "string \<Rightarrow> pyexn" where
  "bad_int_literal s =
     Exn ValueError (''invalid literal for int() with base 10: '' @ take 200 (py_repr s))"

definition too_many_digits :: "nat \<Rightarrow> pyexn" where
  "too_many_digits n = Exn ValueError (''Exceeds the limit (4300 digits) for integer string conversion: value has ''
     @ show_nat n @ '' digits; use sys.set_int_max_str_digits() to increase the limit'')"

definition int_of_str :: "string \<Rightarrow> int res" where
  "int_of_str s =
     (let (sign, body) = split_sign (strip_blanks s) in
      case int_digits False body of
        None \<Rightarrow> Inl (bad_int_literal s)
      | Some ds \<Rightarrow> if 4300 < length ds then Inl (too_many_digits (length ds)) else Inr (sign * int (read_nat ds)))"

fun py_int :: "json \<Rightarrow> int res" where
  "py_int (JBool b) = Inr (if b then 1 else 0)"
| "py_int (JInt i) = Inr i"
| "py_int (JFloat x) = Inr (if x < 0 then \<lceil>x\<rceil> else \<lfloor>x\<rfloor>)"
| "py_int (JStr s) = int_of_str s"
| "py_int v = Inl (Exn TypeError
     (''int() argument must be a string, a bytes-like object or a real number, not '' @ quoted (type_name v)))"

lemma int_digits_show:
  "list_all is_digit ds \<Longrightarrow> int_digits again ds = (if ds = [] \<and> \<not> again then None else Some ds)"
  by (induction ds arbitrary: again) auto

lemma py_int_examples:
  "py_int (JStr '' -1_000 '') = Inr (-1000)"
  "py_int (JStr ''abc'') = Inl (Exn ValueError (''invalid literal for int() with base 10: '' @ quoted ''abc''))"
  "py_int (JStr ''1__0'') = Inl (bad_int_literal ''1__0'')"
  by code_simp+

section \<open>Decoding a path of subscripts\<close>

text \<open>
  The clients read a text out of a response with a chain such as
  \<open>data["choices"][0]["message"]["content"]\<close>. A path is the list of its subscripts and
  \<open>get_path\<close> performs them from left to right.
\<close>

datatype subscript = Key string | First

fun get_path :: "json \<Rightarrow> subscript list \<Rightarrow> json res" where
  "get_path v [] = Inr v"
| "get_path v (Key k # p) = rbind (get_key v k) (\<lambda>w. get_path w p)"
| "get_path v (First # p) = rbind (get_first v) (\<lambda>w. get_path w p)"

text \<open>A document that holds \<open>w\<close> at a path, and nothing else; reading it back finds \<open>w\<close>.\<close>

fun put_path :: "subscript list \<Rightarrow> json \<Rightarrow> json" where
  "put_path [] w = w"
| "put_path (Key k # p) w = JObj [(k, put_path p w)]"
| "put_path (First # p) w = JList [put_path p w]"

lemma get_put_path: "get_path (put_path p w) p = Inr w"
  by (induction p w rule: put_path.induct) simp_all

lemma get_path_append:
  "get_path v (p @ q) = rbind (get_path v p) (\<lambda>w. get_path w q)"
  by (induction v p rule: get_path.induct) (auto split: rbind_split)

end
