(* ===== verification/RouterCore.thy ===== *)
theory RouterCore
  imports PyValue
begin

text \<open>
  \<open>python/router_core.py\<close>: the provider registry, the five selection strategies, routing with
  failover accounting, race routing, health checks and the metrics export. The router object is
  the record \<open>router\<close>; its lock and thread pool have no state of their own that a result
  depends on. A \<open>Provider\<close> object is shared between the registry and the code that mutates it;
  it is registered under its own name, so the model updates it through that key.

  Readings of the clocks are arguments; a health check reads the clock once per provider. \<open>_execute\<close> imports \<open>model_clients\<close>, which needs a
  package that may not be installed: \<open>imp\<close> is the exception that import raises, if any. The order
  in which the racing futures complete is chosen by the thread pool: \<open>route_race\<close> takes it as a
  list of positions with the clock reading at each completion; a list shorter than the number of
  racers stands for a wait that ran into \<open>timeout_ms\<close>.
\<close>

section \<open>Data\<close>

datatype RoutingStrategy = ROUND_ROBIN | LEAST_LATENCY | COST_OPTIMIZED | PRIORITY | RACE

datatype ProviderStatus = HEALTHY | DEGRADED | UNHEALTHY | DISABLED

fun status_value :: "ProviderStatus \<Rightarrow> string" where
  "status_value HEALTHY = ''healthy''"
| "status_value DEGRADED = ''degraded''"
| "status_value UNHEALTHY = ''unhealthy''"
| "status_value DISABLED = ''disabled''"

record provider =
  p_name :: string
  base_url :: string
  p_api_key :: string
  p_model :: string
  p_priority :: int
  cost_per_1k_tokens :: rat
  p_max_tokens :: int
  status :: ProviderStatus
  avg_latency_ms :: rat
  p_requests :: int
  p_failed :: int
  last_health_check :: rat

text \<open>The dataclass constructor with the defaults the callers leave out.\<close>

definition mk_provider :: "string \<Rightarrow> string \<Rightarrow> string \<Rightarrow> int \<Rightarrow> rat \<Rightarrow> provider" where
  "mk_provider name url model prio cost =
     \<lparr>p_name = name, base_url = url, p_api_key = [], p_model = model, p_priority = prio,
      cost_per_1k_tokens = cost, p_max_tokens = 4096, status = HEALTHY, avg_latency_ms = 0,
      p_requests = 0, p_failed = 0, last_health_check = 0\<rparr>"

definition failure_rate :: "provider \<Rightarrow> rat" where
  "failure_rate p = (if p_requests p = 0 then 0 else idiv (p_failed p) (p_requests p))"

definition is_available :: "provider \<Rightarrow> bool" where
  "is_available p \<longleftrightarrow> status p \<in> {HEALTHY, DEGRADED}"

record route_request =
  intent :: string
  payload :: json
  preferred_provider :: "string option"
  max_latency_ms :: rat
  max_cost :: rat
  timeout_ms :: rat
  rq_retry_count :: int
  max_retries :: int

record route_result =
  r_provider :: string
  r_model :: json
  r_response :: json
  r_latency_ms :: rat
  r_tokens_used :: int
  r_cost :: rat
  r_success :: bool
  r_error :: string

record router_config =
  rc_strategy :: RoutingStrategy
  health_check_interval_s :: rat
  failover_threshold :: rat
  max_concurrent_requests :: int
  enable_metrics :: bool
  metrics_port :: int

definition mk_request :: "string \<Rightarrow> json \<Rightarrow> route_request" where
  "mk_request i pl = \<lparr>intent = i, payload = pl, preferred_provider = None, max_latency_ms = 5000,
     max_cost = 0, timeout_ms = 30000, rq_retry_count = 0, max_retries = 3\<rparr>"

definition mk_config :: "RoutingStrategy \<Rightarrow> router_config" where
  "mk_config strat = \<lparr>rc_strategy = strat, health_check_interval_s = 30,
     failover_threshold = fl (1 / 2), max_concurrent_requests = 100, enable_metrics = True,
     metrics_port = 9090\<rparr>"

record router =
  config :: router_config
  providers :: "(string, provider) dict"
  rr_index :: nat
  g_requests :: int
  g_failures :: int
  g_latency_ms :: rat
  g_cost :: rat
  g_tokens :: int

definition new_router :: "router_config \<Rightarrow> router" where
  "new_router cfg = \<lparr>config = cfg, providers = [], rr_index = 0, g_requests = 0, g_failures = 0,
     g_latency_ms = 0, g_cost = 0, g_tokens = 0\<rparr>"

section \<open>Registry\<close>

definition register_provider :: "provider \<Rightarrow> router \<Rightarrow> router" where
  "register_provider p self = self\<lparr>providers := dict_set (p_name p) p (providers self)\<rparr>"

definition unregister_provider :: "string \<Rightarrow> router \<Rightarrow> router" where
  "unregister_provider name self =
     (if name \<in> set (dict_keys (providers self))
      then self\<lparr>providers := AList.delete name (providers self)\<rparr> else self)"

definition update_provider :: "string \<Rightarrow> (provider \<Rightarrow> provider) \<Rightarrow> router \<Rightarrow> router" where
  "update_provider name f self =
     (case map_of (providers self) name of
        None \<Rightarrow> self
      | Some p \<Rightarrow> self\<lparr>providers := dict_set name (f p) (providers self)\<rparr>)"

section \<open>Selection\<close>

definition round_robin :: "router \<Rightarrow> provider list \<Rightarrow> provider \<times> router" where
  "round_robin self ps =
     (let idx = rr_index self mod length ps
      in (ps ! idx, self\<lparr>rr_index := rr_index self + 1\<rparr>))"

definition least_latency :: "provider list \<Rightarrow> provider" where
  "least_latency ps = min_by avg_latency_ms ps"

definition cost_optimized :: "provider list \<Rightarrow> rat \<Rightarrow> provider" where
  "cost_optimized ps mc =
     (let affordable = (if 0 < mc then filter (\<lambda>p. cost_per_1k_tokens p \<le> mc) ps else ps);
          affordable = (if affordable = [] then ps else affordable)
      in min_by cost_per_1k_tokens affordable)"

definition priority_select :: "provider list \<Rightarrow> provider" where
  "priority_select ps = min_by p_priority ps"

definition race_select :: "provider list \<Rightarrow> provider option" where
  "race_select ps = (case ps of [] \<Rightarrow> None | p # _ \<Rightarrow> Some p)"

definition available :: "router \<Rightarrow> provider list" where
  "available self = filter is_available (dict_values (providers self))"

definition preferred :: "route_request \<Rightarrow> provider list \<Rightarrow> provider option" where
  "preferred req ps =
     (case preferred_provider req of
        None \<Rightarrow> None
      | Some name \<Rightarrow> if name = [] then None else find (\<lambda>p. p_name p = name) ps)"

definition select_provider :: "router \<Rightarrow> route_request \<Rightarrow> provider option \<times> router" where
  "select_provider self req =
     (let ps = available self
      in if ps = [] then (None, self)
         else case preferred req ps of
           Some p \<Rightarrow> (Some p, self)
         | None \<Rightarrow>
             (case rc_strategy (config self) of
                ROUND_ROBIN \<Rightarrow> (let (p, self') = round_robin self ps in (Some p, self'))
              | LEAST_LATENCY \<Rightarrow> (Some (least_latency ps), self)
              | COST_OPTIMIZED \<Rightarrow> (Some (cost_optimized ps (max_cost req)), self)
              | PRIORITY \<Rightarrow> (Some (priority_select ps), self)
              | RACE \<Rightarrow> (race_select ps, self)))"

section \<open>Execution and routing\<close>

definition ok_result :: "provider \<Rightarrow> route_result" where
  "ok_result p = \<lparr>r_provider = p_name p, r_model = JStr (p_model p),
     r_response = JObj [(''status'', JStr ''ok''), (''text'', JStr (''Response from '' @ p_name p))],
     r_latency_ms = 0, r_tokens_used = 100,
     r_cost = fmul (cost_per_1k_tokens p) (fl (1 / 10)), r_success = True, r_error = ''''\<rparr>"

definition execute :: "pyexn option \<Rightarrow> provider \<Rightarrow> route_request \<Rightarrow> route_result res" where
  "execute imp p req = (case imp of Some e \<Rightarrow> Inl e | None \<Rightarrow> Inr (ok_result p))"

lemma execute_simps [simp]:
  "execute None p req = Inr (ok_result p)" "execute (Some e) p req = Inl e"
  by (simp_all add: execute_def)

lemma ok_result_simps [simp]:
  "r_provider (ok_result p) = p_name p" "r_tokens_used (ok_result p) = 100" "r_success (ok_result p)"
  by (simp_all add: ok_result_def)

definition failed_result :: "string \<Rightarrow> json \<Rightarrow> rat \<Rightarrow> string \<Rightarrow> route_result" where
  "failed_result name model elapsed err =
     \<lparr>r_provider = name, r_model = model, r_response = JObj [], r_latency_ms = elapsed,
      r_tokens_used = 0, r_cost = 0, r_success = False, r_error = err\<rparr>"

definition smooth_latency :: "rat \<Rightarrow> rat \<Rightarrow> rat" where
  "smooth_latency avg elapsed = fadd (fmul avg (fl (9 / 10))) (fmul elapsed (fl (1 / 10)))"

definition elapsed_ms :: "rat \<Rightarrow> rat \<Rightarrow> rat" where
  "elapsed_ms start now = fmul (fsub now start) 1000"

definition record_success :: "string \<Rightarrow> rat \<Rightarrow> route_result \<Rightarrow> router \<Rightarrow> router" where
  "record_success name elapsed res self =
     update_provider name
       (\<lambda>p. p\<lparr>p_requests := p_requests p + 1, avg_latency_ms := smooth_latency (avg_latency_ms p) elapsed\<rparr>)
       (self\<lparr>g_requests := g_requests self + 1,
             g_latency_ms := fadd (g_latency_ms self) elapsed,
             g_tokens := g_tokens self + r_tokens_used res,
             g_cost := fadd (g_cost self) (r_cost res)\<rparr>)"

definition record_failure :: "string \<Rightarrow> router \<Rightarrow> router" where
  "record_failure name self =
     update_provider name (\<lambda>p. p\<lparr>p_requests := p_requests p + 1, p_failed := p_failed p + 1\<rparr>)
       (self\<lparr>g_requests := g_requests self + 1, g_failures := g_failures self + 1\<rparr>)"

definition degrade_if_failing :: "string \<Rightarrow> router \<Rightarrow> router" where
  "degrade_if_failing name self =
     update_provider name
       (\<lambda>p. if failover_threshold (config self) < failure_rate p then p\<lparr>status := DEGRADED\<rparr> else p) self"

definition route ::
  "pyexn option \<Rightarrow> rat \<Rightarrow> rat \<Rightarrow> route_request \<Rightarrow> router \<Rightarrow> route_result \<times> router" where
  "route imp start now req self =
     (case select_provider self req of
        (None, self1) \<Rightarrow> (failed_result '''' (JObj []) 0 ''No available providers'', self1)
      | (Some p, self1) \<Rightarrow>
          (let elapsed = elapsed_ms start now
           in case execute imp p req of
                Inr res \<Rightarrow> (res\<lparr>r_latency_ms := elapsed\<rparr>, record_success (p_name p) elapsed res self1)
              | Inl e \<Rightarrow>
                  (failed_result (p_name p) (JStr (p_model p)) elapsed (exn_str e),
                   degrade_if_failing (p_name p) (record_failure (p_name p) self1))))"

section \<open>Race routing\<close>

definition race_racers :: "router \<Rightarrow> string list \<Rightarrow> provider list" where
  "race_racers self names =
     (if names \<noteq> []
      then filter is_available (List.map_filter (\<lambda>n. map_of (providers self) n) names)
      else available self)"

fun race_loop ::
  "pyexn option \<Rightarrow> rat \<Rightarrow> route_request \<Rightarrow> provider list \<Rightarrow> (nat \<times> rat) list \<Rightarrow> router
     \<Rightarrow> route_result option \<times> router" where
  "race_loop imp start req racers [] self = (None, self)"
| "race_loop imp start req racers ((i, now) # done) self =
     (let p = racers ! i; elapsed = elapsed_ms start now
      in case execute imp p req of
           Inr res \<Rightarrow>
             if r_success res
             then (Some (res\<lparr>r_latency_ms := elapsed\<rparr>), record_success (p_name p) elapsed res self)
             else race_loop imp start req racers done self
         | Inl e \<Rightarrow> race_loop imp start req racers done (record_failure (p_name p) self))"

definition unfinished :: "nat \<Rightarrow> nat \<Rightarrow> pyexn" where
  "unfinished pending n = Exn FutureTimeoutError
     (show_nat pending @ '' (of '' @ show_nat n @ '') futures unfinished'')"

definition route_race ::
  "pyexn option \<Rightarrow> rat \<Rightarrow> (nat \<times> rat) list \<Rightarrow> rat \<Rightarrow> route_request \<Rightarrow> string list \<Rightarrow> router
     \<Rightarrow> route_result res \<times> router" where
  "route_race imp start done finish req names self =
     (let racers = race_racers self names
      in if racers = []
         then (Inr (failed_result '''' (JStr '''') 0 ''No available providers for race''), self)
         else case race_loop imp start req racers done self of
           (Some res, self') \<Rightarrow> (Inr res, self')
         | (None, self') \<Rightarrow>
             if length done < length racers
             then (Inl (unfinished (length racers - length done) (length racers)), self')
             else (Inr (failed_result '''' (JStr '''') (elapsed_ms start finish)
                      ''All race participants failed''), self'))"

text \<open>What the thread pool can deliver: every future completes at most once.\<close>

definition valid_completions :: "provider list \<Rightarrow> (nat \<times> rat) list \<Rightarrow> bool" where
  "valid_completions racers done \<longleftrightarrow>
     distinct (map fst done) \<and> list_all (\<lambda>(i, _). i < length racers) done"

section \<open>Health checks and metrics\<close>

definition health_status :: "provider \<Rightarrow> ProviderStatus" where
  "health_status p =
     (if fl (8 / 10) < failure_rate p then UNHEALTHY
      else if fl (3 / 10) < failure_rate p then DEGRADED
      else HEALTHY)"

definition health_check :: "rat \<Rightarrow> provider \<Rightarrow> provider" where
  "health_check now p = p\<lparr>last_health_check := now, status := health_status p\<rparr>"

definition health_check_all :: "(string \<Rightarrow> rat) \<Rightarrow> router \<Rightarrow> (string, ProviderStatus) dict \<times> router" where
  "health_check_all now self =
     (let ps = map (\<lambda>(name, p). (name, health_check (now name) p)) (providers self)
      in (map (\<lambda>(name, p). (name, status p)) ps, self\<lparr>providers := ps\<rparr>))"

definition provider_metrics :: "provider \<Rightarrow> json" where
  "provider_metrics p = JObj
     [(''status'', JStr (status_value (status p))), (''failure_rate'', JFloat (failure_rate p)),
      (''avg_latency_ms'', JFloat (avg_latency_ms p)), (''total_requests'', JInt (p_requests p))]"

definition metrics_latency :: "router \<Rightarrow> rat" where
  "metrics_latency self = fdiv (g_latency_ms self) (of_pyint (max (g_requests self) 1))"

definition get_metrics :: "router \<Rightarrow> json" where
  "get_metrics self = JObj
     [(''total_requests'', JInt (g_requests self)), (''total_failures'', JInt (g_failures self)),
      (''failure_rate'', JFloat (idiv (g_failures self) (max (g_requests self) 1))),
      (''avg_latency_ms'', JFloat (metrics_latency self)),
      (''total_tokens'', JInt (g_tokens self)), (''total_cost'', JFloat (g_cost self)),
      (''providers'', JObj (map (\<lambda>(name, p). (name, provider_metrics p)) (providers self)))]"

text \<open>\<open>f"{x:.2f}"\<close>: the decimal with two places nearest to the exact value, ties to even\<close>

definition fixed2 :: "rat \<Rightarrow> string" where
  "fixed2 x = (let n = nat (rhe (\<bar>x\<bar> * 100))
     in (if x < 0 then ''-'' else '''') @ show_nat (n div 100) @ ''.''
        @ [digit_char (n mod 100 div 10), digit_char (n mod 10)])"

definition get_prometheus_metrics :: "router \<Rightarrow> string" where
  "get_prometheus_metrics self = join_lines
     [''# HELP lingnet_router_requests_total Total routing requests'',
      ''# TYPE lingnet_router_requests_total counter'',
      ''lingnet_router_requests_total '' @ show_int (g_requests self),
      '''',
      ''# HELP lingnet_router_failures_total Total routing failures'',
      ''# TYPE lingnet_router_failures_total counter'',
      ''lingnet_router_failures_total '' @ show_int (g_failures self),
      '''',
      ''# HELP lingnet_router_latency_ms Average routing latency'',
      ''# TYPE lingnet_router_latency_ms gauge'',
      ''lingnet_router_latency_ms '' @ fixed2 (metrics_latency self),
      '''',
      ''# HELP lingnet_router_tokens_total Total tokens used'',
      ''# TYPE lingnet_router_tokens_total counter'',
      ''lingnet_router_tokens_total '' @ show_int (g_tokens self)]"

section \<open>The registry interface\<close>

text \<open>
  What a client of the registry relies on: lookups after a registration and after a removal, and
  the order in which providers are listed. The client lemmas are about registering a list.
\<close>

locale registry =
  fixes register :: "provider \<Rightarrow> 'r \<Rightarrow> 'r"
    and unregister :: "string \<Rightarrow> 'r \<Rightarrow> 'r"
    and lookup :: "'r \<Rightarrow> string \<Rightarrow> provider option"
    and names :: "'r \<Rightarrow> string list"
  assumes lookup_register: "lookup (register p r) n = (if n = p_name p then Some p else lookup r n)"
    and lookup_unregister: "lookup (unregister m r) n = (if n = m then None else lookup r n)"
    and names_register:
      "names (register p r) = (if p_name p \<in> set (names r) then names r else names r @ [p_name p])"
begin

lemma lookup_register_all:
  "lookup (fold register ps r) n =
     (case find (\<lambda>p. p_name p = n) (rev ps) of Some p \<Rightarrow> Some p | None \<Rightarrow> lookup r n)"
proof (induction ps arbitrary: r)
  case (Cons p ps)
  have "find Q (xs @ [x]) = (case find Q xs of Some y \<Rightarrow> Some y | None \<Rightarrow> if Q x then Some x else None)"
    for Q :: "provider \<Rightarrow> bool" and xs x by (induction xs) auto
  then show ?case by (simp add: Cons.IH lookup_register split: option.splits)
qed simp

lemma names_register_all:
  "distinct (map p_name ps) \<Longrightarrow> set (map p_name ps) \<inter> set (names r) = {} \<Longrightarrow>
   names (fold register ps r) = names r @ map p_name ps"
  by (induction ps arbitrary: r) (auto simp: names_register)

lemma reregister_restores: "lookup (register p (unregister (p_name p) r)) = lookup (register p r)"
  by (simp add: fun_eq_iff lookup_register lookup_unregister)

end

interpretation router_registry: registry register_provider unregister_provider
  "\<lambda>self. map_of (providers self)" "\<lambda>self. dict_keys (providers self)"
proof
  fix m n r
  show "map_of (providers (unregister_provider m r)) n =
      (if n = m then None else map_of (providers r) n)"
    by (auto simp: unregister_provider_def dict_simps map_of_eq_None_iff [THEN iffD2])
qed (simp_all add: register_provider_def dict_simps)

section \<open>The order of the health states\<close>

text \<open>From the best state to the worst; a disabled provider is worst of all.\<close>

fun severity :: "ProviderStatus \<Rightarrow> nat" where
  "severity HEALTHY = 0"
| "severity DEGRADED = 1"
| "severity UNHEALTHY = 2"
| "severity DISABLED = 3"

lemma severity_inject: "severity s = severity t \<longleftrightarrow> s = t"
  by (cases s; cases t) simp_all

instantiation ProviderStatus :: linorder
begin

definition less_eq_ProviderStatus :: "ProviderStatus \<Rightarrow> ProviderStatus \<Rightarrow> bool" where
  "less_eq_ProviderStatus s t \<longleftrightarrow> severity s \<le> severity t"

definition less_ProviderStatus :: "ProviderStatus \<Rightarrow> ProviderStatus \<Rightarrow> bool" where
  "less_ProviderStatus s t \<longleftrightarrow> severity s < severity t"

instance
  by intro_classes (auto simp: less_eq_ProviderStatus_def less_ProviderStatus_def severity_inject)

end

lemma available_iff_at_most_degraded: "is_available p \<longleftrightarrow> status p \<le> DEGRADED"
  by (cases "status p") (simp_all add: is_available_def less_eq_ProviderStatus_def)

text \<open>A provider that fails more often is never in a better state.\<close>

lemma health_status_mono: "failure_rate p \<le> failure_rate q \<Longrightarrow> health_status p \<le> health_status q"
  by (auto simp: health_status_def less_eq_ProviderStatus_def)

section \<open>The selection interface\<close>

text \<open>
  A strategy picks one of the candidates it is given. That is all \<open>_select_provider\<close> needs to
  return an available, registered provider.
\<close>

locale selector =
  fixes sel :: "provider list \<Rightarrow> provider"
  assumes sel_in: "ps \<noteq> [] \<Longrightarrow> sel ps \<in> set ps"
begin

lemma sel_available:
  "available self \<noteq> [] \<Longrightarrow>
   is_available (sel (available self)) \<and> sel (available self) \<in> set (dict_values (providers self))"
  using sel_in [of "available self"] by (auto simp: available_def)

end

interpretation sel_least: selector least_latency
  by unfold_locales (simp add: least_latency_def min_by_in)

interpretation sel_priority: selector priority_select
  by unfold_locales (simp add: priority_select_def min_by_in)

interpretation sel_cost: selector "\<lambda>ps. cost_optimized ps mc"
proof
  fix ps :: "provider list"
  assume ne: "ps \<noteq> []"
  let ?as = "if 0 < mc then filter (\<lambda>p. cost_per_1k_tokens p \<le> mc) ps else ps"
  have "(if ?as = [] then ps else ?as) \<noteq> []" using ne by simp
  then have "min_by cost_per_1k_tokens (if ?as = [] then ps else ?as) \<in> set (if ?as = [] then ps else ?as)"
    by (rule min_by_in)
  then show "cost_optimized ps mc \<in> set ps" by (auto simp: cost_optimized_def Let_def split: if_splits)
qed

interpretation sel_rr: selector "\<lambda>ps. fst (round_robin self ps)"
  by unfold_locales (simp add: round_robin_def Let_def)

interpretation sel_race: selector "\<lambda>ps. the (race_select ps)"
  by unfold_locales (auto simp: race_select_def split: list.splits)

lemma race_select_Some: "ps \<noteq> [] \<Longrightarrow> \<exists>p. race_select ps = Some p \<and> p \<in> set ps"
  by (cases ps) (simp_all add: race_select_def)

lemma round_robin_providers [simp]:
  "providers (snd (round_robin self ps)) = providers self"
  "config (snd (round_robin self ps)) = config self"
  by (simp_all add: round_robin_def Let_def)

lemma preferred_in: "preferred req ps = Some p \<Longrightarrow> p \<in> set ps"
  by (auto simp: preferred_def find_Some_iff in_set_conv_nth split: option.splits if_splits)

lemma rr_index_same [simp]: "\<exists>k. (self :: router) = self\<lparr>rr_index := k\<rparr>"
  by (rule exI [of _ "rr_index self"]) simp

lemma select_provider_cases:
  assumes "select_provider self req = (r, self')"
  shows "providers self' = providers self \<and> config self' = config self
     \<and> (\<exists>k. self' = self\<lparr>rr_index := k\<rparr>)
     \<and> (case r of None \<Rightarrow> available self = [] | Some p \<Rightarrow> p \<in> set (available self))"
proof (cases "available self = []")
  case True
  with assms show ?thesis by (auto simp: select_provider_def)
next
  case False
  note rs = sel_least.sel_in [OF False] sel_priority.sel_in [OF False]
    sel_cost.sel_in [OF False] sel_rr.sel_in [OF False]
  show ?thesis
  proof (cases "preferred req (available self)")
    case None
    with False assms rs race_select_Some [OF False] show ?thesis
      by (cases "rc_strategy (config self)")
        (auto simp: select_provider_def Let_def round_robin_def split: prod.splits)
  next
    case (Some p)
    with False have "select_provider self req = (Some p, self)" by (simp add: select_provider_def)
    with assms have "r = Some p" "self' = self" by simp_all
    with preferred_in [OF Some] show ?thesis by simp
  qed
qed

section \<open>The invariant of the router\<close>

text \<open>
  Counters are consistent at every level: a provider fails at most as often as it is asked; the
  router's totals bound the sums over its providers; every successful request accounts for 100
  tokens. Providers are stored under their own names, once each.
\<close>

definition provider_ok :: "provider \<Rightarrow> bool" where
  "provider_ok p \<longleftrightarrow> 0 \<le> p_failed p \<and> p_failed p \<le> p_requests p"

definition registry_ok :: "(string, provider) dict \<Rightarrow> bool" where
  "registry_ok d \<longleftrightarrow> distinct (dict_keys d) \<and> list_all (\<lambda>(k, p). k = p_name p \<and> provider_ok p) d"

definition sum_requests :: "router \<Rightarrow> int" where
  "sum_requests self = sum_list (map p_requests (dict_values (providers self)))"

definition sum_failed :: "router \<Rightarrow> int" where
  "sum_failed self = sum_list (map p_failed (dict_values (providers self)))"

definition router_ok :: "router \<Rightarrow> bool" where
  "router_ok self \<longleftrightarrow> registry_ok (providers self)
     \<and> sum_requests self \<le> g_requests self \<and> sum_failed self \<le> g_failures self
     \<and> g_failures self \<le> g_requests self
     \<and> g_tokens self = 100 * (g_requests self - g_failures self)"

lemma registry_okD:
  assumes "registry_ok d"
  shows "map_of d k = Some p \<Longrightarrow> k = p_name p \<and> provider_ok p"
    and "p \<in> set (dict_values d) \<Longrightarrow> map_of d (p_name p) = Some p \<and> provider_ok p"
  using assms by (auto simp: registry_ok_def list_all_iff dest!: map_of_SomeD)

lemma registry_ok_set:
  assumes "registry_ok d" "provider_ok p"
  shows "registry_ok (dict_set (p_name p) p d)"
proof -
  have "set (dict_set (p_name p) p d) \<subseteq> insert (p_name p, p) (set d)"
    by (induction d) auto
  then show ?thesis
    using assms by (auto simp: registry_ok_def list_all_iff distinct_update)
qed

lemma available_registered:
  assumes "registry_ok (providers self)" "p \<in> set (available self)"
  shows "map_of (providers self) (p_name p) = Some p" "provider_ok p" "is_available p"
  using registry_okD(2) [OF assms(1)] assms(2) by (auto simp: available_def)

definition keeps_provider :: "(provider \<Rightarrow> provider) \<Rightarrow> bool" where
  "keeps_provider f \<longleftrightarrow> (\<forall>p. p_name (f p) = p_name p \<and> (provider_ok p \<longrightarrow> provider_ok (f p)))"

lemma update_provider_registry:
  assumes "registry_ok (providers self)" "keeps_provider f"
  shows "registry_ok (providers (update_provider n f self))"
proof (cases "map_of (providers self) n")
  case (Some p)
  with registry_okD(1) [OF assms(1) Some] assms(2)
  have "n = p_name (f p)" "provider_ok (f p)" by (auto simp: keeps_provider_def)
  with registry_ok_set [OF assms(1), of "f p"] Some show ?thesis by (simp add: update_provider_def)
qed (simp add: update_provider_def assms)

lemma update_provider_frame [simp]:
  "config (update_provider n f self) = config self"
  "rr_index (update_provider n f self) = rr_index self"
  "g_requests (update_provider n f self) = g_requests self"
  "g_failures (update_provider n f self) = g_failures self"
  "g_tokens (update_provider n f self) = g_tokens self"
  "g_cost (update_provider n f self) = g_cost self"
  "g_latency_ms (update_provider n f self) = g_latency_ms self"
  by (simp_all add: update_provider_def split: option.split)

lemma update_provider_lookup:
  "map_of (providers (update_provider n f self)) k =
     (if k = n then map_option f (map_of (providers self) n) else map_of (providers self) k)"
  by (auto simp: update_provider_def dict_simps split: option.split)

lemma update_provider_keys [simp]:
  "dict_keys (providers (update_provider n f self)) = dict_keys (providers self)"
proof -
  have "n \<in> set (dict_keys (providers self))" if "map_of (providers self) n = Some p" for p
    using that by (force dest: map_of_SomeD)
  then show ?thesis by (auto simp: update_provider_def dict_simps split: option.split)
qed

lemma update_provider_sums:
  assumes "map_of (providers self) n = Some p"
  shows "sum_requests (update_provider n f self) = sum_requests self + p_requests (f p) - p_requests p"
    and "sum_failed (update_provider n f self) = sum_failed self + p_failed (f p) - p_failed p"
  using sum_dict_set [OF assms, of p_requests "f p"] sum_dict_set [OF assms, of p_failed "f p"] assms
  by (simp_all add: update_provider_def sum_requests_def sum_failed_def)

lemma sums_cong:
  "providers self' = providers self \<Longrightarrow> sum_requests self' = sum_requests self"
  "providers self' = providers self \<Longrightarrow> sum_failed self' = sum_failed self"
  by (simp_all add: sum_requests_def sum_failed_def)

lemma record_success_ok:
  assumes "router_ok self" "map_of (providers self) n = Some p" "r_tokens_used res = 100"
  shows "router_ok (record_success n elapsed res self)"
proof -
  let ?f = "\<lambda>p. p\<lparr>p_requests := p_requests p + 1,
                 avg_latency_ms := smooth_latency (avg_latency_ms p) elapsed\<rparr>"
  let ?s = "self\<lparr>g_requests := g_requests self + 1, g_latency_ms := fadd (g_latency_ms self) elapsed,
             g_tokens := g_tokens self + r_tokens_used res, g_cost := fadd (g_cost self) (r_cost res)\<rparr>"
  have "keeps_provider ?f" by (simp add: keeps_provider_def provider_ok_def)
  with assms(1) have "registry_ok (providers (update_provider n ?f ?s))"
    by (intro update_provider_registry) (simp_all add: router_ok_def)
  moreover have "map_of (providers ?s) n = Some p" using assms(2) by simp
  note update_provider_sums [OF this, of ?f]
  ultimately show ?thesis
    using assms(1,3) sums_cong [of ?s self] unfolding record_success_def router_ok_def by auto
qed

lemma record_failure_ok:
  assumes "router_ok self" "map_of (providers self) n = Some p"
  shows "router_ok (record_failure n self)"
proof -
  let ?f = "\<lambda>p. p\<lparr>p_requests := p_requests p + 1, p_failed := p_failed p + 1\<rparr>"
  let ?s = "self\<lparr>g_requests := g_requests self + 1, g_failures := g_failures self + 1\<rparr>"
  have "keeps_provider ?f" by (simp add: keeps_provider_def provider_ok_def)
  with assms(1) have "registry_ok (providers (update_provider n ?f ?s))"
    by (intro update_provider_registry) (simp_all add: router_ok_def)
  moreover have "map_of (providers ?s) n = Some p" using assms(2) by simp
  note update_provider_sums [OF this, of ?f]
  ultimately show ?thesis
    using assms(1) sums_cong [of ?s self] unfolding record_failure_def router_ok_def by auto
qed

lemma degrade_ok:
  assumes "router_ok self"
  shows "router_ok (degrade_if_failing n self)"
proof (cases "map_of (providers self) n")
  case (Some p)
  let ?f = "\<lambda>p. if failover_threshold (config self) < failure_rate p then p\<lparr>status := DEGRADED\<rparr> else p"
  have "keeps_provider ?f" by (simp add: keeps_provider_def provider_ok_def)
  with assms have "registry_ok (providers (update_provider n ?f self))"
    by (intro update_provider_registry) (simp_all add: router_ok_def)
  with assms update_provider_sums [OF Some, of ?f] show ?thesis
    by (auto simp: degrade_if_failing_def router_ok_def)
next
  case None
  with assms show ?thesis by (simp add: degrade_if_failing_def update_provider_def)
qed

lemma record_lookup_exists:
  "(\<exists>p. map_of (providers (record_failure n self)) k = Some p) \<longleftrightarrow>
   (\<exists>p. map_of (providers self) k = Some p)"
  by (auto simp: record_failure_def update_provider_lookup)

section \<open>Operations and runs\<close>

text \<open>
  The calls a client makes, with what the environment contributes to each. A provider enters the
  registry with the counters of a newly constructed \<open>Provider\<close>.
\<close>

datatype router_op =
    Register provider
  | Unregister string
  | Route "pyexn option" rat rat route_request
  | Race "pyexn option" rat "(nat \<times> rat) list" rat route_request "string list"
  | Health "string \<Rightarrow> rat"

definition new_provider :: "provider \<Rightarrow> bool" where
  "new_provider p \<longleftrightarrow> p_requests p = 0 \<and> p_failed p = 0"

fun op_valid :: "router \<Rightarrow> router_op \<Rightarrow> bool" where
  "op_valid self (Register p) = new_provider p"
| "op_valid self (Race imp start done finish req names) =
     valid_completions (race_racers self names) done"
| "op_valid self _ = True"

fun apply_op :: "router_op \<Rightarrow> router \<Rightarrow> router" where
  "apply_op (Register p) self = register_provider p self"
| "apply_op (Unregister n) self = unregister_provider n self"
| "apply_op (Route imp start now req) self = snd (route imp start now req self)"
| "apply_op (Race imp start done finish req names) self =
     snd (route_race imp start done finish req names self)"
| "apply_op (Health now) self = snd (health_check_all now self)"

inductive router_reach :: "router \<Rightarrow> router \<Rightarrow> bool" where
  reach_refl: "router_reach s s"
| reach_step: "router_reach s t \<Longrightarrow> op_valid t op \<Longrightarrow> router_reach s (apply_op op t)"

lemma sum_list_delete_le:
  fixes f :: "'v \<Rightarrow> int"
  assumes "\<And>v. v \<in> set (dict_values d) \<Longrightarrow> 0 \<le> f v"
  shows "sum_list (map f (dict_values (AList.delete k d))) \<le> sum_list (map f (dict_values d))"
proof -
  have "subseq (dict_values (AList.delete k d)) (dict_values d)"
    unfolding AList.delete_eq by (rule subseq_map) (rule subseq_filter_lemma)
  then show ?thesis using assms by (rule subseq_sum_list_le)
qed

lemma registry_ok_delete: "registry_ok d \<Longrightarrow> registry_ok (AList.delete k d)"
  by (auto simp: registry_ok_def list_all_iff AList.delete_eq distinct_map_filter)

lemma registry_nonneg:
  "registry_ok d \<Longrightarrow> p \<in> set (dict_values d) \<Longrightarrow> 0 \<le> p_requests p \<and> 0 \<le> p_failed p"
  using registry_okD(2) [of d p] by (auto simp: provider_ok_def)

lemma unregister_ok:
  assumes "router_ok self"
  shows "router_ok (unregister_provider n self)"
proof -
  have ok: "registry_ok (providers self)" using assms by (simp add: router_ok_def)
  have "sum_list (map p_requests (dict_values (AList.delete n (providers self)))) \<le> sum_requests self"
    "sum_list (map p_failed (dict_values (AList.delete n (providers self)))) \<le> sum_failed self"
    unfolding sum_requests_def sum_failed_def
    by (rule sum_list_delete_le, use registry_nonneg [OF ok] in blast)+
  with assms registry_ok_delete [OF ok] show ?thesis
    by (auto simp: unregister_provider_def router_ok_def sum_requests_def sum_failed_def)
qed

lemma register_ok:
  assumes "router_ok self" "new_provider p"
  shows "router_ok (register_provider p self)"
proof -
  have ok: "registry_ok (providers self)" using assms(1) by (simp add: router_ok_def)
  have new: "p_requests p = 0" "p_failed p = 0" using assms(2) by (simp_all add: new_provider_def)
  have reg: "registry_ok (dict_set (p_name p) p (providers self))"
    by (rule registry_ok_set [OF ok]) (simp add: provider_ok_def new)
  have "sum_list (map f (dict_values (dict_set (p_name p) p (providers self))))
      \<le> sum_list (map f (dict_values (providers self)))"
    if f: "f p = 0" "\<And>q. q \<in> set (dict_values (providers self)) \<Longrightarrow> 0 \<le> f q"
    for f :: "provider \<Rightarrow> int"
  proof (cases "map_of (providers self) (p_name p)")
    case None
    then have "dict_set (p_name p) p (providers self) = providers self @ [(p_name p, p)]"
      by (intro dict_set_fresh) (simp add: map_of_eq_None_iff)
    with f(1) show ?thesis by simp
  next
    case (Some q)
    with sum_dict_set [OF Some, of f p] f(1) f(2) [OF dict_value_in [OF Some]] show ?thesis by simp
  qed
  from this [of p_requests] this [of p_failed] registry_nonneg [OF ok] new reg assms(1)
  show ?thesis by (force simp: register_provider_def router_ok_def sum_requests_def sum_failed_def)
qed

lemma router_ok_frame:
  "providers t = providers s \<Longrightarrow> g_requests t = g_requests s \<Longrightarrow> g_failures t = g_failures s \<Longrightarrow>
   g_tokens t = g_tokens s \<Longrightarrow> router_ok t = router_ok s"
  by (simp add: router_ok_def sum_requests_def sum_failed_def)

lemma select_ok:
  assumes "select_provider self req = (r, self')" "router_ok self"
  shows "router_ok self'" and "r = Some p \<Longrightarrow> map_of (providers self') (p_name p) = Some p"
proof -
  note c = select_provider_cases [OF assms(1)]
  then obtain k where k: "self' = self\<lparr>rr_index := k\<rparr>" by blast
  show "router_ok self'" using assms(2) router_ok_frame [of self' self] by (simp add: k)
  show "map_of (providers self') (p_name p) = Some p" if "r = Some p"
    using c that available_registered(1) [of self p] assms(2) by (simp add: router_ok_def)
qed

lemma route_ok:
  assumes "router_ok self"
  shows "router_ok (snd (route imp start now req self))"
proof -
  obtain r s1 where sel: "select_provider self req = (r, s1)" by fastforce
  note ok = select_ok [OF sel assms]
  show ?thesis
  proof (cases r)
    case None
    with ok sel show ?thesis by (simp add: route_def)
  next
    case (Some p)
    note lookup = ok(2) [OF Some]
    show ?thesis
    proof (cases imp)
      case None
      with Some sel record_success_ok [OF ok(1) lookup] show ?thesis
        by (simp add: route_def Let_def)
    next
      case (Some e)
      with \<open>r = Some p\<close> sel degrade_ok [OF record_failure_ok [OF ok(1) lookup]] show ?thesis
        by (simp add: route_def Let_def)
    qed
  qed
qed

lemma race_racers_registered:
  assumes "registry_ok (providers self)" "p \<in> set (race_racers self names)"
  shows "map_of (providers self) (p_name p) = Some p \<and> is_available p"
proof (cases "names = []")
  case True
  with assms available_registered show ?thesis by (simp add: race_racers_def)
next
  case False
  with assms(2) obtain n where "map_of (providers self) n = Some p" "is_available p"
    by (auto simp: race_racers_def List.map_filter_def)
  with registry_okD(1) [OF assms(1)] show ?thesis by auto
qed

lemma race_loop_ok:
  assumes "router_ok self" "list_all (\<lambda>(i, _). i < length racers) done"
    and "\<And>p. p \<in> set racers \<Longrightarrow> \<exists>q. map_of (providers self) (p_name p) = Some q"
  shows "router_ok (snd (race_loop imp start req racers done self))"
  using assms
proof (induction imp start req racers "done" self rule: race_loop.induct)
  case (2 imp start req racers i now "done" self)
  from "2.prems"(2) have "racers ! i \<in> set racers" by simp
  with "2.prems"(3) obtain q where q: "map_of (providers self) (p_name (racers ! i)) = Some q" by blast
  show ?case
  proof (cases imp)
    case None
    with record_success_ok [OF "2.prems"(1) q] show ?thesis by (simp add: Let_def)
  next
    case (Some e)
    with "2.IH"(1) [of "racers ! i" "elapsed_ms start now" e] "2.prems"
      record_failure_ok [OF "2.prems"(1) q]
    show ?thesis by (simp add: Let_def record_lookup_exists)
  qed
qed simp

lemma snd_route_race:
  "snd (route_race imp start done finish req names self) =
     (if race_racers self names = [] then self
      else snd (race_loop imp start req (race_racers self names) done self))"
  by (simp add: route_race_def Let_def split: prod.split option.split)

lemma route_race_ok:
  assumes "router_ok self" "valid_completions (race_racers self names) done"
  shows "router_ok (snd (route_race imp start done finish req names self))"
proof -
  have "router_ok (snd (race_loop imp start req (race_racers self names) done self))"
    using assms race_racers_registered [of self _ names]
    by (intro race_loop_ok) (auto simp: router_ok_def valid_completions_def)
  with assms(1) show ?thesis by (simp add: snd_route_race)
qed

lemma health_check_simps [simp]:
  "p_name (health_check now p) = p_name p" "p_requests (health_check now p) = p_requests p"
  "p_failed (health_check now p) = p_failed p" "status (health_check now p) = health_status p"
  "failure_rate (health_check now p) = failure_rate p"
  by (simp_all add: health_check_def failure_rate_def)

lemma providers_health_check:
  "providers (snd (health_check_all now self)) =
     map (\<lambda>(name, p). (name, health_check (now name) p)) (providers self)"
  by (simp add: health_check_all_def Let_def)

lemma map_of_health_check:
  "map_of (providers (snd (health_check_all now self))) n =
     map_option (health_check (now n)) (map_of (providers self) n)"
  unfolding providers_health_check by (rule map_of_map_keyed)

lemma health_ok:
  assumes "router_ok self"
  shows "router_ok (snd (health_check_all now self))"
proof -
  let ?d = "map (\<lambda>(name, p). (name, health_check (now name) p)) (providers self)"
  have keys: "dict_keys ?d = dict_keys (providers self)" by (rule dict_keys_map_keyed)
  have sums: "map p_requests (dict_values ?d) = map p_requests (dict_values (providers self))"
    "map p_failed (dict_values ?d) = map p_failed (dict_values (providers self))"
    by (auto simp: split_beta)
  have "registry_ok ?d"
    unfolding registry_ok_def keys using assms
    by (auto simp: router_ok_def registry_ok_def list_all_iff provider_ok_def)
  moreover have "sum_requests (snd (health_check_all now self)) = sum_requests self"
    "sum_failed (snd (health_check_all now self)) = sum_failed self"
    unfolding sum_requests_def sum_failed_def providers_health_check sums by (rule refl)+
  ultimately show ?thesis
    using assms by (simp add: router_ok_def providers_health_check)
      (simp add: health_check_all_def Let_def)
qed

lemma apply_op_ok:
  assumes "router_ok self" "op_valid self op"
  shows "router_ok (apply_op op self)"
  using assms by (cases op) (simp_all add: register_ok unregister_ok route_ok route_race_ok health_ok)

lemma new_router_ok: "router_ok (new_router cfg)"
  by (simp add: router_ok_def new_router_def registry_ok_def sum_requests_def sum_failed_def)

text \<open>
  C12: the accounting invariant. In every state a new router can reach by registering new
  providers, unregistering, routing, racing and health checks, in any order and whatever the
  environment does, providers are stored once under their own names, no provider has more
  failures than requests, the router's request and failure totals bound the sums over its
  providers, and the token counter is 100 per successful request.
\<close>

theorem router_reach_ok:
  assumes "router_reach (new_router cfg) self"
  shows "router_ok self"
  using assms
proof (induction "new_router cfg" self rule: router_reach.induct)
  case reach_refl
  show ?case by (rule new_router_ok)
next
  case (reach_step t op)
  then show ?case using apply_op_ok by blast
qed

theorem router_reach_ok_witness:
  "router_ok (apply_op (Route None 0 1 (mk_request ''chat'' JNull))
     (apply_op (Register (mk_provider ''openai'' [] ''gpt-4o'' 3 (fl (5 / 1000))))
        (new_router (mk_config LEAST_LATENCY))))"
  by (rule router_reach_ok, rule reach_step, rule reach_step, rule reach_refl)
    (simp_all add: new_provider_def mk_provider_def)

section \<open>Properties of selection\<close>

text \<open>
  C35: selection is sound and complete. Under every strategy the selected provider is registered
  and available, nothing is selected only when no provider is available, and selecting changes
  nothing but the round-robin index.
\<close>

theorem select_provider_sound:
  "let (r, self') = select_provider self req
   in (r = None \<longleftrightarrow> available self = [])
      \<and> set_option r \<subseteq> {p \<in> set (dict_values (providers self)). is_available p}
      \<and> (\<exists>k. self' = self\<lparr>rr_index := k\<rparr>)"
proof -
  obtain r s1 where sel: "select_provider self req = (r, s1)" by fastforce
  from select_provider_cases [OF sel] have "r = None \<longleftrightarrow> available self = []"
    by (auto split: option.splits)
  with select_provider_cases [OF sel] sel show ?thesis
    by (auto simp: available_def split: option.splits)
qed

text \<open>
  A preferred provider overrides the strategy. When the named provider is registered and
  available, it is the one selected and the round-robin index does not move.
\<close>

theorem preferred_provider_wins:
  assumes "registry_ok (providers self)" "preferred_provider req = Some name" "name \<noteq> []"
    and "map_of (providers self) name = Some p" "is_available p"
  shows "select_provider self req = (Some p, self)"
proof -
  have p: "p_name p = name" using registry_okD(1) [OF assms(1,4)] by simp
  have in_av: "p \<in> set (available self)"
    using dict_value_in [OF assms(4)] assms(5) by (simp add: available_def)
  then obtain q where q: "find (\<lambda>p. p_name p = name) (available self) = Some q"
    using p by (cases "find (\<lambda>p. p_name p = name) (available self)") (auto simp: find_None_iff)
  then have "q \<in> set (available self)" "p_name q = name"
    by (auto simp: find_Some_iff in_set_conv_nth)
  with available_registered(1) [OF assms(1)] assms(4) have "q = p" by fastforce
  moreover have "available self \<noteq> []" using in_av by auto
  ultimately show ?thesis
    using q assms(2,3) by (simp add: select_provider_def preferred_def Let_def)
qed

theorem preferred_provider_wins_witness:
  "let a = mk_provider ''a'' [] ''m'' 1 1; b = mk_provider ''b'' [] ''m'' 2 2;
       self = register_provider b (register_provider a (new_router (mk_config PRIORITY)))
   in select_provider self ((mk_request ''x'' JNull)\<lparr>preferred_provider := Some ''b''\<rparr>) = (Some b, self)"
  unfolding Let_def
  by (rule preferred_provider_wins [where name = "''b''"])
    (simp_all add: register_provider_def new_router_def mk_provider_def mk_request_def
      registry_ok_def provider_ok_def is_available_def)

text \<open>
  \<open>max_cost\<close> has no effect. Filtering by the limit and then taking the cheapest, with all
  candidates as the fallback, returns the same provider as taking the cheapest of all: a request
  whose limit no provider meets is still routed.
\<close>

theorem cost_limit_has_no_effect: "cost_optimized ps mc = cost_optimized ps 0"
proof (cases "0 < mc \<and> filter (\<lambda>p. cost_per_1k_tokens p \<le> mc) ps \<noteq> []")
  case True
  then obtain q where q: "q \<in> set ps" "cost_per_1k_tokens q \<le> mc" by (auto simp: filter_empty_conv)
  then have ne: "ps \<noteq> []" by auto
  have "cost_per_1k_tokens (min_by cost_per_1k_tokens ps) \<le> mc"
    using min_by_le [OF q(1), of cost_per_1k_tokens] q(2) by simp
  with True min_by_filter [OF ne, of "\<lambda>p. cost_per_1k_tokens p \<le> mc" cost_per_1k_tokens]
  show ?thesis by (simp add: cost_optimized_def Let_def)
next
  case False
  then show ?thesis by (auto simp: cost_optimized_def Let_def)
qed

text \<open>What the three strategies that take a minimum compare.\<close>

fun selection_key :: "RoutingStrategy \<Rightarrow> provider \<Rightarrow> rat" where
  "selection_key LEAST_LATENCY p = avg_latency_ms p"
| "selection_key COST_OPTIMIZED p = cost_per_1k_tokens p"
| "selection_key PRIORITY p = of_int (p_priority p)"
| "selection_key strat p = 0"

lemma minimum_strategy:
  assumes "available self \<noteq> []" "preferred req (available self) = None"
    and "rc_strategy (config self) \<in> {LEAST_LATENCY, COST_OPTIMIZED, PRIORITY}"
  shows "select_provider self req =
     (Some (min_by (selection_key (rc_strategy (config self))) (available self)), self)"
proof -
  let ?ps = "available self"
  have "min_by p_priority ?ps = min_by (selection_key PRIORITY) ?ps"
    "min_by avg_latency_ms ?ps = min_by (selection_key LEAST_LATENCY) ?ps"
    "min_by cost_per_1k_tokens ?ps = min_by (selection_key COST_OPTIMIZED) ?ps"
    by (rule min_by_cong_order, simp, rule assms(1))+
  moreover have "cost_optimized ?ps (max_cost req) = min_by cost_per_1k_tokens ?ps"
    using cost_limit_has_no_effect [of ?ps "max_cost req"] by (simp add: cost_optimized_def)
  ultimately show ?thesis
    using assms by (auto simp: select_provider_def least_latency_def priority_select_def)
qed

text \<open>
  C34: what the least-latency, cost and priority strategies return: an available provider with the
  least average latency, cost or priority number, and of several such the first one registered. For
  the cost strategy this holds whatever cost limit the request sets.
\<close>

theorem strategies_pick_first_minimum:
  assumes "available self \<noteq> []" "preferred req (available self) = None"
    and "rc_strategy (config self) = strat" "strat \<in> {LEAST_LATENCY, COST_OPTIMIZED, PRIORITY}"
  shows "\<exists>p before after. select_provider self req = (Some p, self)
     \<and> available self = before @ p # after
     \<and> list_all (\<lambda>q. selection_key strat p < selection_key strat q) before
     \<and> list_all (\<lambda>q. selection_key strat p \<le> selection_key strat q) (available self)"
proof -
  let ?p = "min_by (selection_key strat) (available self)"
  from min_by_first [OF assms(1)] obtain before after where
    "available self = before @ ?p # after" "\<forall>q \<in> set before. selection_key strat ?p < selection_key strat q"
    by blast
  with minimum_strategy [OF assms(1,2)] min_by_le [of _ "available self" "selection_key strat"] assms(3,4)
  show ?thesis
    by (intro exI [of _ ?p] exI [of _ before] exI [of _ after]) (simp add: list_all_iff)
qed

theorem strategies_pick_first_minimum_witness:
  "let self = register_provider (mk_provider ''b'' [] ''m'' 1 2)
        (register_provider (mk_provider ''a'' [] ''m'' 2 1) (new_router (mk_config COST_OPTIMIZED)));
       req = (mk_request ''x'' JNull)\<lparr>max_cost := 1 / 2\<rparr>
   in \<exists>p. select_provider self req = (Some p, self)
       \<and> list_all (\<lambda>q. cost_per_1k_tokens p \<le> cost_per_1k_tokens q) (available self)"
proof -
  let ?s = "register_provider (mk_provider ''b'' [] ''m'' 1 2)
        (register_provider (mk_provider ''a'' [] ''m'' 2 1) (new_router (mk_config COST_OPTIMIZED)))"
  let ?r = "(mk_request ''x'' JNull)\<lparr>max_cost := 1 / 2\<rparr>"
  have "available ?s \<noteq> []" "preferred ?r (available ?s) = None" "rc_strategy (config ?s) = COST_OPTIMIZED"
    by (simp_all add: register_provider_def new_router_def mk_provider_def mk_request_def
      mk_config_def available_def is_available_def preferred_def)
  from strategies_pick_first_minimum [OF this] show ?thesis unfolding Let_def by auto
qed

section \<open>Properties of routing\<close>

definition same_shape :: "(provider \<Rightarrow> provider) \<Rightarrow> bool" where
  "same_shape f \<longleftrightarrow> (\<forall>p. p_name (f p) = p_name p \<and> is_available (f p) = is_available p)"

lemma available_names_update:
  assumes "same_shape f"
  shows "map p_name (available (update_provider n f self)) = map p_name (available self)"
proof (cases "map_of (providers self) n")
  case (Some p)
  then obtain xs ys where "providers self = xs @ (n, p) # ys" "n \<notin> set (dict_keys xs)"
    by (rule dict_lookup_split)
  with Some assms show ?thesis
    by (simp add: update_provider_def available_def dict_set_at same_shape_def)
qed (simp add: update_provider_def)

lemma available_cong: "providers s = providers t \<Longrightarrow> available s = available t"
  by (simp add: available_def)

lemma available_names_success:
  "map p_name (available (record_success n elapsed res self)) = map p_name (available self)"
proof -
  have "same_shape (\<lambda>p. p\<lparr>p_requests := p_requests p + 1,
      avg_latency_ms := smooth_latency (avg_latency_ms p) elapsed\<rparr>)"
    by (simp add: same_shape_def is_available_def)
  then show ?thesis
    unfolding record_success_def
    by (simp add: available_names_update) (simp add: available_def)
qed

lemma record_success_frame [simp]:
  "config (record_success n elapsed res self) = config self"
  "rr_index (record_success n elapsed res self) = rr_index self"
  by (simp_all add: record_success_def)

text \<open>Successive calls of \<open>route\<close> with one request; each call brings its clock readings.\<close>

fun route_many :: "route_request \<Rightarrow> (rat \<times> rat) list \<Rightarrow> router \<Rightarrow> route_result list \<times> router" where
  "route_many req [] self = ([], self)"
| "route_many req ((t0, t1) # ts) self =
     (let (res, self1) = route None t0 t1 req self; (rs, self2) = route_many req ts self1
      in (res # rs, self2))"

lemma route_round_robin:
  assumes "rc_strategy (config self) = ROUND_ROBIN" "preferred_provider req = None"
    and "available self \<noteq> []" "route None t0 t1 req self = (res, self')"
  shows "r_provider res = map p_name (available self) ! (rr_index self mod length (available self))
     \<and> config self' = config self \<and> rr_index self' = rr_index self + 1
     \<and> map p_name (available self') = map p_name (available self)"
proof -
  let ?ps = "available self"
  let ?p = "?ps ! (rr_index self mod length ?ps)" and ?s = "self\<lparr>rr_index := rr_index self + 1\<rparr>"
  have "select_provider self req = (Some ?p, ?s)"
    using assms(1-3) by (simp add: select_provider_def preferred_def round_robin_def Let_def)
  then have r: "res = (ok_result ?p)\<lparr>r_latency_ms := elapsed_ms t0 t1\<rparr>"
    "self' = record_success (p_name ?p) (elapsed_ms t0 t1) (ok_result ?p) ?s"
    using assms(4) by (simp_all add: route_def Let_def)
  have "available ?s = available self" by (rule available_cong) simp
  with r assms(3) show ?thesis by (simp add: available_names_success)
qed

lemma route_many_round_robin:
  assumes "rc_strategy (config self) = ROUND_ROBIN" "preferred_provider req = None"
    and "map p_name (available self) = names" "names \<noteq> []"
  shows "map r_provider (fst (route_many req ts self)) =
     map (\<lambda>i. names ! ((rr_index self + i) mod length names)) [0..<length ts]"
  using assms
proof (induction ts arbitrary: self)
  case (Cons t ts)
  obtain t0 t1 where t: "t = (t0, t1)" by fastforce
  obtain res s1 where r: "route None t0 t1 req self = (res, s1)" by fastforce
  have ne: "available self \<noteq> []" using Cons.prems by auto
  note step = route_round_robin [OF Cons.prems(1,2) ne r]
  have "map r_provider (fst (route_many req ts s1)) =
      map (\<lambda>i. names ! ((rr_index s1 + i) mod length names)) [0..<length ts]"
    using step Cons.prems by (intro Cons.IH) auto
  moreover have "length (available self) = length names" using Cons.prems(3) by auto
  ultimately show ?case
    using step Cons.prems(3)
    by (simp add: t r split_beta upt_conv_Cons map_Suc_upt [symmetric] del: upt_Suc)
qed simp

text \<open>
  C30: round robin is fair. While calls succeed, as many consecutive calls as there are available
  providers use each of them exactly once, wherever the index starts.
\<close>

theorem round_robin_fair:
  assumes "rc_strategy (config self) = ROUND_ROBIN" "preferred_provider req = None"
    and "available self \<noteq> []" "length ts = length (available self)"
  shows "mset (map r_provider (fst (route_many req ts self))) = mset (map p_name (available self))"
proof -
  have "map r_provider (fst (route_many req ts self)) =
     map (\<lambda>i. map p_name (available self) ! ((rr_index self + i) mod length (map p_name (available self))))
       [0..<length ts]"
    using assms by (intro route_many_round_robin) auto
  with assms(4) show ?thesis by (simp add: mset_rotation del: mset_map)
qed

theorem round_robin_fair_witness:
  "let self = (register_provider (mk_provider ''b'' [] ''m'' 1 2)
        (register_provider (mk_provider ''a'' [] ''m'' 2 1) (new_router (mk_config ROUND_ROBIN))))
                \<lparr>rr_index := 7\<rparr>
   in mset (map r_provider (fst (route_many (mk_request ''x'' JNull) [(0, 1), (1, 2)] self)))
        = {#''a'', ''b''#}"
proof -
  let ?s = "(register_provider (mk_provider ''b'' [] ''m'' 1 2)
        (register_provider (mk_provider ''a'' [] ''m'' 2 1) (new_router (mk_config ROUND_ROBIN))))
                \<lparr>rr_index := 7\<rparr>"
  have av: "map p_name (available ?s) = [''a'', ''b'']"
    by (simp add: register_provider_def new_router_def mk_provider_def available_def is_available_def)
  have "rc_strategy (config ?s) = ROUND_ROBIN" "preferred_provider (mk_request ''x'' JNull) = None"
    by (simp_all add: register_provider_def new_router_def mk_config_def mk_request_def)
  moreover have "available ?s \<noteq> []" using av by force
  moreover have "length [(0 :: rat, 1 :: rat), (1, 2)] = length (available ?s)"
    using arg_cong [OF av, of length] by simp
  ultimately have "mset (map r_provider (fst (route_many (mk_request ''x'' JNull) [(0, 1), (1, 2)] ?s)))
      = mset (map p_name (available ?s))"
    by (rule round_robin_fair)
  then show ?thesis unfolding av Let_def by (simp add: add_mset_commute)
qed

text \<open>
  What recording a success does to a registered provider and to the totals, and what it leaves
  alone; the provider keeps its place in the registry.
\<close>

lemma record_success_effect:
  assumes "map_of (providers self) n = Some p"
  shows "map_of (providers (record_success n e res self)) = (map_of (providers self))
          (n \<mapsto> p\<lparr>p_requests := p_requests p + 1, avg_latency_ms := smooth_latency (avg_latency_ms p) e\<rparr>)"
    and "dict_keys (providers (record_success n e res self)) = dict_keys (providers self)"
    and "record_success n e res self = self
       \<lparr>providers := providers (record_success n e res self), g_requests := g_requests self + 1,
        g_latency_ms := fadd (g_latency_ms self) e, g_tokens := g_tokens self + r_tokens_used res,
        g_cost := fadd (g_cost self) (r_cost res)\<rparr>"
  using assms
  by (simp_all add: record_success_def fun_eq_iff update_provider_lookup)

text \<open>
  C28: a successful call. When the import works, the result is the complete success record of the
  selected provider with the measured latency. That provider's request count grows by one and its
  average latency moves a tenth of the way to the measurement; all its other fields, its place in
  the registry and every other provider are untouched. Of the router the totals grow by one
  request, the measured latency, 100 tokens and the rounded cost, and nothing else changes after the
  selection.
\<close>

theorem route_success_effect:
  assumes "router_ok self" "select_provider self req = (Some p, self1)"
    and "route None t0 t1 req self = (res, self')"
  shows "let e = fmul (fsub t1 t0) 1000; c = fmul (cost_per_1k_tokens p) (fl (1 / 10))
   in res = \<lparr>r_provider = p_name p, r_model = JStr (p_model p),
              r_response = JObj [(''status'', JStr ''ok''), (''text'', JStr (''Response from '' @ p_name p))],
              r_latency_ms = e, r_tokens_used = 100, r_cost = c, r_success = True, r_error = []\<rparr>
     \<and> map_of (providers self') = (map_of (providers self))
          (p_name p \<mapsto> p\<lparr>p_requests := p_requests p + 1,
             avg_latency_ms := fadd (fmul (avg_latency_ms p) (fl (9 / 10))) (fmul e (fl (1 / 10)))\<rparr>)
     \<and> dict_keys (providers self') = dict_keys (providers self)
     \<and> self' = self1\<lparr>providers := providers self', g_requests := g_requests self + 1,
          g_latency_ms := fadd (g_latency_ms self) e, g_tokens := g_tokens self + 100,
          g_cost := fadd (g_cost self) c\<rparr>"
proof -
  have lookup: "map_of (providers self1) (p_name p) = Some p"
    using select_ok(2) [OF assms(2,1)] by simp
  have frame: "providers self1 = providers self" "g_requests self1 = g_requests self"
    "g_latency_ms self1 = g_latency_ms self" "g_tokens self1 = g_tokens self" "g_cost self1 = g_cost self"
    using select_provider_cases [OF assms(2)] by auto
  have "res = (ok_result p)\<lparr>r_latency_ms := elapsed_ms t0 t1\<rparr>"
    "self' = record_success (p_name p) (elapsed_ms t0 t1) (ok_result p) self1"
    using assms(2,3) by (simp_all add: route_def Let_def)
  with frame record_success_effect [OF lookup, of "elapsed_ms t0 t1" "ok_result p"] show ?thesis
    by (simp add: Let_def ok_result_def elapsed_ms_def smooth_latency_def)
qed

theorem route_success_effect_witness:
  "let self = register_provider (mk_provider ''a'' [] ''m'' 2 1) (new_router (mk_config PRIORITY));
       (res, self') = route None 0 1 (mk_request ''x'' JNull) self
   in r_provider res = ''a'' \<and> g_tokens self' = 100 \<and> g_latency_ms self' = 1000"
proof -
  let ?p = "mk_provider ''a'' [] ''m'' 2 1"
  let ?s = "register_provider ?p (new_router (mk_config PRIORITY))"
  let ?q = "mk_request ''x'' JNull"
  have ok: "router_ok ?s"
    by (intro register_ok new_router_ok) (simp add: new_provider_def mk_provider_def)
  have sel: "select_provider ?s ?q = (Some ?p, ?s)"
    by (simp add: register_provider_def new_router_def select_provider_def available_def
        is_available_def preferred_def mk_request_def mk_config_def priority_select_def mk_provider_def)
  obtain res self' where r: "route None 0 1 ?q ?s = (res, self')" by fastforce
  let ?e = "fmul (fsub 1 0) 1000" and ?c = "fmul (cost_per_1k_tokens ?p) (fl (1 / 10))"
  from route_success_effect [OF ok sel r] have res: "r_provider res = p_name ?p"
    and self: "self' = ?s\<lparr>providers := providers self', g_requests := g_requests ?s + 1,
          g_latency_ms := fadd (g_latency_ms ?s) ?e, g_tokens := g_tokens ?s + 100,
          g_cost := fadd (g_cost ?s) ?c\<rparr>" unfolding Let_def by simp_all
  have "g_tokens self' = g_tokens ?s + 100" "g_latency_ms self' = fadd (g_latency_ms ?s) ?e"
    by (subst self, simp)+
  moreover have "fadd 0 ?e = 1000" by code_simp
  moreover have "p_name ?p = ''a''" "g_tokens ?s = 0" "g_latency_ms ?s = 0"
    by (simp_all add: mk_provider_def register_provider_def new_router_def)
  ultimately show ?thesis using r res unfolding Let_def by simp
qed

text \<open>
  C29: a failing call. The exception never escapes \<open>route\<close>: the result is a failure that carries
  \<open>str(e)\<close>, the selected provider's two counters grow by one, and it is degraded exactly when its
  failure rate then exceeds the threshold; no other provider changes.
\<close>

theorem route_failure_effect:
  assumes "router_ok self" "select_provider self req = (Some p, self1)"
    and "route (Some e) t0 t1 req self = (res, self')"
    and "q = p\<lparr>p_requests := p_requests p + 1, p_failed := p_failed p + 1\<rparr>"
  shows "res = failed_result (p_name p) (JStr (p_model p)) (elapsed_ms t0 t1) (exn_str e)
     \<and> map_of (providers self') = (map_of (providers self))
          (p_name p \<mapsto> (if failover_threshold (config self) < failure_rate q
                          then q\<lparr>status := DEGRADED\<rparr> else q))
     \<and> g_requests self' = g_requests self + 1 \<and> g_failures self' = g_failures self + 1
     \<and> g_tokens self' = g_tokens self \<and> g_cost self' = g_cost self"
proof -
  have lookup: "map_of (providers self1) (p_name p) = Some p"
    using select_ok(2) [OF assms(2,1)] by simp
  have frame: "providers self1 = providers self" "\<exists>k. self1 = self\<lparr>rr_index := k\<rparr>"
    using select_provider_cases [OF assms(2)] by auto
  have "res = failed_result (p_name p) (JStr (p_model p)) (elapsed_ms t0 t1) (exn_str e)"
    "self' = degrade_if_failing (p_name p) (record_failure (p_name p) self1)"
    using assms(2,3) by (simp_all add: route_def Let_def)
  with lookup frame assms(4) show ?thesis
    by (auto simp: degrade_if_failing_def record_failure_def fun_eq_iff update_provider_lookup)
qed

theorem route_failure_effect_witness:
  "let p = mk_provider ''a'' [] ''m'' 2 1;
       self = register_provider p (new_router (mk_config PRIORITY));
       r = route (Some (Exn ImportError ''No module named httpx'')) 0 1 (mk_request ''x'' JNull) self
   in r_error (fst r) = ''No module named httpx''
      \<and> map_option status (map_of (providers (snd r)) ''a'') = Some DEGRADED"
proof -
  let ?p = "mk_provider ''a'' [] ''m'' 2 1"
  let ?s = "register_provider ?p (new_router (mk_config PRIORITY))"
  let ?q = "mk_request ''x'' JNull" and ?e = "Exn ImportError ''No module named httpx''"
  let ?p' = "?p\<lparr>p_requests := p_requests ?p + 1, p_failed := p_failed ?p + 1\<rparr>"
  have ok: "router_ok ?s"
    by (intro register_ok new_router_ok) (simp add: new_provider_def mk_provider_def)
  have sel: "select_provider ?s ?q = (Some ?p, ?s)"
    by (simp add: register_provider_def new_router_def select_provider_def available_def
        is_available_def preferred_def mk_request_def mk_config_def priority_select_def mk_provider_def)
  have "fl (1 / 2) < 1" by code_simp
  then have "failover_threshold (config ?s) < failure_rate ?p'"
    by (simp add: failure_rate_def mk_provider_def idiv_def register_provider_def new_router_def
        mk_config_def)
  with route_failure_effect [OF ok sel surjective_pairing refl, of ?e 0 1] show ?thesis
    by (simp add: Let_def failed_result_def) (simp add: mk_provider_def)
qed

text \<open>
  C23: race routing. When the calls succeed (the import works), the first completion wins, whatever
  completes later: the result is the complete success record of its provider with the measured
  latency. The winner's request count grows by one and its average latency is smoothed; its other
  fields, its place in the registry and every other provider stay as they were. The totals grow by
  one request, the latency, 100 tokens and the cost, and nothing else in the router changes.
\<close>

theorem race_first_completion_wins:
  assumes "router_ok self" "race_racers self names = racers"
    and "valid_completions racers ((i, now) # done)"
    and "route_race None start ((i, now) # done) finish req names self = (res, self')"
  shows "let w = racers ! i; e = fmul (fsub now start) 1000; c = fmul (cost_per_1k_tokens w) (fl (1 / 10))
   in res = Inr \<lparr>r_provider = p_name w, r_model = JStr (p_model w),
              r_response = JObj [(''status'', JStr ''ok''), (''text'', JStr (''Response from '' @ p_name w))],
              r_latency_ms = e, r_tokens_used = 100, r_cost = c, r_success = True, r_error = []\<rparr>
     \<and> map_of (providers self) (p_name w) = Some w
     \<and> map_of (providers self') = (map_of (providers self))
          (p_name w \<mapsto> w\<lparr>p_requests := p_requests w + 1,
             avg_latency_ms := fadd (fmul (avg_latency_ms w) (fl (9 / 10))) (fmul e (fl (1 / 10)))\<rparr>)
     \<and> dict_keys (providers self') = dict_keys (providers self)
     \<and> self' = self\<lparr>providers := providers self', g_requests := g_requests self + 1,
          g_latency_ms := fadd (g_latency_ms self) e, g_tokens := g_tokens self + 100,
          g_cost := fadd (g_cost self) c\<rparr>"
proof -
  let ?w = "racers ! i"
  have in_racers: "?w \<in> set racers" "racers \<noteq> []" using assms(3) by (auto simp: valid_completions_def)
  then have lookup: "map_of (providers self) (p_name ?w) = Some ?w"
    using assms(1,2) race_racers_registered [of self ?w names] by (simp add: router_ok_def)
  have "res = Inr ((ok_result ?w)\<lparr>r_latency_ms := elapsed_ms start now\<rparr>)"
    "self' = record_success (p_name ?w) (elapsed_ms start now) (ok_result ?w) self"
    using assms(2,4) in_racers(2) by (simp_all add: route_race_def Let_def)
  with lookup record_success_effect [OF lookup, of "elapsed_ms start now" "ok_result ?w"] show ?thesis
    by (simp add: Let_def ok_result_def elapsed_ms_def smooth_latency_def)
qed

theorem race_first_completion_wins_witness:
  "let self = register_provider (mk_provider ''b'' [] ''m'' 1 2)
        (register_provider (mk_provider ''a'' [] ''m'' 2 1) (new_router (mk_config RACE)))
   in \<exists>r. fst (route_race None 0 [(1, 1), (0, 2)] 3 (mk_request ''x'' JNull) [] self) = Inr r
        \<and> r_provider r = ''b''"
proof -
  let ?a = "mk_provider ''a'' [] ''m'' 2 1" and ?b = "mk_provider ''b'' [] ''m'' 1 2"
  let ?s = "register_provider ?b (register_provider ?a (new_router (mk_config RACE)))"
  have ok: "router_ok ?s"
    by (intro register_ok new_router_ok) (simp_all add: new_provider_def mk_provider_def)
  have racers: "race_racers ?s [] = [?a, ?b]"
    by (simp add: race_racers_def available_def register_provider_def new_router_def mk_provider_def
        is_available_def)
  have "valid_completions [?a, ?b] [(1, 1), (0, 2)]" by (simp add: valid_completions_def)
  from race_first_completion_wins [OF ok racers this surjective_pairing]
  obtain r where "fst (route_race None 0 [(1, 1), (0, 2)] 3 (mk_request ''x'' JNull) [] ?s) = Inr r"
    "r_provider r = p_name ([?a, ?b] ! 1)" unfolding Let_def by auto
  moreover have "p_name ([?a, ?b] ! 1) = ''b''" by (simp add: mk_provider_def)
  ultimately show ?thesis unfolding Let_def by metis
qed

text \<open>The completions of the futures whose racer has a given name\<close>

definition completions_of :: "provider list \<Rightarrow> string \<Rightarrow> (nat \<times> rat) list \<Rightarrow> int" where
  "completions_of racers n done = int (length (filter (\<lambda>(i, _). p_name (racers ! i) = n) done))"

lemma completions_of_simps [simp]:
  "completions_of racers n [] = 0"
  "completions_of racers n ((i, now) # done) =
     (if p_name (racers ! i) = n then 1 else 0) + completions_of racers n done"
  by (simp_all add: completions_of_def)

lemma record_failure_effect:
  "map_of (providers (record_failure m self)) n = map_option (\<lambda>p. p
     \<lparr>p_requests := p_requests p + (if m = n then 1 else 0), p_failed := p_failed p + (if m = n then 1 else 0)\<rparr>)
     (map_of (providers self) n)"
  "dict_keys (providers (record_failure m self)) = dict_keys (providers self)"
  "record_failure m self = self\<lparr>providers := providers (record_failure m self),
     g_requests := g_requests self + 1, g_failures := g_failures self + 1\<rparr>"
  by (simp_all add: record_failure_def update_provider_lookup option.map_ident)

lemma record_failure_totals [simp]:
  "g_requests (record_failure m self) = g_requests self + 1"
  "g_failures (record_failure m self) = g_failures self + 1"
  by (simp_all add: record_failure_def)

lemma race_loop_failures:
  "race_loop (Some e) start req racers done self = (r, self') \<Longrightarrow>
   r = None
   \<and> map_of (providers self') n = map_option (\<lambda>p. p\<lparr>p_requests := p_requests p + completions_of racers n done,
        p_failed := p_failed p + completions_of racers n done\<rparr>) (map_of (providers self) n)
   \<and> dict_keys (providers self') = dict_keys (providers self)
   \<and> self' = self\<lparr>providers := providers self', g_requests := g_requests self + int (length done),
        g_failures := g_failures self + int (length done)\<rparr>"
proof (induction "done" arbitrary: self)
  case (Cons d ds)
  obtain i now where d: "d = (i, now)" by fastforce
  let ?s = "record_failure (p_name (racers ! i)) self"
  have "race_loop (Some e) start req racers ds ?s = (r, self')"
    using Cons.prems by (simp add: d Let_def)
  note ih = Cons.IH [OF this]
  have "self' = ?s\<lparr>providers := providers self', g_requests := g_requests ?s + int (length ds),
      g_failures := g_failures ?s + int (length ds)\<rparr>" using ih by blast
  also have "\<dots> = self\<lparr>providers := providers self', g_requests := g_requests self + int (length (d # ds)),
      g_failures := g_failures self + int (length (d # ds))\<rparr>"
    by (subst record_failure_effect(3)) (simp add: add.assoc)
  finally show ?case
    using ih by (auto simp: record_failure_effect(1,2) d option.map_comp o_def add.assoc
        intro!: option.map_cong)
qed (simp add: option.map_ident)

text \<open>
  C38: a race that nobody wins. Each racer is charged one request and one failure for each of its
  own completed futures, and keeps its status, latency and every other field; providers that did
  not complete are untouched. The router's request and failure totals grow by the number of
  completions and nothing else in it changes. If every racer completed, the caller gets a failed
  result; if the wait ran into the timeout first, \<open>TimeoutError\<close> escapes \<open>route_race\<close> instead of a
  failed \<open>RouteResult\<close>.
\<close>

theorem race_without_winner:
  assumes "race_racers self names = racers" "racers \<noteq> []" "valid_completions racers done"
    and "route_race (Some e) start done finish req names self = (res, self')"
  shows "map_of (providers self') n = map_option (\<lambda>p. p
          \<lparr>p_requests := p_requests p + completions_of racers n done,
           p_failed := p_failed p + completions_of racers n done\<rparr>) (map_of (providers self) n)
     \<and> dict_keys (providers self') = dict_keys (providers self)
     \<and> self' = self\<lparr>providers := providers self', g_requests := g_requests self + int (length done),
          g_failures := g_failures self + int (length done)\<rparr>
     \<and> (if length done < length racers
        then res = Inl (unfinished (length racers - length done) (length racers))
        else res = Inr (failed_result [] (JStr []) (elapsed_ms start finish)
                          ''All race participants failed''))"
proof -
  obtain r s1 where loop: "race_loop (Some e) start req racers done self = (r, s1)" by fastforce
  note f = race_loop_failures [OF loop, of n]
  with assms(1,2,4) loop have "s1 = self'"
    "if length done < length racers
        then res = Inl (unfinished (length racers - length done) (length racers))
        else res = Inr (failed_result [] (JStr []) (elapsed_ms start finish) ''All race participants failed'')"
    by (auto simp: route_race_def Let_def split: if_splits)
  with f show ?thesis by simp
qed

theorem race_without_winner_witness:
  "let self = register_provider (mk_provider ''b'' [] ''m'' 1 2)
        (register_provider (mk_provider ''a'' [] ''m'' 2 1) (new_router (mk_config RACE)));
       (res, self') = route_race (Some (Exn ImportError ''no httpx'')) 0 [(1, 1)] 2 (mk_request ''x'' JNull) [] self
   in res = Inl (Exn FutureTimeoutError ''1 (of 2) futures unfinished'')
      \<and> map_option p_failed (map_of (providers self') ''b'') = Some 1"
proof -
  let ?a = "mk_provider ''a'' [] ''m'' 2 1" and ?b = "mk_provider ''b'' [] ''m'' 1 2"
  let ?s = "register_provider ?b (register_provider ?a (new_router (mk_config RACE)))"
  have racers: "race_racers ?s [] = [?a, ?b]"
    by (simp add: race_racers_def available_def register_provider_def new_router_def mk_provider_def
        is_available_def)
  have "valid_completions [?a, ?b] [(1, 1)]" by (simp add: valid_completions_def)
  note w = race_without_winner [OF racers _ this, of "Exn ImportError ''no httpx''" 0 2 "mk_request ''x'' JNull"]
  obtain res self' where r:
    "route_race (Some (Exn ImportError ''no httpx'')) 0 [(1, 1)] 2 (mk_request ''x'' JNull) [] ?s = (res, self')"
    by fastforce
  have b: "map_of (providers ?s) ''b'' = Some ?b" "p_name ?b = ''b''" "p_failed ?b = 0"
    by (simp_all add: register_provider_def mk_provider_def dict_simps)
  have "res = Inl (unfinished 1 2)" using w [OF _ r] by (simp add: numeral_2_eq_2)
  moreover have "map_option p_failed (map_of (providers self') ''b'') = Some 1"
    using w [OF _ r, of "''b''"] b by simp
  moreover have "unfinished 1 2 = Exn FutureTimeoutError ''1 (of 2) futures unfinished''" by code_simp
  ultimately show ?thesis using r by (simp add: Let_def)
qed

section \<open>Properties of health checks and metrics\<close>

text \<open>
  C36: a health check classifies by failure rate alone. Every provider keeps its counters and gets
  UNHEALTHY, DEGRADED or HEALTHY by the two thresholds, the returned dictionary lists exactly
  these statuses in registration order, and afterwards a provider is available if and only if its
  failure rate is at most 0.8. In particular a DISABLED provider does not stay disabled.
\<close>

theorem health_check_classifies:
  assumes "health_check_all now self = (results, self')" "map_of (providers self) n = Some p"
  shows "map_of (providers self') n = Some (p\<lparr>last_health_check := now n, status := health_status p\<rparr>)
     \<and> map_of results n = Some (health_status p)
     \<and> dict_keys results = dict_keys (providers self)
     \<and> (is_available (p\<lparr>last_health_check := now n, status := health_status p\<rparr>)
          \<longleftrightarrow> failure_rate p \<le> fl (8 / 10))"
proof -
  have "results = map (\<lambda>(name, p). (name, status p)) (providers self')"
    "self' = snd (health_check_all now self)"
    using assms(1) by (auto simp: health_check_all_def Let_def)
  moreover have "map_of (providers self') n = Some (health_check (now n) p)"
    using map_of_health_check assms(2) calculation(2) by simp
  moreover have "dict_keys (providers self') = dict_keys (providers self)"
    unfolding calculation(2) providers_health_check by (rule dict_keys_map_keyed)
  moreover have "fl (3 / 10) \<le> fl (8 / 10)" by (rule f64.rnd_mono) simp
  ultimately show ?thesis
    using map_of_map_keyed [of "\<lambda>_. status" "providers self'" n]
      dict_keys_map_keyed [of "\<lambda>_. status" "providers self'"]
    by (auto simp: health_check_def is_available_def health_status_def)
qed

theorem health_check_classifies_witness:
  "let p = (mk_provider ''a'' [] ''m'' 2 1)\<lparr>status := DISABLED\<rparr>;
       self = register_provider p (new_router (mk_config PRIORITY))
   in map_of (fst (health_check_all (\<lambda>_. 5) self)) ''a'' = Some HEALTHY"
proof -
  let ?p = "(mk_provider ''a'' [] ''m'' 2 1)\<lparr>status := DISABLED\<rparr>"
  let ?s = "register_provider ?p (new_router (mk_config PRIORITY))"
  have "map_of (providers ?s) ''a'' = Some ?p"
    by (simp add: register_provider_def new_router_def mk_provider_def)
  from health_check_classifies [OF surjective_pairing this, of "\<lambda>_. 5"]
  have "map_of (fst (health_check_all (\<lambda>_. 5) ?s)) ''a'' = Some (health_status ?p)" by simp
  moreover have "health_status ?p = HEALTHY"
    using f64.rnd_nonneg [of "8 / 10"] f64.rnd_nonneg [of "3 / 10"]
    by (simp add: health_status_def failure_rate_def mk_provider_def)
  ultimately show ?thesis by (simp add: Let_def)
qed

subsection \<open>An unhealthy provider stays unhealthy\<close>

fun touches :: "string \<Rightarrow> router_op \<Rightarrow> bool" where
  "touches n (Register p) \<longleftrightarrow> p_name p = n"
| "touches n (Unregister m) \<longleftrightarrow> m = n"
| "touches n _ \<longleftrightarrow> False"

fun valid_run :: "router \<Rightarrow> router_op list \<Rightarrow> bool" where
  "valid_run self [] = True"
| "valid_run self (op # ops) = (op_valid self op \<and> valid_run (apply_op op self) ops)"

definition stuck :: "string \<Rightarrow> int \<Rightarrow> int \<Rightarrow> router \<Rightarrow> bool" where
  "stuck n asked failed self \<longleftrightarrow>
     (\<exists>p. map_of (providers self) n = Some p \<and> status p = UNHEALTHY
        \<and> p_requests p = asked \<and> p_failed p = failed \<and> fl (8 / 10) < failure_rate p)"

lemma stuck_cong: "map_of (providers t) n = map_of (providers s) n \<Longrightarrow> stuck n a b t = stuck n a b s"
  by (simp add: stuck_def)

lemma stuck_other:
  assumes "registry_ok (providers self)" "p \<in> set (available self)" "stuck n a b self"
  shows "p_name p \<noteq> n"
  using available_registered [OF assms(1,2)] assms(3) by (auto simp: stuck_def is_available_def)

lemma record_other:
  assumes "m \<noteq> n"
  shows "map_of (providers (record_success m elapsed res s)) n = map_of (providers s) n"
    and "map_of (providers (record_failure m s)) n = map_of (providers s) n"
    and "map_of (providers (degrade_if_failing m s)) n = map_of (providers s) n"
  using assms
  by (simp_all add: record_success_def record_failure_def degrade_if_failing_def update_provider_lookup)

lemma route_stuck:
  assumes "router_ok self" "stuck n a b self"
  shows "stuck n a b (snd (route imp t0 t1 req self))"
proof -
  obtain r s1 where sel: "select_provider self req = (r, s1)" by fastforce
  note c = select_provider_cases [OF sel]
  have same: "stuck n a b s1" using assms(2) stuck_cong [of s1 n self] c by simp
  show ?thesis
  proof (cases r)
    case None
    with sel same show ?thesis by (simp add: route_def)
  next
    case (Some p)
    have "registry_ok (providers self)" using assms(1) by (simp add: router_ok_def)
    moreover have "p \<in> set (available self)" using c Some by simp
    ultimately have ne: "p_name p \<noteq> n" using assms(2) by (rule stuck_other)
    note keep = record_other [OF ne]
    from Some sel same show ?thesis
      by (cases imp) (simp_all add: route_def Let_def stuck_def keep)
  qed
qed

lemma race_loop_other:
  assumes "list_all (\<lambda>(i, _). p_name (racers ! i) \<noteq> n) done"
  shows "map_of (providers (snd (race_loop imp start req racers done self))) n
       = map_of (providers self) n"
  using assms
proof (induction "done" arbitrary: self)
  case (Cons d ds)
  obtain i now where "d = (i, now)" by fastforce
  with Cons show ?case by (cases imp) (simp_all add: Let_def record_other)
qed simp

lemma race_stuck:
  assumes "router_ok self" "stuck n a b self" "valid_completions (race_racers self names) done"
  shows "stuck n a b (snd (route_race imp start done finish req names self))"
proof -
  have "p_name p \<noteq> n" if "p \<in> set (race_racers self names)" for p
    using race_racers_registered [of self p names] that assms(1,2)
    by (auto simp: router_ok_def stuck_def is_available_def)
  then have "list_all (\<lambda>(i, _). p_name (race_racers self names ! i) \<noteq> n) done"
    using assms(3) nth_mem by (fastforce simp: valid_completions_def list_all_iff)
  note race_loop_other [OF this]
  with assms(2) show ?thesis by (simp add: snd_route_race stuck_def)
qed

lemma health_stuck:
  assumes "stuck n a b self"
  shows "stuck n a b (snd (health_check_all now self))"
proof -
  obtain p where "map_of (providers self) n = Some p" "p_requests p = a" "p_failed p = b"
    "fl (8 / 10) < failure_rate p"
    using assms by (auto simp: stuck_def)
  then show ?thesis by (simp add: stuck_def map_of_health_check health_status_def)
qed

lemma apply_op_stuck:
  assumes "router_ok self" "op_valid self op" "\<not> touches n op" "stuck n a b self"
  shows "stuck n a b (apply_op op self)"
proof (cases op)
  case (Register p)
  with assms show ?thesis by (simp add: register_provider_def stuck_def dict_simps)
next
  case (Unregister m)
  with assms show ?thesis by (simp add: unregister_provider_def stuck_def dict_simps)
qed (use assms route_stuck race_stuck health_stuck in simp_all)

text \<open>
  C31: an unhealthy provider never recovers. Availability gates every request and the failure rate
  is a lifetime average, so once a provider is UNHEALTHY with a failure rate above 0.8, no run of
  routing, racing and health checks, of any length, changes its counters or its status; only
  registering or unregistering that name does.
\<close>

theorem unhealthy_is_absorbing:
  assumes "router_ok self" "map_of (providers self) n = Some p" "status p = UNHEALTHY"
    and "fl (8 / 10) < failure_rate p"
    and "valid_run self ops" "list_all (\<lambda>op. \<not> touches n op) ops"
  shows "\<exists>q. map_of (providers (fold apply_op ops self)) n = Some q \<and> status q = UNHEALTHY
     \<and> p_requests q = p_requests p \<and> p_failed q = p_failed p \<and> \<not> is_available q"
proof -
  have "stuck n (p_requests p) (p_failed p) (fold apply_op ops self)"
    if "router_ok self" "stuck n (p_requests p) (p_failed p) self" "valid_run self ops" for self
    using that assms(6)
  proof (induction ops arbitrary: self)
    case (Cons op ops)
    then show ?case using apply_op_ok [of self op] apply_op_stuck [of self op n] by simp
  qed simp
  moreover have "stuck n (p_requests p) (p_failed p) self" using assms by (simp add: stuck_def)
  ultimately have "stuck n (p_requests p) (p_failed p) (fold apply_op ops self)"
    using assms(1,5) by blast
  then show ?thesis by (auto simp: stuck_def is_available_def)
qed

theorem unhealthy_is_absorbing_witness:
  "let p = (mk_provider ''a'' [] ''m'' 2 1)\<lparr>status := UNHEALTHY, p_requests := 10, p_failed := 9\<rparr>;
       self = (new_router (mk_config PRIORITY))
          \<lparr>providers := [(''a'', p)], g_requests := 10, g_failures := 9, g_tokens := 100\<rparr>
   in map_option status (map_of (providers
        (fold apply_op [Health (\<lambda>_. 1), Route None 0 1 (mk_request ''x'' JNull), Health (\<lambda>_. 2)] self)) ''a'')
        = Some UNHEALTHY"
proof -
  let ?p = "(mk_provider ''a'' [] ''m'' 2 1)\<lparr>status := UNHEALTHY, p_requests := 10, p_failed := 9\<rparr>"
  let ?s = "(new_router (mk_config PRIORITY))
          \<lparr>providers := [(''a'', ?p)], g_requests := 10, g_failures := 9, g_tokens := 100\<rparr>"
  let ?ops = "[Health (\<lambda>_. 1), Route None 0 1 (mk_request ''x'' JNull), Health (\<lambda>_. 2)]"
  have "router_ok ?s"
    by (simp add: router_ok_def registry_ok_def provider_ok_def sum_requests_def sum_failed_def
        mk_provider_def)
  moreover have "map_of (providers ?s) ''a'' = Some ?p" "status ?p = UNHEALTHY" by simp_all
  moreover have "fl (8 / 10) < idiv 9 10" by code_simp
  then have "fl (8 / 10) < failure_rate ?p" by (simp add: failure_rate_def)
  moreover have "valid_run ?s ?ops" "list_all (\<lambda>op. \<not> touches ''a'' op) ?ops" by simp_all
  ultimately obtain q where "map_of (providers (fold apply_op ?ops ?s)) ''a'' = Some q"
    "status q = UNHEALTHY" using unhealthy_is_absorbing by blast
  then show ?thesis unfolding Let_def by simp
qed

subsection \<open>The metrics export\<close>

lemma fixed2_no_newline: "newline \<notin> set (fixed2 x)"
proof -
  have d: "newline \<noteq> digit_char (n mod 10)" for n
    by (rule digit_char_neq [symmetric]) (simp_all add: newline_def)
  have d2: "newline \<noteq> digit_char (n mod 100 div 10)" for n
    by (rule digit_char_neq [symmetric]) (simp_all add: newline_def less_mult_imp_div_less)
  have "newline \<notin> set (show_nat n)" for n
    by (rule show_nat_no_char) (simp add: newline_def)
  moreover have "newline \<noteq> CHR ''.''" "newline \<noteq> CHR ''-''" by (simp_all add: newline_def)
  ultimately show ?thesis using d d2 by (simp add: fixed2_def Let_def)
qed

lemma show_int_no_newline: "newline \<notin> set (show_int i)"
  using show_nat_no_char [of newline] by (simp add: show_int_def) (simp add: newline_def)

lemma router_ok_nonneg:
  assumes "router_ok self"
  shows "0 \<le> g_failures self" "0 \<le> g_requests self" "0 \<le> g_tokens self"
proof -
  have "registry_ok (providers self)" using assms by (simp add: router_ok_def)
  then have "0 \<le> sum_failed self"
    unfolding sum_failed_def by (intro sum_list_map_nonneg) (use registry_nonneg in blast)
  then show "0 \<le> g_failures self" "0 \<le> g_requests self" "0 \<le> g_tokens self"
    using assms by (simp_all add: router_ok_def)
qed

lemma prometheus_lines:
  "split_lines (get_prometheus_metrics self) =
     [''# HELP lingnet_router_requests_total Total routing requests'',
      ''# TYPE lingnet_router_requests_total counter'',
      ''lingnet_router_requests_total '' @ show_int (g_requests self),
      [],
      ''# HELP lingnet_router_failures_total Total routing failures'',
      ''# TYPE lingnet_router_failures_total counter'',
      ''lingnet_router_failures_total '' @ show_int (g_failures self),
      [],
      ''# HELP lingnet_router_latency_ms Average routing latency'',
      ''# TYPE lingnet_router_latency_ms gauge'',
      ''lingnet_router_latency_ms '' @ fixed2 (metrics_latency self),
      [],
      ''# HELP lingnet_router_tokens_total Total tokens used'',
      ''# TYPE lingnet_router_tokens_total counter'',
      ''lingnet_router_tokens_total '' @ show_int (g_tokens self)]"
  unfolding get_prometheus_metrics_def
  by (rule split_join_lines)
    (simp_all add: fixed2_no_newline show_int_no_newline, simp_all add: newline_def)

text \<open>
  C37: the Prometheus export can be read back. In every consistent state the text has fifteen
  lines, and the numbers that end the three counter lines are the router's request, failure and
  token totals.
\<close>

theorem prometheus_roundtrip:
  assumes "router_ok self"
  shows "let ls = split_lines (get_prometheus_metrics self)
     in length ls = 15
        \<and> int (read_last (ls ! 2)) = g_requests self
        \<and> int (read_last (ls ! 6)) = g_failures self
        \<and> int (read_last (ls ! 14)) = g_tokens self"
proof -
  note nn = router_ok_nonneg [OF assms]
  have read: "int (read_last (s @ CHR '' '' # show_int i)) = i" if "0 \<le> i" for s i
    using that by (simp add: show_int_def read_last_show)
  from read [OF nn(2), of "''lingnet_router_requests_total''"]
    read [OF nn(1), of "''lingnet_router_failures_total''"]
    read [OF nn(3), of "''lingnet_router_tokens_total''"]
  show ?thesis unfolding prometheus_lines Let_def by simp
qed

theorem prometheus_roundtrip_witness:
  "let self = apply_op (Route None 0 1 (mk_request ''x'' JNull))
         (register_provider (mk_provider ''a'' [] ''m'' 2 1) (new_router (mk_config PRIORITY)))
   in length (split_lines (get_prometheus_metrics self)) = 15"
proof -
  have "router_ok (apply_op (Route None 0 1 (mk_request ''x'' JNull))
         (register_provider (mk_provider ''a'' [] ''m'' 2 1) (new_router (mk_config PRIORITY))))"
    by (intro apply_op_ok register_ok new_router_ok) (simp_all add: new_provider_def mk_provider_def)
  from prometheus_roundtrip [OF this] show ?thesis by (simp add: Let_def)
qed

end
