(* ===== verification/CostTracker.thy ===== *)
theory CostTracker
  imports PyValue
begin

text \<open>
  \<open>python_router_core.py\<close>, accounting: \<open>CostTracker\<close> (the hourly budget) and \<open>TokenCounter\<close>.
  Times and costs are binary64 values. A charge reads the clock once, and a second time when it
  starts a new window; both readings are arguments. The lock makes a charge atomic, so a charge is
  one function. \<open>tiktoken\<close> is a parameter \<open>tk\<close>: \<open>tk model text\<close> is the number of tokens, or
  \<open>None\<close> when the library raises, which the code catches.
\<close>

section \<open>\<open>CostTracker\<close>\<close>

record cost_tracker =
  hourly_budget :: rat
  hourly_spent :: rat
  hour_start :: rat

definition new_cost_tracker :: "rat \<Rightarrow> rat \<Rightarrow> cost_tracker" where
  "new_cost_tracker now budget = \<lparr>hourly_budget = budget, hourly_spent = 0, hour_start = now\<rparr>"

definition reset_hour :: "rat \<Rightarrow> rat \<Rightarrow> cost_tracker \<Rightarrow> cost_tracker" where
  "reset_hour t1 t2 self =
     (if 3600 < fsub t1 (hour_start self) then self\<lparr>hour_start := t2, hourly_spent := 0\<rparr> else self)"

definition charge_sync :: "rat \<Rightarrow> rat \<Rightarrow> rat \<Rightarrow> cost_tracker \<Rightarrow> bool \<times> cost_tracker" where
  "charge_sync t1 t2 cost self =
     (let self = reset_hour t1 t2 self
      in if hourly_budget self < fadd (hourly_spent self) cost then (False, self)
         else (True, self\<lparr>hourly_spent := fadd (hourly_spent self) cost\<rparr>))"

text \<open>\<open>charge\<close> runs \<open>_charge_sync\<close> in the default executor and waits for it.\<close>

definition charge :: "rat \<Rightarrow> rat \<Rightarrow> rat \<Rightarrow> cost_tracker \<Rightarrow> bool \<times> cost_tracker" where
  "charge t1 t2 cost self = charge_sync t1 t2 cost self"

definition tracker_get_stats :: "cost_tracker \<Rightarrow> json res" where
  "tracker_get_stats self =
     (if hourly_budget self = 0 then Inl (Exn ZeroDivisionError ''float division by zero'')
      else Inr (JObj
        [(''hourly_budget'', JFloat (hourly_budget self)),
         (''hourly_spent'', JFloat (hourly_spent self)),
         (''remaining'', JFloat (fsub (hourly_budget self) (hourly_spent self))),
         (''usage_percent'', JFloat (fmul (fdiv (hourly_spent self) (hourly_budget self)) 100))]))"

section \<open>\<open>TokenCounter\<close>\<close>

definition count_tokens :: "(string \<Rightarrow> string \<Rightarrow> nat option) \<Rightarrow> string \<Rightarrow> string \<Rightarrow> int" where
  "count_tokens tk text model =
     (case (if contains ''gpt-4'' model \<or> contains ''gpt-3.5'' model then tk model text else None) of
        Some n \<Rightarrow> int n
      | None \<Rightarrow> int (length text) div 4 + 1)"

fun count_message_tokens ::
  "(string \<Rightarrow> string \<Rightarrow> nat option) \<Rightarrow> msg list \<Rightarrow> string \<Rightarrow> int" where
  "count_message_tokens tk [] model = 0"
| "count_message_tokens tk (m # ms) model =
     count_tokens tk (dict_getd m ''content'' []) model
     + count_tokens tk (dict_getd m ''role'' []) model
     + count_message_tokens tk ms model"

lemma count_tokens_nonneg: "0 \<le> count_tokens tk text model"
  by (auto simp: count_tokens_def split: option.splits)

lemma count_message_tokens_nonneg: "0 \<le> count_message_tokens tk ms model"
  by (induction ms) (simp_all add: count_tokens_nonneg)

lemma count_message_tokens_append:
  "count_message_tokens tk (ms @ ns) model
     = count_message_tokens tk ms model + count_message_tokens tk ns model"
  by (induction ms) simp_all

section \<open>The budget interface\<close>

text \<open>
  What a client of the budget relies on: an accepted charge fits, a refused one does not change
  what counts as spent beyond the start of a new window, and the budget itself is fixed. Then a
  sequence of charges by any number of clients, in any order, never overruns the budget.
\<close>

locale budget_guard =
  fixes charge_op :: "'t \<Rightarrow> rat \<Rightarrow> 's \<Rightarrow> bool \<times> 's"
    and spent :: "'s \<Rightarrow> rat"
    and budget :: "'s \<Rightarrow> rat"
  assumes budget_fixed: "budget (snd (charge_op t c s)) = budget s"
    and accepted_fits: "fst (charge_op t c s) \<Longrightarrow> spent (snd (charge_op t c s)) \<le> budget s"
    and refused_le:
      "\<not> fst (charge_op t c s) \<Longrightarrow>
       spent (snd (charge_op t c s)) = spent s \<or> spent (snd (charge_op t c s)) = 0"
begin

definition in_budget :: "'s \<Rightarrow> bool" where
  "in_budget s \<longleftrightarrow> 0 \<le> budget s \<and> spent s \<le> budget s"

lemma charge_within: "in_budget s \<Longrightarrow> in_budget (snd (charge_op t c s))"
  using accepted_fits [of t c s] refused_le [of t c s]
  by (cases "fst (charge_op t c s)") (auto simp: in_budget_def budget_fixed)

lemma charges_within:
  "in_budget s \<Longrightarrow> in_budget (fold (\<lambda>(t, c) s. snd (charge_op t c s)) cs s)"
  by (induction cs arbitrary: s) (auto simp: charge_within)

lemma charges_budget: "budget (fold (\<lambda>(t, c) s. snd (charge_op t c s)) cs s) = budget s"
  by (induction cs arbitrary: s) (auto simp: budget_fixed)

end

interpretation tracker_guard: budget_guard "\<lambda>t. charge_sync (fst t) (snd t)" hourly_spent hourly_budget
  by unfold_locales (auto simp: charge_sync_def reset_hour_def Let_def split: if_splits)

definition tracker_ok :: "cost_tracker \<Rightarrow> bool" where
  "tracker_ok s \<longleftrightarrow> 0 \<le> hourly_budget s \<and> hourly_spent s \<le> hourly_budget s"

lemma tracker_within: "tracker_guard.in_budget = tracker_ok"
  by (simp add: fun_eq_iff tracker_guard.in_budget_def tracker_ok_def)

lemma charge_tracker_ok: "tracker_ok s \<Longrightarrow> tracker_ok (snd (charge_sync t1 t2 c s))"
  using tracker_guard.charge_within [of s "(t1, t2)" c] by (simp add: tracker_within)

lemma new_tracker_ok: "0 \<le> budget \<Longrightarrow> tracker_ok (new_cost_tracker now budget)"
  by (simp add: tracker_ok_def new_cost_tracker_def)

lemma charge_budget_fixed [simp]: "hourly_budget (snd (charge_sync t1 t2 c s)) = hourly_budget s"
  using tracker_guard.budget_fixed [of "(t1, t2)" c s] by simp

section \<open>Sequences of charges and the ledger\<close>

text \<open>A charge event: the two clock readings and the cost.\<close>

type_synonym charge_event = "(rat \<times> rat) \<times> rat"

fun charge_all :: "charge_event list \<Rightarrow> cost_tracker \<Rightarrow> bool list \<times> cost_tracker" where
  "charge_all [] s = ([], s)"
| "charge_all (((t1, t2), c) # es) s =
     (let (ok, s1) = charge_sync t1 t2 c s; (oks, s2) = charge_all es s1 in (ok # oks, s2))"

lemma charge_all_state:
  "snd (charge_all es s) = fold (\<lambda>(t, c) s. snd (charge_sync (fst t) (snd t) c s)) es s"
  by (induction es s rule: charge_all.induct) (auto simp: Let_def split: prod.splits)

text \<open>
  The abstract specification keeps the costs themselves: the charges accepted since the window
  began, in order.
\<close>

record ledger =
  window_start :: rat
  entries :: "rat list"

definition entries_sum :: "rat list \<Rightarrow> rat" where
  "entries_sum cs = foldl fadd 0 cs"

definition ledger_charge :: "rat \<Rightarrow> charge_event \<Rightarrow> ledger \<Rightarrow> bool \<times> ledger" where
  "ledger_charge budget e l =
     (case e of ((t1, t2), c) \<Rightarrow>
       let l = (if 3600 < fsub t1 (window_start l) then \<lparr>window_start = t2, entries = []\<rparr> else l)
       in if entries_sum (entries l @ [c]) \<le> budget then (True, l\<lparr>entries := entries l @ [c]\<rparr>)
          else (False, l))"

fun ledger_all :: "rat \<Rightarrow> charge_event list \<Rightarrow> ledger \<Rightarrow> bool list \<times> ledger" where
  "ledger_all budget [] l = ([], l)"
| "ledger_all budget (e # es) l =
     (let (ok, l1) = ledger_charge budget e l; (oks, l2) = ledger_all budget es l1 in (ok # oks, l2))"

definition ledger_abs :: "rat \<Rightarrow> ledger \<Rightarrow> cost_tracker" where
  "ledger_abs budget l =
     \<lparr>hourly_budget = budget, hourly_spent = entries_sum (entries l), hour_start = window_start l\<rparr>"

lemma entries_sum_snoc: "entries_sum (cs @ [c]) = fadd (entries_sum cs) c"
  by (simp add: entries_sum_def)

lemma ledger_charge_refines:
  "charge_sync t1 t2 c (ledger_abs b l)
     = map_prod id (ledger_abs b) (ledger_charge b ((t1, t2), c) l)"
  by (simp add: charge_sync_def reset_hour_def ledger_charge_def ledger_abs_def Let_def
      entries_sum_snoc) (simp add: entries_sum_def not_less)

lemma ledger_all_refines:
  "charge_all es (ledger_abs b l) = map_prod id (ledger_abs b) (ledger_all b es l)"
proof (induction es arbitrary: l)
  case (Cons e es)
  obtain t1 t2 c where e: "e = ((t1, t2), c)" by (metis surj_pair)
  show ?case
    by (cases "ledger_charge b e l") (simp add: e ledger_charge_refines Cons.IH Let_def split: prod.splits)
qed simp

lemma new_tracker_abs:
  "new_cost_tracker now b = ledger_abs b \<lparr>window_start = now, entries = []\<rparr>"
  by (simp add: new_cost_tracker_def ledger_abs_def entries_sum_def)

section \<open>Properties\<close>

text \<open>
  C19: the budget holds. After any sequence of charges, with any costs and any clock readings, what
  is recorded as spent in the current window is at most the budget, and the budget has not moved.
\<close>

theorem spent_within_budget:
  assumes "0 \<le> budget"
  shows "hourly_spent (snd (charge_all es (new_cost_tracker now budget))) \<le> budget
     \<and> hourly_budget (snd (charge_all es (new_cost_tracker now budget))) = budget"
proof -
  let ?s = "new_cost_tracker now budget"
  have "tracker_guard.in_budget ?s" using new_tracker_ok [OF assms] by (simp add: tracker_within)
  from tracker_guard.charges_within [OF this, of es] tracker_guard.charges_budget [of es ?s]
  show ?thesis unfolding charge_all_state
    by (simp add: tracker_guard.in_budget_def new_cost_tracker_def)
qed

theorem spent_within_budget_witness:
  "hourly_spent (snd (charge_all [((1, 1), 4), ((2, 2), 3)] (new_cost_tracker 0 5))) = 4"
proof -
  have "hourly_spent (snd (charge_all [((1, 1), 4), ((2, 2), 3)] (new_cost_tracker 0 5))) \<le> 5"
    using spent_within_budget [of 5 "[((1, 1), 4), ((2, 2), 3)]" 0] by simp
  moreover have "hourly_spent (snd (charge_all [((1, 1), 4), ((2, 2), 3)] (new_cost_tracker 0 5))) = 4"
    by code_simp
  ultimately show ?thesis by simp
qed

text \<open>
  C5: the tracker implements a ledger. Its answers to a sequence of charges are those of the
  abstract ledger, which accepts a charge exactly when the rounded sum of the entries of the current
  window and the new one is within the budget, and its state is the image of the ledger's.
\<close>

theorem tracker_refines_ledger:
  "charge_all es (new_cost_tracker now budget)
     = map_prod id (ledger_abs budget)
         (ledger_all budget es \<lparr>window_start = now, entries = []\<rparr>)"
  unfolding new_tracker_abs by (rule ledger_all_refines)

text \<open>
  The window is fixed, not rolling. A full budget charged at the last second of a window and
  another one second later are both accepted, so within one second twice the hourly budget is spent.
\<close>

theorem double_spend_across_windows:
  assumes "0 \<le> budget" "fl budget = budget" "\<bar>now\<bar> + 3601 \<le> 2 ^ 53"
  shows "fst (charge_all
      [((of_int (now + 3600), t), budget), ((of_int (now + 3601), of_int (now + 3601)), budget)]
      (new_cost_tracker (of_int now) budget)) = [True, True]"
proof -
  have "fsub (of_int (now + 3600)) (of_int now) = 3600"
    using fl_int [of 3600] by (simp add: fsub_def)
  moreover have "fsub (of_int (now + 3601)) (of_int now) = 3601"
    using fl_int [of 3601] by (simp add: fsub_def)
  moreover have "fadd 0 budget = budget" using assms(2) by (simp add: fadd_def)
  ultimately show ?thesis
    by (simp add: charge_sync_def reset_hour_def new_cost_tracker_def Let_def)
qed

theorem double_spend_across_windows_witness:
  "fst (charge_all [((3600, 0), 5), ((3601, 3601), 5)] (new_cost_tracker 0 5)) = [True, True]"
proof -
  have "fl (5 :: rat) = 5" using fl_int [of 5] by simp
  from double_spend_across_windows [OF _ this, of 0 0] show ?thesis by simp
qed

end
