(* ===== verification/ModelRouter.thy ===== *)
theory ModelRouter
  imports CostTracker
begin

text \<open>
  \<open>python_router_core.py\<close>: the multi-model router. One call of a provider is the charge against
  the budget followed by a bounded loop of HTTP posts; the race runs one such call per candidate
  concurrently. Everything the environment decides is an argument: clock readings, the outcome of
  each post (\<open>aiohttp\<close> and the remote service), the token counts of \<open>tiktoken\<close>, the value of \<open>random()\<close>
  and the schedule of the event loop. The posts and sleeps a call performs are kept in a trace.
\<close>

section \<open>Data\<close>

datatype MRStrategy = MR_RACE | MR_SMART | MR_UNIFORM

fun mr_strategy_value :: "MRStrategy \<Rightarrow> string" where
  "mr_strategy_value MR_RACE = ''race''"
| "mr_strategy_value MR_SMART = ''smart''"
| "mr_strategy_value MR_UNIFORM = ''uniform''"

text \<open>
  The \<open>strategy\<close> field of a configuration is declared as the enumeration, but the constructor does
  not convert: a configuration read from JSON holds the plain value. Such a value equals no member
  of the enumeration and has no attribute \<open>value\<close>.
\<close>

datatype strategy_field = Member MRStrategy | Plain json

fun strategy_field_value :: "strategy_field \<Rightarrow> json res" where
  "strategy_field_value (Member s) = Inr (JStr (mr_strategy_value s))"
| "strategy_field_value (Plain v) = Inl (Exn AttributeError
     (quoted (type_name v) @ '' object has no attribute '' @ quoted ''value''))"

fun strategy_field_truthy :: "strategy_field \<Rightarrow> bool" where
  "strategy_field_truthy (Member s) = True"
| "strategy_field_truthy (Plain v) = truthy v"

record model_provider =
  mp_id :: string
  mp_name :: string
  mp_endpoint :: string
  mp_api_key :: string
  api_compat :: string
  mp_models :: "json list"
  mp_weight :: int
  mp_latency_ms :: rat
  mp_error_rate :: rat

record routing_config =
  strategy :: strategy_field
  fallback_strategy :: "strategy_field option"
  budget_per_hour :: rat
  candidates :: "string list"
  weights :: "(string, int) dict"
  retry_count :: int
  retry_delay_ms :: int
  retry_on_errors :: "string list"
  race_timeout_ms :: int
  collect_all :: bool

text \<open>The constructor with the defaults of the last five fields.\<close>

definition mk_routing_config ::
  "strategy_field \<Rightarrow> strategy_field option \<Rightarrow> rat \<Rightarrow> string list \<Rightarrow> (string, int) dict \<Rightarrow> routing_config"
  where
  "mk_routing_config strat fb budget cands ws =
     \<lparr>strategy = strat, fallback_strategy = fb, budget_per_hour = budget, candidates = cands,
      weights = ws, retry_count = 2, retry_delay_ms = 1000,
      retry_on_errors = [''timeout'', ''rate_limit'', ''server_error''], race_timeout_ms = 5000,
      collect_all = False\<rparr>"

record llm_request =
  q_messages :: "msg list"
  q_model :: string
  q_provider :: string
  q_temperature :: rat
  q_max_tokens :: "int option"
  q_stream :: bool

record llm_response =
  content :: json
  a_provider :: string
  a_model :: string
  latency_ms :: rat
  tokens_in :: json
  tokens_out :: json
  cost_usd :: rat
  finish_reason :: json
  a_error :: "string option"

text \<open>What a call does to the outside world, in order.\<close>

datatype http_effect = is_Post: Post string string json | is_Sleep: Sleep rat

datatype session = NoSession | OpenSession rat | ClosedSession

record mrouter =
  mr_config :: routing_config
  mr_providers :: "(string, model_provider) dict"
  tracker :: cost_tracker
  mr_session :: session
  total_requests :: int
  race_wins :: "(string, int) dict"
  trace :: "http_effect list"

definition new_mrouter :: "rat \<Rightarrow> routing_config \<Rightarrow> (string, model_provider) dict \<Rightarrow> mrouter" where
  "new_mrouter now cfg provs =
     \<lparr>mr_config = cfg, mr_providers = provs, tracker = new_cost_tracker now (budget_per_hour cfg),
      mr_session = NoSession, total_requests = 0, race_wins = [], trace = []\<rparr>"

definition mr_start :: "mrouter \<Rightarrow> mrouter" where
  "mr_start self = self\<lparr>mr_session := OpenSession (idiv (race_timeout_ms (mr_config self)) 1000)\<rparr>"

definition mr_stop :: "mrouter \<Rightarrow> mrouter" where
  "mr_stop self = (if mr_session self = NoSession then self else self\<lparr>mr_session := ClosedSession\<rparr>)"

section \<open>One call of a provider\<close>

fun find_model :: "json list \<Rightarrow> string \<Rightarrow> json option res" where
  "find_model [] model_id = Inr None"
| "find_model (m # ms) model_id =
     rbind (get_key m ''id'')
       (\<lambda>v. if v = JStr model_id then Inr (Some m) else find_model ms model_id)"

definition get_model_config :: "model_provider \<Rightarrow> string \<Rightarrow> json option res" where
  "get_model_config p model_id = find_model (mp_models p) model_id"

definition error_response :: "model_provider \<Rightarrow> llm_request \<Rightarrow> rat \<Rightarrow> string \<Rightarrow> llm_response" where
  "error_response p req lat err =
     \<lparr>content = JStr [], a_provider = mp_id p, a_model = q_model req, latency_ms = lat,
      tokens_in = JInt 0, tokens_out = JInt 0, cost_usd = 0, finish_reason = JStr ''error'',
      a_error = Some err\<rparr>"

text \<open>\<open>tokens * model_config[key] / 1_000_000\<close>, and the sum for both directions\<close>

definition token_cost :: "json \<Rightarrow> string \<Rightarrow> json \<Rightarrow> rat res" where
  "token_cost mc key tokens =
     rbind (get_key mc key) (\<lambda>c. rbind (py_mul tokens c) (\<lambda>x. py_div_const x 1000000))"

definition call_cost :: "json \<Rightarrow> json \<Rightarrow> json \<Rightarrow> rat res" where
  "call_cost mc tin tout =
     rbind (token_cost mc ''cost_in'' tin) (\<lambda>a.
     rbind (token_cost mc ''cost_out'' tout) (\<lambda>b. Inr (fadd a b)))"

definition estimate_cost ::
  "(string \<Rightarrow> string \<Rightarrow> nat option) \<Rightarrow> llm_request \<Rightarrow> json \<Rightarrow> rat res" where
  "estimate_cost tk req mc =
     (let tin = count_message_tokens tk (q_messages req) (q_model req)
      in call_cost mc (JInt tin) (JInt (tin div 2)))"

definition max_tokens_json :: "int option \<Rightarrow> json" where
  "max_tokens_json m = (case m of None \<Rightarrow> JNull | Some n \<Rightarrow> JInt n)"

definition google_content :: "msg \<Rightarrow> json res" where
  "google_content m =
     rbind (msg_item m ''role'') (\<lambda>role.
     rbind (msg_item m ''content'') (\<lambda>text.
     Inr (JObj [(''role'', JStr role), (''parts'', JList [JObj [(''text'', JStr text)]])])))"

definition build_payload :: "string \<Rightarrow> llm_request \<Rightarrow> json res" where
  "build_payload api req =
     (if api = ''openai'' then
        Inr (JObj [(''model'', JStr (q_model req)), (''messages'', json_of_msgs (q_messages req)),
                   (''temperature'', JFloat (q_temperature req)),
                   (''max_tokens'', max_tokens_json (q_max_tokens req)),
                   (''stream'', JBool (q_stream req))])
      else if api = ''anthropic'' then
        Inr (JObj [(''model'', JStr (q_model req)), (''messages'', json_of_msgs (q_messages req)),
                   (''max_tokens'', case q_max_tokens req of
                      None \<Rightarrow> JInt 4096 | Some n \<Rightarrow> JInt (if n = 0 then 4096 else n)),
                   (''temperature'', JFloat (q_temperature req))])
      else if api = ''google'' then
        rbind (rmap_list google_content (q_messages req)) (\<lambda>cs.
          Inr (JObj [(''contents'', JList cs),
                     (''generationConfig'', JObj
                        [(''temperature'', JFloat (q_temperature req)),
                         (''maxOutputTokens'', max_tokens_json (q_max_tokens req))])]))
      else Inr (JObj []))"

text \<open>
  The outcome of one post: a reply with its status, what \<open>resp.json()\<close> and \<open>resp.text()\<close> give or
  raise, or an exception of the client library. With it come the clock reading taken after a
  decoded reply and the one taken for an error response.
\<close>

datatype http_outcome = HttpReply int "json res" "string res" | HttpRaises pyexn

type_synonym attempt_env = "http_outcome \<times> rat \<times> rat"

definition mr_elapsed :: "rat \<Rightarrow> rat \<Rightarrow> rat" where
  "mr_elapsed start now = fmul (fsub now start) 1000"

definition update_latency :: "string \<Rightarrow> rat \<Rightarrow> mrouter \<Rightarrow> mrouter" where
  "update_latency pid lat self =
     (case map_of (mr_providers self) pid of
        None \<Rightarrow> self
      | Some p \<Rightarrow> self\<lparr>mr_providers := dict_set pid
          (p\<lparr>mp_latency_ms := fadd (fmul (mp_latency_ms p) (fl (9 / 10))) (fmul lat (fl (1 / 10)))\<rparr>)
          (mr_providers self)\<rparr>)"

definition add_effect :: "http_effect \<Rightarrow> mrouter \<Rightarrow> mrouter" where
  "add_effect e self = self\<lparr>trace := trace self @ [e]\<rparr>"

definition usage_item :: "json \<Rightarrow> string \<Rightarrow> json res" where
  "usage_item data key =
     rbind (get_default data ''usage'' (JObj [])) (\<lambda>u. get_default u key (JInt 0))"

definition decode_reply ::
  "model_provider \<Rightarrow> llm_request \<Rightarrow> json \<Rightarrow> rat \<Rightarrow> json \<Rightarrow> llm_response res" where
  "decode_reply p req mc lat data =
     rbind (get_path data [Key ''choices'', First, Key ''message'', Key ''content'']) (\<lambda>text.
     rbind (usage_item data ''prompt_tokens'') (\<lambda>tin.
     rbind (usage_item data ''completion_tokens'') (\<lambda>tout.
     rbind (call_cost mc tin tout) (\<lambda>c.
     rbind (get_path data [Key ''choices'', First]) (\<lambda>choice.
     rbind (get_default choice ''finish_reason'' (JStr ''stop'')) (\<lambda>fin.
     Inr \<lparr>content = text, a_provider = mp_id p, a_model = q_model req, latency_ms = lat,
          tokens_in = tin, tokens_out = tout, cost_usd = c, finish_reason = fin,
          a_error = None\<rparr>))))))"

definition may_retry :: "routing_config \<Rightarrow> nat \<Rightarrow> string \<Rightarrow> bool" where
  "may_retry cfg n tag \<longleftrightarrow> tag \<in> set (retry_on_errors cfg) \<and> int n < retry_count cfg"

definition retry_sleep :: "mrouter \<Rightarrow> mrouter" where
  "retry_sleep self = add_effect (Sleep (idiv (retry_delay_ms (mr_config self)) 1000)) self"

text \<open>The two \<open>except\<close> clauses; \<open>None\<close> is \<open>continue\<close>.\<close>

definition handle_exn ::
  "model_provider \<Rightarrow> llm_request \<Rightarrow> rat \<Rightarrow> nat \<Rightarrow> pyexn \<Rightarrow> mrouter \<Rightarrow> llm_response option \<times> mrouter"
  where
  "handle_exn p req lat n e self =
     (if exn_class e = AsyncTimeoutError then
        if may_retry (mr_config self) n ''timeout'' then (None, retry_sleep self)
        else (Some (error_response p req lat ''Request timeout''), self)
      else
        if may_retry (mr_config self) n ''server_error'' then (None, retry_sleep self)
        else (Some (error_response p req lat (exn_str e)), self))"

definition http_error :: "int \<Rightarrow> string \<Rightarrow> string" where
  "http_error code text = ''HTTP '' @ show_int code @ '': '' @ text"

definition handle_error_status ::
  "model_provider \<Rightarrow> llm_request \<Rightarrow> rat \<Rightarrow> nat \<Rightarrow> int \<Rightarrow> string \<Rightarrow> mrouter \<Rightarrow> llm_response option \<times> mrouter"
  where
  "handle_error_status p req lat n code text self =
     (if code \<in> {429, 500, 502, 503} \<and> contains ''rate_limit'' (lower text)
         \<and> may_retry (mr_config self) n ''rate_limit''
      then (None, retry_sleep self)
      else (Some (error_response p req lat (http_error code text)), self))"

definition no_session :: pyexn where
  "no_session = Exn AttributeError
     (quoted ''NoneType'' @ '' object has no attribute '' @ quoted ''post'')"

definition post_url :: "model_provider \<Rightarrow> string" where
  "post_url p = mp_endpoint p @ ''/chat/completions''"

text \<open>One pass through the body of the retry loop.\<close>

definition attempt ::
  "string \<Rightarrow> model_provider \<Rightarrow> llm_request \<Rightarrow> json \<Rightarrow> json \<Rightarrow> rat \<Rightarrow> attempt_env \<Rightarrow> nat \<Rightarrow> mrouter
     \<Rightarrow> llm_response option \<times> mrouter" where
  "attempt pid p req payload mc start env n self =
     (case env of (outcome, t_ok, t_err) \<Rightarrow>
        let lat = mr_elapsed start t_err in
        if mr_session self = NoSession then handle_exn p req lat n no_session self
        else
          let self = add_effect (Post (post_url p) (''Bearer '' @ mp_api_key p) payload) self in
          (case outcome of
             HttpRaises e \<Rightarrow> handle_exn p req lat n e self
           | HttpReply code body text \<Rightarrow>
               if code = 200 then
                 (case body of
                    Inl e \<Rightarrow> handle_exn p req lat n e self
                  | Inr data \<Rightarrow>
                      let l = mr_elapsed start t_ok; self = update_latency pid l self in
                      (case decode_reply p req mc l data of
                         Inl e \<Rightarrow> handle_exn p req lat n e self
                       | Inr r \<Rightarrow> (Some r, self)))
               else
                 (case text of
                    Inl e \<Rightarrow> handle_exn p req lat n e self
                  | Inr s \<Rightarrow> handle_error_status p req lat n code s self)))"

definition exhausted :: "model_provider \<Rightarrow> llm_request \<Rightarrow> rat \<Rightarrow> rat \<Rightarrow> llm_response" where
  "exhausted p req start now = error_response p req (mr_elapsed start now) ''Exhausted all retries''"

text \<open>\<open>for attempt in range(retry_count + 1)\<close>: \<open>k\<close> iterations are left, \<open>n\<close> is the next index.\<close>

fun attempt_loop ::
  "string \<Rightarrow> model_provider \<Rightarrow> llm_request \<Rightarrow> json \<Rightarrow> json \<Rightarrow> rat \<Rightarrow> (nat \<Rightarrow> attempt_env) \<Rightarrow> rat
     \<Rightarrow> nat \<Rightarrow> nat \<Rightarrow> mrouter \<Rightarrow> llm_response \<times> mrouter" where
  "attempt_loop pid p req payload mc start envs t_end 0 n self = (exhausted p req start t_end, self)"
| "attempt_loop pid p req payload mc start envs t_end (Suc k) n self =
     (case attempt pid p req payload mc start (envs n) n self of
        (Some r, self) \<Rightarrow> (r, self)
      | (None, self) \<Rightarrow> attempt_loop pid p req payload mc start envs t_end k (Suc n) self)"

text \<open>
  The readings of a call: its start, the two of the charge, the one of the final error response.
  What precedes the loop either ends the call or yields the model configuration and the payload.
\<close>

record call_env =
  t_start :: rat
  t_charge1 :: rat
  t_charge2 :: rat
  t_end :: rat
  posts :: "nat \<Rightarrow> attempt_env"

definition prepare_call ::
  "(string \<Rightarrow> string \<Rightarrow> nat option) \<Rightarrow> rat \<Rightarrow> rat \<Rightarrow> model_provider \<Rightarrow> llm_request \<Rightarrow> mrouter
     \<Rightarrow> (llm_response res + json \<times> json) \<times> mrouter" where
  "prepare_call tk t1 t2 p req self =
     (case get_model_config p (q_model req) of
        Inl e \<Rightarrow> (Inl (Inl e), self)
      | Inr None \<Rightarrow>
          (Inl (Inr (error_response p req 0 (''Model '' @ q_model req @ '' not found''))), self)
      | Inr (Some mc) \<Rightarrow>
          (case estimate_cost tk req mc of
             Inl e \<Rightarrow> (Inl (Inl e), self)
           | Inr c \<Rightarrow>
               let (ok, tr) = charge t1 t2 c (tracker self); self = self\<lparr>tracker := tr\<rparr> in
               if \<not> ok then (Inl (Inr (error_response p req 0 ''Hourly budget exceeded'')), self)
               else (case build_payload (api_compat p) req of
                   Inl e \<Rightarrow> (Inl (Inl e), self)
                 | Inr pl \<Rightarrow> (Inr (mc, pl), self))))"

definition call_provider ::
  "(string \<Rightarrow> string \<Rightarrow> nat option) \<Rightarrow> call_env \<Rightarrow> string \<Rightarrow> model_provider \<Rightarrow> llm_request \<Rightarrow> mrouter
     \<Rightarrow> llm_response res \<times> mrouter" where
  "call_provider tk env pid p req self =
     (case prepare_call tk (t_charge1 env) (t_charge2 env) p req self of
        (Inl r, self) \<Rightarrow> (r, self)
      | (Inr (mc, payload), self) \<Rightarrow>
          (let (r, self) = attempt_loop pid p req payload mc (t_start env) (posts env) (t_end env)
                             (nat (retry_count (mr_config self) + 1)) 0 self
           in (Inr r, self)))"

section \<open>What an attempt and a call leave alone\<close>

named_theorems frame_simps \<open>what an operation does not change\<close>

text \<open>The parts of the router no call of a provider touches.\<close>

definition same_router :: "mrouter \<Rightarrow> mrouter \<Rightarrow> bool" where
  "same_router s t \<longleftrightarrow> mr_config t = mr_config s \<and> mr_session t = mr_session s
     \<and> total_requests t = total_requests s \<and> race_wins t = race_wins s
     \<and> dict_keys (mr_providers t) = dict_keys (mr_providers s)"

lemma same_router_refl [simp]: "same_router s s"
  by (simp add: same_router_def)

lemma same_router_trans: "same_router s t \<Longrightarrow> same_router t u \<Longrightarrow> same_router s u"
  by (simp add: same_router_def)

lemma add_effect_frame [frame_simps]:
  "mr_config (add_effect e s) = mr_config s" "mr_session (add_effect e s) = mr_session s"
  "tracker (add_effect e s) = tracker s" "total_requests (add_effect e s) = total_requests s"
  "race_wins (add_effect e s) = race_wins s" "mr_providers (add_effect e s) = mr_providers s"
  "trace (add_effect e s) = trace s @ [e]"
  by (simp_all add: add_effect_def)

lemma update_latency_frame [frame_simps]:
  "mr_config (update_latency pid l s) = mr_config s"
  "mr_session (update_latency pid l s) = mr_session s"
  "tracker (update_latency pid l s) = tracker s"
  "total_requests (update_latency pid l s) = total_requests s"
  "race_wins (update_latency pid l s) = race_wins s" "trace (update_latency pid l s) = trace s"
  by (simp_all add: update_latency_def split: option.splits)

lemma update_latency_keys [frame_simps]:
  "dict_keys (mr_providers (update_latency pid l s)) = dict_keys (mr_providers s)"
proof (cases "map_of (mr_providers s) pid")
  case (Some p)
  then have "pid \<in> set (dict_keys (mr_providers s))" by (force dest: map_of_SomeD)
  with Some show ?thesis by (simp add: update_latency_def dict_simps)
qed (simp add: update_latency_def)

text \<open>What a step of the retry loop adds to the trace: a post if there is a session, a sleep if it retries.\<close>

definition attempt_trace :: "mrouter \<Rightarrow> model_provider \<Rightarrow> json \<Rightarrow> bool \<Rightarrow> http_effect list" where
  "attempt_trace s p payload retry =
     (if mr_session s = NoSession then [] else [Post (post_url p) (''Bearer '' @ mp_api_key p) payload])
     @ (if retry then [Sleep (idiv (retry_delay_ms (mr_config s)) 1000)] else [])"

lemma handle_exn_frame:
  assumes "handle_exn p req lat n e s = (r, s')"
  shows "same_router s s' \<and> tracker s' = tracker s
     \<and> trace s' = trace s @ (if r = None then [Sleep (idiv (retry_delay_ms (mr_config s)) 1000)] else [])
     \<and> (r = None \<longrightarrow> int n < retry_count (mr_config s))
     \<and> (\<forall>a. r = Some a \<longrightarrow> a_error a \<noteq> None)"
  using assms
  by (auto simp: handle_exn_def retry_sleep_def same_router_def frame_simps may_retry_def
      error_response_def split: if_splits)

lemma handle_error_status_frame:
  assumes "handle_error_status p req lat n code text s = (r, s')"
  shows "same_router s s' \<and> tracker s' = tracker s
     \<and> trace s' = trace s @ (if r = None then [Sleep (idiv (retry_delay_ms (mr_config s)) 1000)] else [])
     \<and> (r = None \<longrightarrow> int n < retry_count (mr_config s))"
  using assms
  by (auto simp: handle_error_status_def retry_sleep_def same_router_def frame_simps may_retry_def
      split: if_splits)

lemma attempt_frame:
  assumes "attempt pid p req payload mc start env n s = (r, s')"
  shows "same_router s s' \<and> tracker s' = tracker s
     \<and> trace s' = trace s @ attempt_trace s p payload (r = None)
     \<and> (r = None \<longrightarrow> int n < retry_count (mr_config s))"
  using assms
  by (auto simp: attempt_def attempt_trace_def Let_def same_router_def frame_simps
      split: prod.splits if_splits http_outcome.splits sum.splits
      dest!: handle_exn_frame handle_error_status_frame)

definition posts_in :: "http_effect list \<Rightarrow> nat" where
  "posts_in t = length (filter is_Post t)"

definition sleeps_in :: "http_effect list \<Rightarrow> nat" where
  "sleeps_in t = length (filter is_Sleep t)"

lemma count_effects [simp]:
  "posts_in [] = 0" "sleeps_in [] = 0"
  "posts_in (e # t) = (if is_Post e then 1 else 0) + posts_in t"
  "sleeps_in (e # t) = (if is_Post e then 0 else 1) + sleeps_in t"
  "posts_in (t @ u) = posts_in t + posts_in u" "sleeps_in (t @ u) = sleeps_in t + sleeps_in u"
  by (cases e; simp add: posts_in_def sleeps_in_def)+

definition only_posts :: "model_provider \<Rightarrow> http_effect list \<Rightarrow> bool" where
  "only_posts p t \<longleftrightarrow> list_all (\<lambda>e. case e of Post u k pl \<Rightarrow> u = post_url p \<and> k = ''Bearer '' @ mp_api_key p
     | Sleep d \<Rightarrow> True) t"

lemma only_posts_simps [simp]:
  "only_posts p []" "only_posts p (t @ u) \<longleftrightarrow> only_posts p t \<and> only_posts p u"
  by (simp_all add: only_posts_def)

lemma attempt_trace_counts:
  "posts_in (attempt_trace s p pl b) = (if mr_session s = NoSession then 0 else 1)"
  "sleeps_in (attempt_trace s p pl b) = (if b then 1 else 0)"
  "only_posts p (attempt_trace s p pl b)"
  by (simp_all add: attempt_trace_def only_posts_def)

lemma attempt_loop_frame:
  "attempt_loop pid p req payload mc start envs te k n s = (a, s') \<Longrightarrow>
   same_router s s' \<and> tracker s' = tracker s
   \<and> (\<exists>t. trace s' = trace s @ t \<and> posts_in t \<le> k \<and> sleeps_in t \<le> nat (retry_count (mr_config s) - int n)
        \<and> (mr_session s = NoSession \<longrightarrow> posts_in t = 0) \<and> only_posts p t)"
proof (induction k arbitrary: n s)
  case (Suc k)
  obtain r s1 where at: "attempt pid p req payload mc start (envs n) n s = (r, s1)" by fastforce
  note f = attempt_frame [OF at] and counts = attempt_trace_counts [where s = s and p = p and pl = payload]
  show ?case
  proof (cases r)
    case (Some b)
    with Suc.prems at have "a = b" "s' = s1" by simp_all
    with f Some counts show ?thesis by (intro conjI exI [of _ "attempt_trace s p payload False"]) auto
  next
    case None
    with Suc.prems at
    have "attempt_loop pid p req payload mc start envs te k (Suc n) s1 = (a, s')" by simp
    from Suc.IH [OF this] f obtain t where t: "trace s' = trace s1 @ t" "posts_in t \<le> k"
      "sleeps_in t \<le> nat (retry_count (mr_config s) - int (Suc n))"
      "mr_session s = NoSession \<longrightarrow> posts_in t = 0" "only_posts p t" "same_router s1 s'"
      "tracker s' = tracker s1"
      by (auto simp: same_router_def)
    have "int n < retry_count (mr_config s)" using f None by simp
    with t f None counts show ?thesis
      by (intro conjI exI [of _ "attempt_trace s p payload True @ t"])
        (auto intro: same_router_trans)
  qed
qed auto

lemma attempt_loop_dead_tail:
  "retry_count (mr_config s) = int n + int k \<Longrightarrow>
   attempt_loop pid p req payload mc start envs te (Suc k) n s
     = attempt_loop pid p req payload mc start envs te' (Suc k) n s"
proof (induction k arbitrary: n s)
  case 0
  obtain r s1 where at: "attempt pid p req payload mc start (envs n) n s = (r, s1)" by fastforce
  with attempt_frame [OF at] 0 show ?case by (cases r) auto
next
  case (Suc k)
  obtain r s1 where at: "attempt pid p req payload mc start (envs n) n s = (r, s1)" by fastforce
  then have "retry_count (mr_config s1) = int (Suc n) + int k"
    using attempt_frame [OF at] Suc.prems by (simp add: same_router_def)
  from Suc.IH [OF this] at show ?case by (cases r) simp_all
qed

lemma prepare_call_frame:
  assumes "prepare_call tk t1 t2 p req s = (r, s')"
  shows "same_router s s' \<and> trace s' = trace s \<and> mr_providers s' = mr_providers s
     \<and> tracker s' = (case get_model_config p (q_model req) of
          Inr (Some mc) \<Rightarrow> (case estimate_cost tk req mc of
             Inr c \<Rightarrow> snd (charge t1 t2 c (tracker s)) | Inl e \<Rightarrow> tracker s)
        | _ \<Rightarrow> tracker s)"
  using assms
  by (auto simp: prepare_call_def same_router_def Let_def split: sum.splits option.splits prod.splits if_splits)

section \<open>Retryable outcomes\<close>

text \<open>The outcomes on which the loop goes round again, while attempts are left.\<close>

definition transient :: "routing_config \<Rightarrow> http_outcome \<Rightarrow> bool" where
  "transient cfg o' =
     (case o' of
        HttpRaises e \<Rightarrow>
          (if exn_class e = AsyncTimeoutError then ''timeout'' else ''server_error'')
            \<in> set (retry_on_errors cfg)
      | HttpReply code body text \<Rightarrow>
          code \<in> {429, 500, 502, 503} \<and> ''rate_limit'' \<in> set (retry_on_errors cfg)
            \<and> (\<exists>s. text = Inr s \<and> contains ''rate_limit'' (lower s)))"

lemma attempt_transient:
  assumes "transient (mr_config s) o'" "int n < retry_count (mr_config s)" "mr_session s \<noteq> NoSession"
  obtains s' where "attempt pid p req payload mc start (o', t1, t2) n s = (None, s')"
    "same_router s s'" "trace s' = trace s @ attempt_trace s p payload True"
proof -
  obtain r s' where at: "attempt pid p req payload mc start (o', t1, t2) n s = (r, s')" by fastforce
  have "r = None"
    using assms at
    by (auto simp: transient_def attempt_def handle_exn_def handle_error_status_def may_retry_def
        frame_simps Let_def split: http_outcome.splits if_splits)
  with at attempt_frame [OF at] that show thesis by simp
qed

lemma attempt_loop_transient:
  assumes "\<And>i. n \<le> i \<Longrightarrow> i < n + m \<Longrightarrow> transient (mr_config s) (fst (envs i))"
    and "int (n + m) \<le> retry_count (mr_config s)" and "mr_session s \<noteq> NoSession"
  shows "\<exists>s'. attempt_loop pid p req payload mc start envs te (m + k) n s
       = attempt_loop pid p req payload mc start envs te k (n + m) s'
     \<and> same_router s s' \<and> posts_in (drop (length (trace s)) (trace s')) = m
     \<and> (\<exists>t. trace s' = trace s @ t)"
  using assms
proof (induction m arbitrary: n s)
  case 0
  then show ?case by (intro exI [of _ s]) simp
next
  case (Suc m)
  obtain o' t1 t2 where e: "envs n = (o', t1, t2)" by (cases "envs n") auto
  with Suc.prems(1) [of n] have "transient (mr_config s) o'" by simp
  moreover have "int n < retry_count (mr_config s)" using Suc.prems(2) by simp
  ultimately obtain s1 where s1:
    "attempt pid p req payload mc start (o', t1, t2) n s = (None, s1)" "same_router s s1"
    "trace s1 = trace s @ attempt_trace s p payload True"
    using Suc.prems(3) by (rule attempt_transient)
  then have cfg: "mr_config s1 = mr_config s" "mr_session s1 = mr_session s"
    by (simp_all add: same_router_def)
  have "\<exists>s'. attempt_loop pid p req payload mc start envs te (m + k) (Suc n) s1
       = attempt_loop pid p req payload mc start envs te k (Suc n + m) s'
     \<and> same_router s1 s' \<and> posts_in (drop (length (trace s1)) (trace s')) = m
     \<and> (\<exists>t. trace s' = trace s1 @ t)"
    by (rule Suc.IH) (use Suc.prems cfg in auto)
  then obtain s' t where s': "attempt_loop pid p req payload mc start envs te (m + k) (Suc n) s1
       = attempt_loop pid p req payload mc start envs te k (n + Suc m) s'"
    "same_router s1 s'" "trace s' = trace s1 @ t" "posts_in t = m" by auto
  with s1 e Suc.prems(3) show ?case
    by (intro exI [of _ s'])
      (auto intro: same_router_trans simp: attempt_trace_counts [where s = s and p = p])
qed

lemma call_provider_prepared:
  assumes "prepare_call tk (t_charge1 env) (t_charge2 env) p req s = (Inr (mc, pl), s1)"
  shows "call_provider tk env pid p req s =
     apfst Inr (attempt_loop pid p req pl mc (t_start env) (posts env) (t_end env)
       (nat (retry_count (mr_config s) + 1)) 0 s1)"
proof -
  have "mr_config s1 = mr_config s" using prepare_call_frame [OF assms] by (simp add: same_router_def)
  with assms show ?thesis by (simp add: call_provider_def split: prod.splits)
qed

section \<open>Properties of one call\<close>

definition sample_provider :: model_provider where
  "sample_provider = \<lparr>mp_id = ''p'', mp_name = ''P'', mp_endpoint = ''u'', mp_api_key = ''k'',
     api_compat = ''openai'', mp_models = [JObj [(''id'', JStr ''m''), (''cost_in'', JInt 0), (''cost_out'', JInt 0)]],
     mp_weight = 1, mp_latency_ms = 0, mp_error_rate = 0\<rparr>"

definition sample_request :: llm_request where
  "sample_request = \<lparr>q_messages = [[(''role'', ''user''), (''content'', ''hi'')]], q_model = ''m'',
     q_provider = ''p'', q_temperature = 0, q_max_tokens = None, q_stream = False\<rparr>"

definition sample_router :: "strategy_field \<Rightarrow> strategy_field option \<Rightarrow> mrouter" where
  "sample_router strat fb = mr_start (new_mrouter 0
     (mk_routing_config strat fb 1 [''p/m''] [(''p'', 1)]) [(''p'', sample_provider)])"

definition sample_reply :: json where
  "sample_reply = JObj [(''choices'', JList [JObj [(''message'', JObj [(''content'', JStr ''ok'')])]])]"

definition sample_env :: "(nat \<Rightarrow> http_outcome) \<Rightarrow> call_env" where
  "sample_env os = \<lparr>t_start = 0, t_charge1 = 0, t_charge2 = 0, t_end = 0, posts = (\<lambda>n. (os n, 0, 0))\<rparr>"

text \<open>
  C3: a call is bounded. Whatever the remote side does, one call of a provider posts at most
  \<open>retry_count + 1\<close> times and sleeps at most \<open>retry_count\<close> times, posts only to the provider's own
  endpoint with its own key, and changes no other part of the router than the budget and latencies.
\<close>

theorem call_is_bounded:
  "let s' = snd (call_provider tk env pid p req s); t = drop (length (trace s)) (trace s')
   in trace s' = trace s @ t
      \<and> posts_in t \<le> nat (retry_count (mr_config s) + 1)
      \<and> sleeps_in t \<le> nat (retry_count (mr_config s))
      \<and> only_posts p t \<and> same_router s s'"
proof -
  obtain r s1 where pr: "prepare_call tk (t_charge1 env) (t_charge2 env) p req s = (r, s1)" by fastforce
  note f = prepare_call_frame [OF pr]
  show ?thesis
  proof (cases r)
    case (Inl x)
    with pr f show ?thesis by (simp add: call_provider_def)
  next
    case (Inr x)
    obtain mc pl where x: "r = Inr (mc, pl)" using Inr by (cases x) simp
    obtain a s2 where al: "attempt_loop pid p req pl mc (t_start env) (posts env) (t_end env)
       (nat (retry_count (mr_config s) + 1)) 0 s1 = (a, s2)" by fastforce
    from call_provider_prepared [OF pr [unfolded x]] al
    have c: "snd (call_provider tk env pid p req s) = s2" by simp
    from attempt_loop_frame [OF al] f show ?thesis
      unfolding c Let_def by (auto intro: same_router_trans simp: same_router_def)
  qed
qed

text \<open>
  The code after the retry loop is dead. With a non-negative \<open>retry_count\<close> the last pass of the
  loop always returns, so the call does not depend on the clock reading of the response
  "Exhausted all retries".
\<close>

theorem exhausted_is_dead:
  assumes "0 \<le> retry_count (mr_config s)"
  shows "call_provider tk (env\<lparr>t_end := t\<rparr>) pid p req s = call_provider tk env pid p req s"
proof -
  obtain r s1 where pr: "prepare_call tk (t_charge1 env) (t_charge2 env) p req s = (r, s1)" by fastforce
  have cfg: "mr_config s1 = mr_config s" using prepare_call_frame [OF pr] by (simp add: same_router_def)
  have n: "nat (retry_count (mr_config s) + 1) = Suc (nat (retry_count (mr_config s)))"
    using assms by simp
  have "retry_count (mr_config s1) = int 0 + int (nat (retry_count (mr_config s)))"
    using assms cfg by simp
  note attempt_loop_dead_tail [OF this, of pid p req _ _ "t_start env" "posts env" t "t_end env"]
  with pr cfg show ?thesis
    unfolding call_provider_def by (cases r) (auto simp: n simp del: attempt_loop.simps)
qed

theorem exhausted_is_dead_witness:
  "let s = sample_router (Member MR_RACE) None; env = sample_env (\<lambda>_. HttpRaises no_session)
   in call_provider (\<lambda>_ _. None) (env\<lparr>t_end := 7\<rparr>) ''p'' sample_provider sample_request s
      = call_provider (\<lambda>_ _. None) env ''p'' sample_provider sample_request s"
proof -
  have "0 \<le> retry_count (mr_config (sample_router (Member MR_RACE) None))"
    by (simp add: sample_router_def mr_start_def new_mrouter_def mk_routing_config_def)
  from exhausted_is_dead [OF this] show ?thesis by (simp add: Let_def)
qed

text \<open>
  C6: transient failures are overcome. When the first \<open>k \<le> retry_count\<close> posts end in an outcome the
  configuration retries and post \<open>k\<close> returns a well-formed reply, the call returns the decoded
  reply, after exactly \<open>k + 1\<close> posts.
\<close>

theorem retries_reach_success:
  assumes prep: "prepare_call tk (t_charge1 env) (t_charge2 env) p req s = (Inr (mc, pl), s1)"
    and sess: "mr_session s \<noteq> NoSession"
    and k: "int k \<le> retry_count (mr_config s)"
    and trans: "\<forall>i < k. transient (mr_config s) (fst (posts env i))"
    and reply: "posts env k = (HttpReply 200 (Inr data) text, t_ok, t_err)"
    and dec: "decode_reply p req mc (mr_elapsed (t_start env) t_ok) data = Inr a"
  shows "fst (call_provider tk env pid p req s) = Inr a
     \<and> posts_in (drop (length (trace s)) (trace (snd (call_provider tk env pid p req s)))) = k + 1"
proof -
  note f = prepare_call_frame [OF prep]
  have cfg: "mr_config s1 = mr_config s" "mr_session s1 = mr_session s" "trace s1 = trace s"
    using f by (simp_all add: same_router_def)
  obtain j where j: "nat (retry_count (mr_config s) + 1) = k + Suc j"
    by (rule that [of "nat (retry_count (mr_config s) - int k)"]) (use k in simp)
  obtain s2 t where s2: "attempt_loop pid p req pl mc (t_start env) (posts env) (t_end env) (k + Suc j) 0 s1
       = attempt_loop pid p req pl mc (t_start env) (posts env) (t_end env) (Suc j) (0 + k) s2"
    "same_router s1 s2" "trace s2 = trace s1 @ t" "posts_in t = k"
    using attempt_loop_transient [of 0 k s1 "posts env" pid p req pl mc "t_start env" "t_end env" "Suc j"]
      trans k sess cfg by auto
  obtain r s3 where at: "attempt pid p req pl mc (t_start env) (posts env k) k s2 = (r, s3)" by fastforce
  have sess2: "mr_session s2 \<noteq> NoSession" using s2(2) cfg sess by (simp add: same_router_def)
  with at have r: "r = Some a" by (simp add: attempt_def reply dec Let_def)
  with attempt_frame [OF at] sess2 have "posts_in (drop (length (trace s2)) (trace s3)) = 1"
    by (simp add: attempt_trace_counts [where s = s2 and p = p])
  moreover have "\<exists>u. trace s3 = trace s2 @ u" using attempt_frame [OF at] by blast
  ultimately show ?thesis
    using at r s2 cfg by (auto simp: call_provider_prepared [OF prep] j)
qed

theorem retries_reach_success_witness:
  "let env = sample_env (\<lambda>n. if n = 0 then HttpRaises (Exn AsyncTimeoutError [])
                            else HttpReply 200 (Inr sample_reply) (Inr []))
   in \<exists>a. fst (call_provider (\<lambda>_ _. None) env ''p'' sample_provider sample_request
              (sample_router (Member MR_RACE) None)) = Inr a
          \<and> content a = JStr ''ok'' \<and> a_error a = None"
proof -
  let ?s = "sample_router (Member MR_RACE) None"
  let ?env = "sample_env (\<lambda>n. if n = 0 then HttpRaises (Exn AsyncTimeoutError [])
                            else HttpReply 200 (Inr sample_reply) (Inr []))"
  let ?p = "prepare_call (\<lambda>_ _. None) (t_charge1 ?env) (t_charge2 ?env) sample_provider sample_request ?s"
  let ?mc = "hd (mp_models sample_provider)"
  have "case ?p of (Inr x, s1) \<Rightarrow> fst x = ?mc | _ \<Rightarrow> False" by code_simp
  then obtain pl s1 where p: "?p = (Inr (?mc, pl), s1)" by (auto split: prod.splits sum.splits)
  have s: "mr_session ?s \<noteq> NoSession" "int 1 \<le> retry_count (mr_config ?s)"
    "transient (mr_config ?s) (fst (posts ?env 0))"
    by (simp_all add: sample_router_def mr_start_def new_mrouter_def mk_routing_config_def
        sample_env_def transient_def)
  have e: "posts ?env 1 = (HttpReply 200 (Inr sample_reply) (Inr []), 0, 0)"
    by (simp add: sample_env_def)
  have "case decode_reply sample_provider sample_request ?mc (mr_elapsed (t_start ?env) 0) sample_reply
      of Inr a \<Rightarrow> content a = JStr ''ok'' \<and> a_error a = None | Inl e \<Rightarrow> False" by code_simp
  then obtain a where a: "decode_reply sample_provider sample_request ?mc (mr_elapsed (t_start ?env) 0) sample_reply
      = Inr a" "content a = JStr ''ok'' \<and> a_error a = None" by (auto split: sum.splits)
  from retries_reach_success [OF p s(1,2) _ e a(1), of "''p''"] s(3) a(2)
  show ?thesis unfolding Let_def by simp
qed

text \<open>
  C16: server errors are not retried. A first reply with any status but 200 and a text that does not
  mention "rate_limit" ends the call after one post with the error "HTTP <status>: <text>", whatever
  \<open>retry_count\<close> and \<open>retry_on_errors\<close> say, "server_error" included.
\<close>

theorem server_errors_not_retried:
  assumes prep: "prepare_call tk (t_charge1 env) (t_charge2 env) p req s = (Inr (mc, pl), s1)"
    and sess: "mr_session s \<noteq> NoSession"
    and rc: "0 \<le> retry_count (mr_config s)"
    and reply: "posts env 0 = (HttpReply code body (Inr text), t_ok, t_err)" "code \<noteq> 200"
    and nolimit: "\<not> contains ''rate_limit'' (lower text)"
  shows "fst (call_provider tk env pid p req s)
       = Inr (error_response p req (mr_elapsed (t_start env) t_err) (http_error code text))
     \<and> posts_in (drop (length (trace s)) (trace (snd (call_provider tk env pid p req s)))) = 1"
proof -
  have sess1: "mr_session s1 \<noteq> NoSession" "trace s1 = trace s"
    using prepare_call_frame [OF prep] sess by (simp_all add: same_router_def)
  have "nat (retry_count (mr_config s) + 1) = Suc (nat (retry_count (mr_config s)))" using rc by simp
  with sess1 show ?thesis
    by (simp add: call_provider_prepared [OF prep] attempt_def reply handle_error_status_def nolimit
        Let_def frame_simps)
qed

theorem server_errors_not_retried_witness:
  "let env = sample_env (\<lambda>_. HttpReply 503 (Inr JNull) (Inr ''busy''))
   in posts_in (trace (snd (call_provider (\<lambda>_ _. None) env ''p'' sample_provider sample_request
        (sample_router (Member MR_RACE) None)))) = 1"
proof -
  let ?s = "sample_router (Member MR_RACE) None"
  let ?env = "sample_env (\<lambda>_. HttpReply 503 (Inr JNull) (Inr ''busy''))"
  let ?p = "prepare_call (\<lambda>_ _. None) (t_charge1 ?env) (t_charge2 ?env) sample_provider sample_request ?s"
  let ?mc = "hd (mp_models sample_provider)"
  have "case ?p of (Inr x, s1) \<Rightarrow> fst x = ?mc | _ \<Rightarrow> False" by code_simp
  then obtain pl s1 where p: "?p = (Inr (?mc, pl), s1)" by (auto split: prod.splits sum.splits)
  have s: "mr_session ?s \<noteq> NoSession" "0 \<le> retry_count (mr_config ?s)" "trace ?s = []"
    by (simp_all add: sample_router_def mr_start_def new_mrouter_def mk_routing_config_def)
  have e: "posts ?env 0 = (HttpReply 503 (Inr JNull) (Inr ''busy''), 0, 0)"
    by (simp add: sample_env_def)
  have "\<not> contains ''rate_limit'' (lower ''busy'')" by code_simp
  from server_errors_not_retried [OF p s(1,2) e _ this, of "''p''"] s(3)
  show ?thesis unfolding Let_def by simp
qed

lemma attempt_loop_no_session:
  "mr_session s = NoSession \<Longrightarrow>
   a_error (fst (attempt_loop pid p req pl mc start envs te k n s)) \<noteq> None"
proof (induction k arbitrary: n s)
  case 0
  then show ?case by (simp add: exhausted_def error_response_def)
next
  case (Suc k)
  obtain r s1 where at: "attempt pid p req pl mc start (envs n) n s = (r, s1)" by fastforce
  have "mr_session s1 = NoSession" using attempt_frame [OF at] Suc.prems by (simp add: same_router_def)
  moreover have "handle_exn p req (mr_elapsed start (snd (snd (envs n)))) n no_session s = (r, s1)"
    using at Suc.prems by (simp add: attempt_def Let_def split: prod.splits)
  note handle_exn_frame [OF this]
  ultimately show ?case using at Suc.IH [of s1 "Suc n"] by (cases r) auto
qed

text \<open>
  A router that was not started cannot succeed. Without a session a call never returns a
  response without an error, and never posts.
\<close>

theorem no_session_never_succeeds:
  assumes "mr_session s = NoSession"
  shows "(case fst (call_provider tk env pid p req s) of Inl e \<Rightarrow> True | Inr a \<Rightarrow> a_error a \<noteq> None)
     \<and> posts_in (drop (length (trace s)) (trace (snd (call_provider tk env pid p req s)))) = 0"
proof -
  obtain r s1 where pr: "prepare_call tk (t_charge1 env) (t_charge2 env) p req s = (r, s1)" by fastforce
  note f = prepare_call_frame [OF pr]
  show ?thesis
  proof (cases r)
    case (Inl x)
    have "(case x of Inl e \<Rightarrow> True | Inr a \<Rightarrow> a_error a \<noteq> None)"
      using pr Inl
      by (auto simp: prepare_call_def error_response_def Let_def
          split: sum.splits option.splits prod.splits if_splits)
    with pr f Inl show ?thesis by (simp add: call_provider_def)
  next
    case (Inr x)
    obtain mc pl where x: "r = Inr (mc, pl)" using Inr by (cases x) simp
    obtain a s2 where al: "attempt_loop pid p req pl mc (t_start env) (posts env) (t_end env)
       (nat (retry_count (mr_config s) + 1)) 0 s1 = (a, s2)" by fastforce
    have no: "mr_session s1 = NoSession" using f assms by (simp add: same_router_def)
    from attempt_loop_no_session [OF no] al have "a_error a \<noteq> None" by (metis fst_conv)
    with call_provider_prepared [OF pr [unfolded x]] al attempt_loop_frame [OF al] no f
    show ?thesis by auto
  qed
qed

theorem no_session_never_succeeds_witness:
  "let s = new_mrouter 0 (mk_routing_config (Member MR_SMART) None 1 [''p/m''] [(''p'', 1)])
             [(''p'', sample_provider)];
       env = sample_env (\<lambda>_. HttpReply 200 (Inr sample_reply) (Inr []))
   in case fst (call_provider (\<lambda>_ _. None) env ''p'' sample_provider sample_request s) of
        Inl e \<Rightarrow> True | Inr a \<Rightarrow> a_error a \<noteq> None"
proof -
  have "mr_session (new_mrouter 0 (mk_routing_config (Member MR_SMART) None 1 [''p/m''] [(''p'', 1)])
          [(''p'', sample_provider)]) = NoSession" by (simp add: new_mrouter_def)
  from no_session_never_succeeds [OF this] show ?thesis by (simp add: Let_def)
qed

text \<open>
  C17: what a call costs the budget. The budget is charged the estimate once, before the first post;
  no outcome of the posts changes it, so the actual cost of a reply is never charged and a failed
  call is never refunded.
\<close>

theorem call_charges_the_estimate:
  "tracker (snd (call_provider tk env pid p req s)) =
     (case get_model_config p (q_model req) of
        Inr (Some mc) \<Rightarrow> (case estimate_cost tk req mc of
           Inr c \<Rightarrow> snd (charge (t_charge1 env) (t_charge2 env) c (tracker s))
         | Inl e \<Rightarrow> tracker s)
      | _ \<Rightarrow> tracker s)"
proof -
  obtain r s1 where pr: "prepare_call tk (t_charge1 env) (t_charge2 env) p req s = (r, s1)" by fastforce
  have "tracker (snd (call_provider tk env pid p req s)) = tracker s1"
    using pr by (auto simp: call_provider_def split: sum.splits prod.splits dest: attempt_loop_frame)
  with prepare_call_frame [OF pr] show ?thesis by simp
qed

end
