(* ===== verification/RaceRouting.thy ===== *)
theory RaceRouting
  imports ModelRouter
begin

text \<open>
  \<open>python_router_core.py\<close>: the three routing strategies of \<open>ModelRouter\<close> and the entry points for the
  Zig layer. The race runs its calls as tasks of one event loop. A task moves in atomic steps, from
  one \<open>await\<close> to the next: the step that charges the budget and the steps that each handle one HTTP
  outcome. A schedule is the list of such steps and of the wake-ups of \<open>asyncio.wait\<close>; the theorems
  hold for every schedule. A schedule that ends before the race does gives the result \<open>None\<close>.
\<close>

section \<open>The tasks of a race\<close>

datatype call_phase = Waiting | Posting json json rat nat | Finished "llm_response res"

type_synonym task = "string \<times> model_provider \<times> llm_request"

datatype race_event =
    Begin nat rat rat rat rat
  | Outcome nat attempt_env
  | Wake "nat list"

text \<open>The head of the retry loop: another post, or the end of the loop.\<close>

definition next_phase ::
  "model_provider \<Rightarrow> llm_request \<Rightarrow> routing_config \<Rightarrow> json \<Rightarrow> json \<Rightarrow> rat \<Rightarrow> rat \<Rightarrow> nat \<Rightarrow> call_phase" where
  "next_phase p req cfg mc payload start t n =
     (if int n < retry_count cfg + 1 then Posting mc payload start n
      else Finished (Inr (exhausted p req start t)))"

definition begin_task ::
  "(string \<Rightarrow> string \<Rightarrow> nat option) \<Rightarrow> rat \<Rightarrow> rat \<Rightarrow> rat \<Rightarrow> rat \<Rightarrow> task \<Rightarrow> mrouter \<Rightarrow> call_phase \<times> mrouter"
  where
  "begin_task tk start t1 t2 te tsk self =
     (case tsk of (pid, p, req) \<Rightarrow>
        (case prepare_call tk t1 t2 p req self of
           (Inl r, self) \<Rightarrow> (Finished r, self)
         | (Inr (mc, payload), self) \<Rightarrow>
             (next_phase p req (mr_config self) mc payload start te 0, self)))"

definition post_task ::
  "attempt_env \<Rightarrow> task \<Rightarrow> json \<Rightarrow> json \<Rightarrow> rat \<Rightarrow> nat \<Rightarrow> rat \<Rightarrow> mrouter \<Rightarrow> call_phase \<times> mrouter" where
  "post_task env tsk mc payload start n te self =
     (case tsk of (pid, p, req) \<Rightarrow>
        (case attempt pid p req payload mc start env n self of
           (Some r, self) \<Rightarrow> (Finished (Inr r), self)
         | (None, self) \<Rightarrow> (next_phase p req (mr_config self) mc payload start te (Suc n), self)))"

text \<open>One step of one task; a step that is not enabled changes nothing.\<close>

fun task_event ::
  "(string \<Rightarrow> string \<Rightarrow> nat option) \<Rightarrow> task list \<Rightarrow> race_event \<Rightarrow> call_phase list \<times> mrouter
     \<Rightarrow> call_phase list \<times> mrouter" where
  "task_event tk ts (Begin i start t1 t2 te) (phs, self) =
     (if i < length phs \<and> phs ! i = Waiting
      then (let (ph, self) = begin_task tk start t1 t2 te (ts ! i) self in (phs[i := ph], self))
      else (phs, self))"
| "task_event tk ts (Outcome i env) (phs, self) =
     (if i < length phs then
        (case phs ! i of
           Posting mc payload start n \<Rightarrow>
             (let (ph, self) = post_task env (ts ! i) mc payload start n (snd (snd env)) self
              in (phs[i := ph], self))
         | _ \<Rightarrow> (phs, self))
      else (phs, self))"
| "task_event tk ts (Wake ds) (phs, self) = (phs, self)"

text \<open>The tasks the loop over the candidates creates.\<close>

definition bad_candidate :: pyexn where
  "bad_candidate = Exn ValueError ''not enough values to unpack (expected 2, got 1)''"

definition sub_request :: "llm_request \<Rightarrow> string \<Rightarrow> string \<Rightarrow> llm_request" where
  "sub_request req model pid =
     \<lparr>q_messages = q_messages req, q_model = model, q_provider = pid,
      q_temperature = q_temperature req, q_max_tokens = q_max_tokens req, q_stream = False\<rparr>"

fun race_tasks ::
  "(string, model_provider) dict \<Rightarrow> llm_request \<Rightarrow> string list \<Rightarrow> task list res" where
  "race_tasks provs req [] = Inr []"
| "race_tasks provs req (c # cs) =
     (case split_once CHR ''/'' c of
        None \<Rightarrow> Inl bad_candidate
      | Some (pid, model) \<Rightarrow>
          (case map_of provs pid of
             None \<Rightarrow> race_tasks provs req cs
           | Some p \<Rightarrow>
               rbind (race_tasks provs req cs) (\<lambda>ts. Inr ((pid, p, sub_request req model pid) # ts))))"

text \<open>
  The \<open>for task in done\<close> loop: the first awaited task whose response has no error; a task that
  raised is passed over.
\<close>

fun first_success :: "call_phase list \<Rightarrow> nat list \<Rightarrow> llm_response option" where
  "first_success phs [] = None"
| "first_success phs (i # is) =
     (case phs ! i of
        Finished (Inr r) \<Rightarrow> if a_error r = None then Some r else first_success phs is
      | _ \<Rightarrow> first_success phs is)"

definition count_win :: "llm_response \<Rightarrow> mrouter \<Rightarrow> mrouter" where
  "count_win r self = self\<lparr>race_wins :=
     dict_set (a_provider r) (dict_getd (race_wins self) (a_provider r) 0 + 1) (race_wins self)\<rparr>"

definition is_finished :: "call_phase \<Rightarrow> bool" where
  "is_finished ph \<longleftrightarrow> (case ph of Finished r \<Rightarrow> True | _ \<Rightarrow> False)"

text \<open>
  \<open>asyncio.wait\<close> returns when a task has finished or the timeout has passed; it returns all the
  finished ones, as a set, which the code then visits in some order.
\<close>

definition wake_enabled :: "call_phase list \<Rightarrow> nat list \<Rightarrow> nat list \<Rightarrow> bool" where
  "wake_enabled phs pending ds \<longleftrightarrow>
     distinct ds \<and> set ds = set (filter (\<lambda>i. is_finished (phs ! i)) pending)"

datatype race_outcome = Won llm_response | AllFailed | StillWaiting

text \<open>\<open>while pending\<close>: the list of pending tasks and the schedule that is left.\<close>

fun race_run ::
  "(string \<Rightarrow> string \<Rightarrow> nat option) \<Rightarrow> task list \<Rightarrow> nat list \<Rightarrow> race_event list
     \<Rightarrow> call_phase list \<times> mrouter \<Rightarrow> race_outcome \<times> call_phase list \<times> mrouter" where
  "race_run tk ts [] evs (phs, self) = (AllFailed, phs, self)"
| "race_run tk ts (q # pending) [] (phs, self) = (StillWaiting, phs, self)"
| "race_run tk ts (q # pending) (Wake ds # evs) (phs, self) =
     (if wake_enabled phs (q # pending) ds then
        (case first_success phs ds of
           Some r \<Rightarrow> (Won r, phs, count_win r self)
         | None \<Rightarrow> race_run tk ts (filter (\<lambda>i. i \<notin> set ds) (q # pending)) evs (phs, self))
      else race_run tk ts (q # pending) evs (phs, self))"
| "race_run tk ts (q # pending) (Begin i start t1 t2 te # evs) (phs, self) =
     race_run tk ts (q # pending) evs (task_event tk ts (Begin i start t1 t2 te) (phs, self))"
| "race_run tk ts (q # pending) (Outcome i env # evs) (phs, self) =
     race_run tk ts (q # pending) evs (task_event tk ts (Outcome i env) (phs, self))"

section \<open>Weighted and uniform selection\<close>

definition float_zero_div :: pyexn where
  "float_zero_div = Exn ZeroDivisionError ''float division by zero''"

definition provider_score :: "int \<Rightarrow> model_provider \<Rightarrow> rat res" where
  "provider_score w p =
     (let d = fadd 1 (fdiv (mp_latency_ms p) 1000)
      in if d = 0 then Inl float_zero_div
         else Inr (fmul (fmul (of_pyint w) (fdiv 1 d)) (fsub 1 (mp_error_rate p))))"

fun smart_scores ::
  "(string, model_provider) dict \<Rightarrow> (string, int) dict \<Rightarrow> (string, rat) dict res" where
  "smart_scores provs [] = Inr []"
| "smart_scores provs ((pid, w) # ws) =
     (case map_of provs pid of
        None \<Rightarrow> smart_scores provs ws
      | Some p \<Rightarrow>
          rbind (provider_score w p) (\<lambda>sc. rbind (smart_scores provs ws) (\<lambda>r. Inr ((pid, sc) # r))))"

definition total_score :: "(string, rat) dict \<Rightarrow> rat" where
  "total_score scores = py_sum (dict_values scores)"

fun pick_loop :: "rat \<Rightarrow> rat \<Rightarrow> (string, rat) dict \<Rightarrow> string option" where
  "pick_loop pick current [] = None"
| "pick_loop pick current ((pid, sc) # scores) =
     (let current = fadd current sc
      in if pick \<le> current then Some pid else pick_loop pick current scores)"

definition select_weighted :: "rat \<Rightarrow> (string, rat) dict \<Rightarrow> string" where
  "select_weighted pick scores =
     (case pick_loop pick 0 scores of Some pid \<Rightarrow> pid | None \<Rightarrow> fst (hd scores))"

definition uniform_candidate :: "mrouter \<Rightarrow> string" where
  "uniform_candidate self =
     (let cands = candidates (mr_config self)
      in cands ! nat (total_requests self mod int (length cands)))"

definition uniform_route ::
  "(string \<Rightarrow> string \<Rightarrow> nat option) \<Rightarrow> call_env \<Rightarrow> llm_request \<Rightarrow> mrouter \<Rightarrow> llm_response res \<times> mrouter"
  where
  "uniform_route tk env req self =
     (if candidates (mr_config self) = []
      then (Inl (Exn ZeroDivisionError ''integer modulo by zero''), self)
      else
        (case split_once CHR ''/'' (uniform_candidate self) of
           None \<Rightarrow> (Inl bad_candidate, self)
         | Some (pid, model) \<Rightarrow>
             (case map_of (mr_providers self) pid of
                None \<Rightarrow> (Inl (key_error pid), self)
              | Some p \<Rightarrow> call_provider tk env pid p (sub_request req model pid) self)))"

text \<open>The argument \<open>r\<close> is the value of \<open>random.random()\<close> that \<open>random.uniform\<close> scales.\<close>

definition smart_route ::
  "(string \<Rightarrow> string \<Rightarrow> nat option) \<Rightarrow> rat \<Rightarrow> call_env \<Rightarrow> llm_request \<Rightarrow> mrouter
     \<Rightarrow> llm_response res \<times> mrouter" where
  "smart_route tk r env req self =
     (case smart_scores (mr_providers self) (weights (mr_config self)) of
        Inl e \<Rightarrow> (Inl e, self)
      | Inr scores \<Rightarrow>
          if total_score scores = 0 then uniform_route tk env req self
          else
            (let pick = random_uniform 0 (total_score scores) r;
                 pid = select_weighted pick scores
             in case map_of (mr_providers self) pid of
                  None \<Rightarrow> (Inl (key_error pid), self)
                | Some p \<Rightarrow> call_provider tk env pid p (sub_request req (q_model req) pid) self))"

section \<open>The router\<close>

text \<open>
  What the environment decides for one router: the readings and outcomes of a direct call, the
  value of \<open>random()\<close>, the schedule of the race, the clock readings around it. A fallback is a second router
  with an environment of its own, so \<open>mr_route\<close> takes a list of them.
\<close>

record route_env =
  direct :: call_env
  draw :: rat
  schedule :: "race_event list"
  race_start :: rat
  race_end :: rat
  fallback_now :: rat

definition race_failed :: "rat \<Rightarrow> rat \<Rightarrow> llm_response" where
  "race_failed start now =
     \<lparr>content = JStr [], a_provider = [], a_model = [], latency_ms = mr_elapsed start now,
      tokens_in = JInt 0, tokens_out = JInt 0, cost_usd = 0, finish_reason = JStr ''error'',
      a_error = Some ''All race candidates failed and no fallback configured''\<rparr>"

definition fallback_config :: "strategy_field \<Rightarrow> routing_config \<Rightarrow> routing_config" where
  "fallback_config fb cfg =
     mk_routing_config fb None (budget_per_hour cfg) (candidates cfg) (weights cfg)"

text \<open>
  The fallback router shares the dictionary of providers and the outside world with the router that
  creates it, and nothing else: its budget and statistics are dropped.
\<close>

definition fallback_router :: "rat \<Rightarrow> strategy_field \<Rightarrow> mrouter \<Rightarrow> mrouter" where
  "fallback_router now fb self =
     (new_mrouter now (fallback_config fb (mr_config self)) (mr_providers self))\<lparr>trace := trace self\<rparr>"

definition after_fallback :: "mrouter \<Rightarrow> mrouter \<Rightarrow> mrouter" where
  "after_fallback self fr = self\<lparr>mr_providers := mr_providers fr, trace := trace fr\<rparr>"

definition race_initial :: "task list \<Rightarrow> mrouter \<Rightarrow> call_phase list \<times> mrouter" where
  "race_initial ts self = (replicate (length ts) Waiting, self)"

definition active_fallback :: "mrouter \<Rightarrow> strategy_field option" where
  "active_fallback self =
     (case fallback_strategy (mr_config self) of
        None \<Rightarrow> None
      | Some fb \<Rightarrow> if strategy_field_truthy fb then Some fb else None)"

fun mr_route ::
  "(string \<Rightarrow> string \<Rightarrow> nat option) \<Rightarrow> route_env list \<Rightarrow> llm_request \<Rightarrow> mrouter
     \<Rightarrow> llm_response res option \<times> mrouter" where
  "mr_route tk [] req self = (None, self)"
| "mr_route tk (env # envs) req self =
     (let self = self\<lparr>total_requests := total_requests self + 1\<rparr>;
          strat = strategy (mr_config self)
      in if strat = Member MR_RACE then
           (case race_tasks (mr_providers self) req (candidates (mr_config self)) of
              Inl e \<Rightarrow> (Some (Inl e), self)
            | Inr ts \<Rightarrow>
                (case race_run tk ts [0..<length ts] (schedule env) (race_initial ts self) of
                   (Won r, phs, self) \<Rightarrow> (Some (Inr r), self)
                 | (StillWaiting, phs, self) \<Rightarrow> (None, self)
                 | (AllFailed, phs, self) \<Rightarrow>
                     (case active_fallback self of
                        None \<Rightarrow> (Some (Inr (race_failed (race_start env) (race_end env))), self)
                      | Some fb \<Rightarrow>
                          (case strategy_field_value fb of
                             Inl e \<Rightarrow> (Some (Inl e), self)
                           | Inr v \<Rightarrow>
                               (let (r, fr) = mr_route tk envs req (fallback_router (fallback_now env) fb self)
                                in (r, after_fallback self fr))))))
         else if strat = Member MR_SMART then
           apfst Some (smart_route tk (draw env) (direct env) req self)
         else apfst Some (uniform_route tk (direct env) req self))"

definition mr_get_stats :: "mrouter \<Rightarrow> json res" where
  "mr_get_stats self =
     rbind (tracker_get_stats (tracker self)) (\<lambda>cost.
     Inr (JObj
       [(''total_requests'', JInt (total_requests self)),
        (''race_wins'', JObj (map (\<lambda>(k, n). (k, JInt n)) (race_wins self))),
        (''errors'', JObj []),
        (''cost'', cost),
        (''provider_latencies'', JObj (map (\<lambda>(k, p). (k, JFloat (mp_latency_ms p))) (mr_providers self)))]))"

section \<open>Entry points for the Zig layer\<close>

text \<open>
  A configuration document after \<open>json.loads\<close>, with values of the declared types: the five required
  keys, and the optional ones that replace the defaults. The \<open>strategy\<close> values stay plain values.
\<close>

record config_doc =
  d_strategy :: json
  d_fallback :: json
  d_budget :: rat
  d_candidates :: "string list"
  d_weights :: "(string, int) dict"
  d_retry_count :: "int option"
  d_retry_delay_ms :: "int option"
  d_retry_on_errors :: "string list option"
  d_race_timeout_ms :: "int option"
  d_collect_all :: "bool option"

definition or_default :: "'a option \<Rightarrow> 'a \<Rightarrow> 'a" where
  "or_default x d = (case x of None \<Rightarrow> d | Some y \<Rightarrow> y)"

definition config_of_doc :: "config_doc \<Rightarrow> routing_config" where
  "config_of_doc d =
     \<lparr>strategy = Plain (d_strategy d),
      fallback_strategy = (if d_fallback d = JNull then None else Some (Plain (d_fallback d))),
      budget_per_hour = d_budget d, candidates = d_candidates d, weights = d_weights d,
      retry_count = or_default (d_retry_count d) 2,
      retry_delay_ms = or_default (d_retry_delay_ms d) 1000,
      retry_on_errors = or_default (d_retry_on_errors d) [''timeout'', ''rate_limit'', ''server_error''],
      race_timeout_ms = or_default (d_race_timeout_ms d) 5000,
      collect_all = or_default (d_collect_all d) False\<rparr>"

type_synonym router_registry_dict = "(int, mrouter) dict"

definition cffi_init_router ::
  "rat \<Rightarrow> config_doc \<Rightarrow> (string, model_provider) dict \<Rightarrow> router_registry_dict
     \<Rightarrow> int \<times> router_registry_dict" where
  "cffi_init_router now doc provs reg =
     (0, dict_set 0 (mr_start (new_mrouter now (config_of_doc doc) provs)) reg)"

definition llm_response_json :: "llm_response \<Rightarrow> json" where
  "llm_response_json r = JObj
     [(''content'', content r), (''provider'', JStr (a_provider r)), (''model'', JStr (a_model r)),
      (''latency_ms'', JFloat (latency_ms r)), (''tokens_in'', tokens_in r),
      (''tokens_out'', tokens_out r), (''cost_usd'', JFloat (cost_usd r)),
      (''finish_reason'', finish_reason r),
      (''error'', case a_error r of None \<Rightarrow> JNull | Some e \<Rightarrow> JStr e)]"

definition cffi_route_request ::
  "(string \<Rightarrow> string \<Rightarrow> nat option) \<Rightarrow> route_env list \<Rightarrow> int \<Rightarrow> llm_request \<Rightarrow> router_registry_dict
     \<Rightarrow> json res option \<times> router_registry_dict" where
  "cffi_route_request tk envs handle req reg =
     (case map_of reg handle of
        None \<Rightarrow> (Some (Inr (JObj [(''error'', JStr ''Invalid router handle'')])), reg)
      | Some router \<Rightarrow>
          (let (r, router') = mr_route tk envs req router
           in (map_option (map_sum id llm_response_json) r, dict_set handle router' reg)))"

text \<open>The loop over integer weights, and the choice for each strategy\<close>

fun pick_weight :: "rat \<Rightarrow> int \<Rightarrow> (string, int) dict \<Rightarrow> string option" where
  "pick_weight x cur [] = None"
| "pick_weight x cur ((pid, w) # ws) =
     (if x \<le> of_int (cur + w) then Some pid else pick_weight x (cur + w) ws)"

definition or_key :: "string option \<Rightarrow> string \<Rightarrow> string" where
  "or_key s d = (case s of Some t \<Rightarrow> if t = [] then d else t | None \<Rightarrow> d)"

text \<open>\<open>int(context.get("request_count", 0))\<close> of the decoded context document\<close>

definition request_count_of :: "json \<Rightarrow> int res" where
  "request_count_of ctx = rbind (get_default ctx ''request_count'' (JInt 0)) py_int"

definition choose_provider :: "routing_config \<Rightarrow> rat \<Rightarrow> json \<Rightarrow> string option res" where
  "choose_provider cfg r ctx =
     (if strategy cfg = Member MR_RACE then
        Inr (case candidates cfg of [] \<Rightarrow> None | c # cs \<Rightarrow> Some c)
      else if strategy cfg = Member MR_SMART \<and> weights cfg \<noteq> [] then
        (let total = sum_list (dict_values (weights cfg));
             selected = (if 0 < total
               then pick_weight (random_uniform 0 (of_int total) r) 0 (weights cfg) else None)
         in Inr (Some (or_key selected (fst (hd (weights cfg))))))
      else if candidates cfg \<noteq> [] then
        rbind (request_count_of ctx) (\<lambda>n.
          Inr (Some (candidates cfg ! nat (n mod int (length (candidates cfg))))))
      else Inr None)"

definition cffi_select_provider :: "config_doc \<Rightarrow> json \<Rightarrow> rat \<Rightarrow> json res" where
  "cffi_select_provider doc ctx r =
     (let cfg = config_of_doc doc in
      rbind (choose_provider cfg r ctx) (\<lambda>selected.
      rbind (strategy_field_value (strategy cfg)) (\<lambda>v.
      Inr (JObj [(''provider'', JStr (or_key selected [])), (''strategy'', v)]))))"

text \<open>
  A sequence of calls of the entry points that keep state, from an empty table of routers, with the
  answers they give.
\<close>

datatype cffi_op =
    InitRouter rat config_doc "(string, model_provider) dict"
  | RouteRequest "route_env list" int llm_request

fun cffi_step ::
  "(string \<Rightarrow> string \<Rightarrow> nat option) \<Rightarrow> cffi_op \<Rightarrow> router_registry_dict
     \<Rightarrow> json res option \<times> router_registry_dict" where
  "cffi_step tk (InitRouter now doc provs) reg =
     (let (h, reg) = cffi_init_router now doc provs reg in (Some (Inr (JInt h)), reg))"
| "cffi_step tk (RouteRequest envs h req) reg = cffi_route_request tk envs h req reg"

fun cffi_run ::
  "(string \<Rightarrow> string \<Rightarrow> nat option) \<Rightarrow> cffi_op list \<Rightarrow> router_registry_dict
     \<Rightarrow> json res option list \<times> router_registry_dict" where
  "cffi_run tk [] reg = ([], reg)"
| "cffi_run tk (op # ops) reg =
     (let (r, reg) = cffi_step tk op reg; (rs, reg) = cffi_run tk ops reg in (r # rs, reg))"

section \<open>Invariants of the router under any schedule\<close>

text \<open>
  A predicate that survives a charge and does not look at what calls change otherwise (latencies and
  the outside world) survives calls and the steps of tasks; one that does not look at the statistics
  either survives whole routes.
\<close>

locale call_invariant =
  fixes I :: "mrouter \<Rightarrow> bool"
  assumes I_charge: "I s \<Longrightarrow> I (s\<lparr>tracker := snd (charge t1 t2 c (tracker s))\<rparr>)"
    and I_outside: "I s \<Longrightarrow> I (s\<lparr>mr_providers := ps, trace := tr\<rparr>)"
begin

lemma I_effect: "I s \<Longrightarrow> I (add_effect e s)"
  using I_outside [where s = s and ps = "mr_providers s" and tr = "trace s @ [e]"] by (simp add: add_effect_def)

lemma I_latency: "I s \<Longrightarrow> I (update_latency pid l s)"
  using I_outside [where s = s and tr = "trace s"]
  by (auto simp: update_latency_def split: option.splits)

lemma I_handle_exn: "I s \<Longrightarrow> I (snd (handle_exn p req lat n e s))"
  by (simp add: handle_exn_def retry_sleep_def I_effect)

lemma I_handle_error_status: "I s \<Longrightarrow> I (snd (handle_error_status p req lat n code text s))"
  by (simp add: handle_error_status_def retry_sleep_def I_effect)

lemma I_attempt: "I s \<Longrightarrow> I (snd (attempt pid p req payload mc start env n s))"
  by (auto simp: attempt_def Let_def I_handle_exn I_handle_error_status I_effect I_latency
      split: prod.splits http_outcome.splits sum.splits)

lemma I_prepare: "I s \<Longrightarrow> I (snd (prepare_call tk t1 t2 p req s))"
  using I_charge [of s t1 t2]
  by (auto simp: prepare_call_def Let_def split: sum.splits option.splits prod.splits)
    (metis snd_conv)+

lemma I_attempt_loop:
  "I s \<Longrightarrow> I (snd (attempt_loop pid p req payload mc start envs te k n s))"
proof (induction k arbitrary: n s)
  case (Suc k)
  from I_attempt [OF Suc.prems] Suc.IH show ?case
    by (simp split: prod.splits option.splits) (metis snd_conv)
qed simp

lemma I_call: "I s \<Longrightarrow> I (snd (call_provider tk env pid p req s))"
  using I_prepare [of s tk "t_charge1 env" "t_charge2 env" p req] I_attempt_loop
  by (simp add: call_provider_def split: prod.splits sum.splits) (metis snd_conv)

lemma I_begin_task: "I s \<Longrightarrow> I (snd (begin_task tk start t1 t2 te tsk s))"
  using I_prepare [of s tk t1 t2]
  by (simp add: begin_task_def split: prod.splits sum.splits) (metis snd_conv)

lemma I_post_task: "I s \<Longrightarrow> I (snd (post_task env tsk mc payload start n te s))"
  using I_attempt [of s]
  by (simp add: post_task_def split: prod.splits option.splits) (metis snd_conv)

lemma I_task_event: "I (snd st) \<Longrightarrow> I (snd (task_event tk ts ev st))"
  by (cases st; cases ev)
    (auto simp: Let_def split: prod.splits call_phase.splits dest: I_begin_task I_post_task;
     metis I_begin_task I_post_task snd_conv)+

lemma I_uniform: "I s \<Longrightarrow> I (snd (uniform_route tk env req s))"
  by (simp add: uniform_route_def Let_def I_call split: option.splits prod.splits)

lemma I_smart: "I s \<Longrightarrow> I (snd (smart_route tk x env req s))"
  by (simp add: smart_route_def Let_def I_call I_uniform split: option.splits sum.splits)

end

locale router_invariant = call_invariant +
  assumes I_statistics: "I s \<Longrightarrow> I (s\<lparr>total_requests := n, race_wins := w\<rparr>)"
begin

lemma I_count_win: "I s \<Longrightarrow> I (count_win r s)"
  using I_statistics [where s = s and n = "total_requests s"] by (simp add: count_win_def)

lemma I_count_request: "I s \<Longrightarrow> I (s\<lparr>total_requests := n\<rparr>)"
  using I_statistics [where s = s and n = n and w = "race_wins s"] by simp

lemma I_race_run: "I (snd st) \<Longrightarrow> I (snd (snd (race_run tk ts pending evs st)))"
proof (induction tk ts pending evs st rule: race_run.induct)
  case (3 tk ts q pending ds evs phs self)
  then show ?case by (auto simp: I_count_win split: option.splits)
next
  case (4 tk ts q pending i start t1 t2 te evs phs self)
  from I_task_event [of "(phs, self)"] 4 show ?case
    by (simp only: race_run.simps snd_conv)
next
  case (5 tk ts q pending i env evs phs self)
  from I_task_event [of "(phs, self)"] 5 show ?case
    by (simp only: race_run.simps snd_conv)
qed simp_all

lemma I_after_fallback: "I s \<Longrightarrow> I (after_fallback s fr)"
  by (simp add: after_fallback_def I_outside)

lemma I_route: "I s \<Longrightarrow> I (snd (mr_route tk envs req s))"
proof (cases envs)
  case (Cons env es)
  assume "I s"
  let ?s = "s\<lparr>total_requests := total_requests s + 1\<rparr>"
  have s: "I ?s" using \<open>I s\<close> by (rule I_count_request)
  have race: "I (snd (snd (race_run tk ts ps evs (race_initial ts ?s))))" for ts ps evs
    by (rule I_race_run) (simp add: race_initial_def s)
  have "I s'" if "race_run tk ts ps evs (race_initial ts ?s) = (out, phs, s')" for ts ps evs out phs s'
    using race [of ts ps evs] that by simp
  with s show ?thesis
    by (auto simp: Cons Let_def I_smart I_uniform I_after_fallback
        split: sum.splits prod.splits race_outcome.splits option.splits)
qed simp

end

interpretation budget_inv: router_invariant
  "\<lambda>s. tracker_ok (tracker s) \<and> hourly_budget (tracker s) = b"
  by unfold_locales (simp_all add: charge_def charge_tracker_ok)

interpretation config_inv: router_invariant "\<lambda>s. mr_config s = cfg \<and> mr_session s = x"
  by unfold_locales simp_all

interpretation statistics_inv: call_invariant "\<lambda>s. race_wins s = w \<and> total_requests s = n"
  by unfold_locales simp_all

lemma task_event_session: "mr_session (snd (task_event tk ts ev (phs, s))) = mr_session s"
  using config_inv.I_task_event [of "(phs, s)" "mr_config s" "mr_session s" tk ts ev]
  by (simp del: task_event.simps)

lemma race_run_config:
  "race_run tk ts pending evs (phs, s) = (out, phs', s') \<Longrightarrow>
   mr_config s' = mr_config s \<and> mr_session s' = mr_session s"
  using config_inv.I_race_run [of "(phs, s)" "mr_config s" "mr_session s" tk ts pending evs] by simp

section \<open>Running a race\<close>

definition is_success :: "call_phase \<Rightarrow> bool" where
  "is_success ph \<longleftrightarrow> (case ph of Finished (Inr r) \<Rightarrow> a_error r = None | _ \<Rightarrow> False)"

lemma first_success_None: "first_success phs ds = None \<longleftrightarrow> (\<forall>i \<in> set ds. \<not> is_success (phs ! i))"
  by (induction ds) (auto simp: is_success_def split: call_phase.splits sum.splits)

lemma first_success_Some:
  "first_success phs ds = Some r \<Longrightarrow>
   \<exists>xs i ys. ds = xs @ i # ys \<and> (\<forall>j \<in> set xs. \<not> is_success (phs ! j))
     \<and> phs ! i = Finished (Inr r) \<and> a_error r = None"
proof (induction ds)
  case (Cons d ds)
  show ?case
  proof (cases "is_success (phs ! d)")
    case True
    with Cons.prems have "phs ! d = Finished (Inr r) \<and> a_error r = None"
      by (auto simp: is_success_def split: call_phase.splits sum.splits)
    then show ?thesis by (intro exI [of _ "[]"] exI [of _ d] exI [of _ ds]) simp
  next
    case False
    with Cons.prems have "first_success phs ds = Some r"
      by (auto simp: is_success_def split: call_phase.splits sum.splits)
    with Cons.IH obtain xs i ys where "ds = xs @ i # ys" "\<forall>j \<in> set xs. \<not> is_success (phs ! j)"
      "phs ! i = Finished (Inr r)" "a_error r = None" by blast
    with False show ?thesis by (intro exI [of _ "d # xs"] exI [of _ i] exI [of _ ys]) simp
  qed
qed simp

lemma success_finished: "is_success ph \<Longrightarrow> is_finished ph"
  by (simp add: is_success_def is_finished_def split: call_phase.splits)

lemma task_event_length [simp]: "length (fst (task_event tk ts ev st)) = length (fst st)"
  by (cases st; cases ev) (auto simp: Let_def split: prod.splits call_phase.splits)

lemma task_event_finished:
  "is_finished (fst st ! i) \<Longrightarrow> fst (task_event tk ts ev st) ! i = fst st ! i"
  by (cases st; cases ev)
    (auto simp: Let_def is_finished_def nth_list_update split: prod.splits call_phase.splits)

lemma task_event_statistics:
  "race_wins (snd (task_event tk ts ev (phs, s))) = race_wins s"
  "total_requests (snd (task_event tk ts ev (phs, s))) = total_requests s"
  using statistics_inv.I_task_event [of "(phs, s)" "race_wins s" "total_requests s" tk ts ev] by simp_all

text \<open>Finished tasks stay as they are, and the statistics move only when the race is won.\<close>

lemma race_run_keeps:
  "race_run tk ts pending evs st = (out, phs', s') \<Longrightarrow>
   length phs' = length (fst st)
   \<and> (\<forall>i. is_finished (fst st ! i) \<longrightarrow> phs' ! i = fst st ! i)
   \<and> total_requests s' = total_requests (snd st)
   \<and> (case out of Won r \<Rightarrow> race_wins s' = race_wins (count_win r (snd st)) | _ \<Rightarrow> race_wins s' = race_wins (snd st))"
proof (induction tk ts pending evs st rule: race_run.induct)
  case (3 tk ts q pending ds evs phs self)
  then show ?case by (auto simp: count_win_def split: option.splits if_splits)
next
  case (4 tk ts q pending i start t1 t2 te evs phs self)
  let ?ev = "Begin i start t1 t2 te"
  have "race_run tk ts (q # pending) evs (task_event tk ts ?ev (phs, self)) = (out, phs', s')"
    using "4.prems" by (simp only: race_run.simps)
  from "4.IH" [OF this] task_event_finished [of "(phs, self)" _ tk ts ?ev]
    task_event_statistics [of tk ts ?ev phs self] task_event_length [of tk ts ?ev "(phs, self)"]
  show ?case by (simp only: fst_conv snd_conv count_win_def) (auto split: race_outcome.splits)
next
  case (5 tk ts q pending i env evs phs self)
  let ?ev = "Outcome i env"
  have "race_run tk ts (q # pending) evs (task_event tk ts ?ev (phs, self)) = (out, phs', s')"
    using "5.prems" by (simp only: race_run.simps)
  from "5.IH" [OF this] task_event_finished [of "(phs, self)" _ tk ts ?ev]
    task_event_statistics [of tk ts ?ev phs self] task_event_length [of tk ts ?ev "(phs, self)"]
  show ?case by (simp only: fst_conv snd_conv count_win_def) (auto split: race_outcome.splits)
qed auto

lemma race_run_all_failed:
  "race_run tk ts pending evs st = (AllFailed, phs', s') \<Longrightarrow>
   \<forall>i \<in> set pending. is_finished (phs' ! i) \<and> \<not> is_success (phs' ! i)"
proof (induction tk ts pending evs st rule: race_run.induct)
  case (3 tk ts q pending ds evs phs self)
  show ?case
  proof (cases "wake_enabled phs (q # pending) ds")
    case True
    then have fin: "\<forall>i \<in> set ds. is_finished (phs ! i)" by (simp add: wake_enabled_def)
    from True "3.prems" have none: "first_success phs ds = None" by (simp split: option.splits)
    with True "3.prems" have
      rest: "race_run tk ts (filter (\<lambda>i. i \<notin> set ds) (q # pending)) evs (phs, self) = (AllFailed, phs', s')"
      by simp
    note ih = "3.IH"(1) [OF True none rest] and keep = race_run_keeps [OF rest]
    show ?thesis
    proof
      fix i assume "i \<in> set (q # pending)"
      then show "is_finished (phs' ! i) \<and> \<not> is_success (phs' ! i)"
        using ih keep fin none [unfolded first_success_None] by (cases "i \<in> set ds") auto
    qed
  next
    case False
    with "3.prems" "3.IH"(2) show ?thesis by simp
  qed
next
  case (4 tk ts q pending i start t1 t2 te evs phs self)
  show ?case by (rule "4.IH") (use "4.prems" in \<open>simp only: race_run.simps\<close>)
next
  case (5 tk ts q pending i env evs phs self)
  show ?case by (rule "5.IH") (use "5.prems" in \<open>simp only: race_run.simps\<close>)
qed simp_all

text \<open>A race is won at the first wake-up that finds a success; until then it was waiting.\<close>

lemma race_run_won:
  "race_run tk ts pending evs st = (Won r, phs', s') \<Longrightarrow>
   \<exists>evs1 ds evs2 s1. evs = evs1 @ Wake ds # evs2
     \<and> race_run tk ts pending evs1 st = (StillWaiting, phs', s1)
     \<and> first_success phs' ds = Some r \<and> s' = count_win r s1"
proof (induction tk ts pending evs st rule: race_run.induct)
  case (3 tk ts q pending ds evs phs self)
  show ?case
  proof (cases "wake_enabled phs (q # pending) ds")
    case True
    show ?thesis
    proof (cases "first_success phs ds")
      case (Some r0)
      with True "3.prems" show ?thesis
        by (intro exI [of _ "[]"] exI [of _ ds] exI [of _ evs] exI [of _ self]) auto
    next
      case None
      with True "3.prems" have rest:
        "race_run tk ts (filter (\<lambda>i. i \<notin> set ds) (q # pending)) evs (phs, self) = (Won r, phs', s')" by simp
      from "3.IH"(1) [OF True None rest] obtain evs1 ds' evs2 s1 where
        "evs = evs1 @ Wake ds' # evs2"
        "race_run tk ts (filter (\<lambda>i. i \<notin> set ds) (q # pending)) evs1 (phs, self) = (StillWaiting, phs', s1)"
        "first_success phs' ds' = Some r \<and> s' = count_win r s1" by blast
      with True None show ?thesis
        by (intro exI [of _ "Wake ds # evs1"] exI [of _ ds'] exI [of _ evs2] exI [of _ s1]) simp
    qed
  next
    case False
    with "3.prems" have "race_run tk ts (q # pending) evs (phs, self) = (Won r, phs', s')" by simp
    from "3.IH"(2) [OF False this] obtain evs1 ds' evs2 s1 where
      "evs = evs1 @ Wake ds' # evs2"
      "race_run tk ts (q # pending) evs1 (phs, self) = (StillWaiting, phs', s1)"
      "first_success phs' ds' = Some r \<and> s' = count_win r s1" by blast
    with False show ?thesis
      by (intro exI [of _ "Wake ds # evs1"] exI [of _ ds'] exI [of _ evs2] exI [of _ s1]) simp
  qed
next
  case (4 tk ts q pending i start t1 t2 te evs phs self)
  let ?ev = "Begin i start t1 t2 te"
  have "race_run tk ts (q # pending) evs (task_event tk ts ?ev (phs, self)) = (Won r, phs', s')"
    using "4.prems" by (simp only: race_run.simps)
  from "4.IH" [OF this] obtain evs1 ds evs2 s1 where
    "evs = evs1 @ Wake ds # evs2"
    "race_run tk ts (q # pending) evs1 (task_event tk ts ?ev (phs, self)) = (StillWaiting, phs', s1)"
    "first_success phs' ds = Some r \<and> s' = count_win r s1" by blast
  then show ?case
    by (intro exI [of _ "?ev # evs1"] exI [of _ ds] exI [of _ evs2] exI [of _ s1])
      (simp del: task_event.simps)
next
  case (5 tk ts q pending i env evs phs self)
  let ?ev = "Outcome i env"
  have "race_run tk ts (q # pending) evs (task_event tk ts ?ev (phs, self)) = (Won r, phs', s')"
    using "5.prems" by (simp only: race_run.simps)
  from "5.IH" [OF this] obtain evs1 ds evs2 s1 where
    "evs = evs1 @ Wake ds # evs2"
    "race_run tk ts (q # pending) evs1 (task_event tk ts ?ev (phs, self)) = (StillWaiting, phs', s1)"
    "first_success phs' ds = Some r \<and> s' = count_win r s1" by blast
  then show ?case
    by (intro exI [of _ "?ev # evs1"] exI [of _ ds] exI [of _ evs2] exI [of _ s1])
      (simp del: task_event.simps)
qed simp_all

section \<open>A task is a call\<close>

lemma outcomes_of_finished:
  "is_finished (phs ! 0) \<Longrightarrow> length phs = 1 \<Longrightarrow>
   fold (task_event tk ts) (map (\<lambda>n. Outcome 0 (envs n)) ns) (phs, s) = (phs, s)"
  by (induction ns) (auto simp: is_finished_def split: call_phase.splits)

lemma task_runs_the_loop:
  assumes "int n + int (Suc k) = retry_count (mr_config s) + 1"
  shows "fold (task_event tk [(pid, p, req)]) (map (\<lambda>n. Outcome 0 (envs n)) [n..<n + Suc k])
       ([Posting mc payload start n], s)
     = (let (a, s') = attempt_loop pid p req payload mc start envs te (Suc k) n s
        in ([Finished (Inr a)], s'))"
  using assms
proof (induction k arbitrary: n s)
  case 0
  obtain r s1 where at: "attempt pid p req payload mc start (envs n) n s = (r, s1)" by fastforce
  with attempt_frame [OF at] 0 have "r \<noteq> None" by auto
  with at show ?case by (auto simp: post_task_def)
next
  case (Suc k)
  obtain r s1 where at: "attempt pid p req payload mc start (envs n) n s = (r, s1)" by fastforce
  have split: "[n..<n + Suc (Suc k)] = n # [Suc n..<Suc n + Suc k]" by (simp add: upt_conv_Cons)
  show ?case
  proof (cases r)
    case (Some a)
    with at show ?thesis
      unfolding split
      by (simp add: post_task_def outcomes_of_finished is_finished_def del: upt_Suc)
  next
    case None
    have cfg: "mr_config s1 = mr_config s" using attempt_frame [OF at] by (simp add: same_router_def)
    then have "int (Suc n) + int (Suc k) = retry_count (mr_config s1) + 1" using Suc.prems by simp
    from Suc.IH [OF this] at None cfg Suc.prems show ?thesis
      unfolding split by (simp add: post_task_def next_phase_def del: upt_Suc)
  qed
qed

text \<open>
  C7: the task steps refine the call. A task that runs alone, from its first step through one outcome
  per pass of the retry loop, ends with the result and the router of \<open>call_provider\<close>.
\<close>

theorem task_is_the_call:
  "fold (task_event tk [(pid, p, req)])
      (Begin 0 (t_start env) (t_charge1 env) (t_charge2 env) (t_end env)
        # map (\<lambda>n. Outcome 0 (posts env n)) [0..<nat (retry_count (mr_config s) + 1)])
      ([Waiting], s)
   = (let (r, s') = call_provider tk env pid p req s in ([Finished r], s'))"
proof -
  obtain r s1 where pr: "prepare_call tk (t_charge1 env) (t_charge2 env) p req s = (r, s1)" by fastforce
  have cfg: "mr_config s1 = mr_config s" using prepare_call_frame [OF pr] by (simp add: same_router_def)
  show ?thesis
  proof (cases r)
    case (Inl x)
    with pr show ?thesis
      by (simp add: begin_task_def call_provider_def outcomes_of_finished is_finished_def)
  next
    case (Inr x)
    obtain mc pl where x: "r = Inr (mc, pl)" using Inr by (cases x) simp
    show ?thesis
    proof (cases "0 \<le> retry_count (mr_config s)")
      case True
      then have n: "nat (retry_count (mr_config s) + 1) = Suc (nat (retry_count (mr_config s)))" by simp
      have k: "int 0 + int (Suc (nat (retry_count (mr_config s)))) = retry_count (mr_config s1) + 1"
        using True cfg by simp
      from task_runs_the_loop [OF k, of tk pid p req "posts env" mc pl "t_start env" "t_end env"]
        pr x cfg True
      show ?thesis
        by (simp add: n begin_task_def call_provider_def next_phase_def Let_def split: prod.splits
            del: upt_Suc attempt_loop.simps)
    next
      case False
      with pr x cfg show ?thesis
        by (simp add: begin_task_def call_provider_def next_phase_def)
    qed
  qed
qed

section \<open>A race is bounded\<close>

fun enabled :: "race_event \<Rightarrow> call_phase list \<Rightarrow> bool" where
  "enabled (Begin i start t1 t2 te) phs \<longleftrightarrow> i < length phs \<and> phs ! i = Waiting"
| "enabled (Outcome i env) phs \<longleftrightarrow>
     i < length phs \<and> (case phs ! i of Posting mc payload start n \<Rightarrow> True | _ \<Rightarrow> False)"
| "enabled (Wake ds) phs \<longleftrightarrow> False"

text \<open>The number of task steps in a schedule that do something\<close>

fun enabled_count ::
  "(string \<Rightarrow> string \<Rightarrow> nat option) \<Rightarrow> task list \<Rightarrow> race_event list \<Rightarrow> call_phase list \<times> mrouter \<Rightarrow> nat"
  where
  "enabled_count tk ts [] st = 0"
| "enabled_count tk ts (ev # evs) st =
     (if enabled ev (fst st) then 1 else 0) + enabled_count tk ts evs (task_event tk ts ev st)"

definition steps_left :: "int \<Rightarrow> call_phase \<Rightarrow> nat" where
  "steps_left rc ph =
     (case ph of Waiting \<Rightarrow> Suc (nat (rc + 1)) | Posting mc payload start n \<Rightarrow> nat (rc + 1 - int n)
      | Finished r \<Rightarrow> 0)"

definition phase_ok :: "int \<Rightarrow> call_phase \<Rightarrow> bool" where
  "phase_ok rc ph \<longleftrightarrow> (case ph of Posting mc payload start n \<Rightarrow> int n < rc + 1 | _ \<Rightarrow> True)"

lemma next_phase_left:
  "phase_ok (retry_count cfg) (next_phase p req cfg mc payload start t n)"
  "steps_left (retry_count cfg) (next_phase p req cfg mc payload start t n) \<le> nat (retry_count cfg + 1 - int n)"
  by (simp_all add: next_phase_def phase_ok_def steps_left_def)

lemma begin_task_left:
  assumes "begin_task tk start t1 t2 te tsk s = (ph, s')"
  shows "phase_ok (retry_count (mr_config s)) ph
     \<and> steps_left (retry_count (mr_config s)) ph < steps_left (retry_count (mr_config s)) Waiting
     \<and> mr_config s' = mr_config s"
proof -
  obtain pid p req where tsk: "tsk = (pid, p, req)" by (cases tsk)
  obtain r s1 where pr: "prepare_call tk t1 t2 p req s = (r, s1)" by fastforce
  have "mr_config s1 = mr_config s" using prepare_call_frame [OF pr] by (simp add: same_router_def)
  with assms pr tsk next_phase_left [of "mr_config s"] show ?thesis
    by (auto simp: begin_task_def phase_ok_def steps_left_def split: sum.splits)
      (auto simp: next_phase_def split: if_splits)
qed

lemma post_task_left:
  assumes "post_task env tsk mc payload start n te s = (ph, s')" "int n < retry_count (mr_config s) + 1"
  shows "phase_ok (retry_count (mr_config s)) ph
     \<and> steps_left (retry_count (mr_config s)) ph
         < steps_left (retry_count (mr_config s)) (Posting mc payload start n)
     \<and> mr_config s' = mr_config s"
proof -
  obtain pid p req where tsk: "tsk = (pid, p, req)" by (cases tsk)
  obtain r s1 where at: "attempt pid p req payload mc start env n s = (r, s1)" by fastforce
  have "mr_config s1 = mr_config s" using attempt_frame [OF at] by (simp add: same_router_def)
  with assms at tsk show ?thesis
    by (cases r) (auto simp: post_task_def phase_ok_def steps_left_def next_phase_def split: if_splits)
qed

definition work_left :: "int \<Rightarrow> call_phase list \<Rightarrow> nat" where
  "work_left rc phs = sum_list (map (steps_left rc) phs)"

lemma work_left_update:
  assumes "i < length phs" "steps_left rc ph < steps_left rc (phs ! i)"
  shows "work_left rc (phs[i := ph]) < work_left rc phs"
proof -
  have "steps_left rc (phs ! i) \<le> work_left rc phs"
    unfolding work_left_def using assms(1) by (intro member_le_sum_list) simp_all
  with assms show ?thesis
    by (simp add: work_left_def map_update sum_list_update)
qed

lemma task_event_left:
  assumes "list_all (phase_ok (retry_count cfg)) (fst st)" "mr_config (snd st) = cfg"
  shows "list_all (phase_ok (retry_count cfg)) (fst (task_event tk ts ev st))
     \<and> mr_config (snd (task_event tk ts ev st)) = cfg
     \<and> work_left (retry_count cfg) (fst (task_event tk ts ev st)) + (if enabled ev (fst st) then 1 else 0)
         \<le> work_left (retry_count cfg) (fst st)"
proof (cases "enabled ev (fst st)")
  case False
  then have "task_event tk ts ev st = st"
    by (cases st; cases ev) (auto split: call_phase.splits)
  with False assms show ?thesis by simp
next
  case True
  obtain phs s where st: "st = (phs, s)" by (cases st)
  have "\<exists>i ph s'. task_event tk ts ev st = (phs[i := ph], s') \<and> i < length phs
      \<and> phase_ok (retry_count cfg) ph \<and> steps_left (retry_count cfg) ph < steps_left (retry_count cfg) (phs ! i)
      \<and> mr_config s' = cfg"
  proof (cases ev)
    case (Begin i start t1 t2 te)
    obtain ph s' where b: "begin_task tk start t1 t2 te (ts ! i) s = (ph, s')" by fastforce
    from begin_task_left [OF b] True assms(2) b show ?thesis
      by (intro exI [of _ i] exI [of _ ph] exI [of _ s']) (simp add: Begin st)
  next
    case (Outcome i env)
    with True st obtain mc payload start n where i: "i < length phs" "phs ! i = Posting mc payload start n"
      by (auto split: call_phase.splits)
    with assms(1) st have n: "int n < retry_count cfg + 1"
      by (auto simp: list_all_length phase_ok_def split: call_phase.splits)
    obtain ph s' where b: "post_task env (ts ! i) mc payload start n (snd (snd env)) s = (ph, s')" by fastforce
    from post_task_left [OF b] n assms(2) b i show ?thesis
      by (intro exI [of _ i] exI [of _ ph] exI [of _ s']) (simp add: Outcome st)
  next
    case (Wake ds)
    with True show ?thesis by simp
  qed
  then obtain i ph s' where e: "task_event tk ts ev st = (phs[i := ph], s')" "i < length phs"
    "phase_ok (retry_count cfg) ph" "steps_left (retry_count cfg) ph < steps_left (retry_count cfg) (phs ! i)"
    "mr_config s' = cfg" by blast
  moreover have "list_all (phase_ok (retry_count cfg)) (phs[i := ph])"
    using assms(1) e(2,3) st by (simp add: list_all_length nth_list_update)
  ultimately show ?thesis using work_left_update [OF e(2,4)] st by simp
qed

lemma enabled_count_le:
  "list_all (phase_ok (retry_count (mr_config (snd st)))) (fst st) \<Longrightarrow>
   enabled_count tk ts evs st \<le> work_left (retry_count (mr_config (snd st))) (fst st)"
proof (induction evs arbitrary: st)
  case (Cons ev evs)
  note e = task_event_left [OF Cons.prems refl, of tk ts ev]
  then have "enabled_count tk ts evs (task_event tk ts ev st)
      \<le> work_left (retry_count (mr_config (snd st))) (fst (task_event tk ts ev st))"
    using Cons.IH [of "task_event tk ts ev st"] by simp
  with e show ?case by simp
qed simp

text \<open>
  C8: a race is bounded under every schedule. Its tasks together make at most
  \<open>retry_count + 2\<close> steps per candidate, and once all pending tasks have finished, the next wake-up of
  \<open>asyncio.wait\<close> decides the race, in whatever order it hands the finished tasks over.
\<close>

theorem race_is_bounded:
  "enabled_count tk ts evs (race_initial ts self)
     \<le> length ts * Suc (nat (retry_count (mr_config self) + 1))
   \<and> (list_all (\<lambda>i. is_finished (phs ! i)) pending \<and> distinct ds \<and> set ds = set pending \<longrightarrow>
      fst (race_run tk ts pending (Wake ds # evs) (phs, self)) \<noteq> StillWaiting)"
proof
  have "list_all (phase_ok rc) (replicate (length ts) Waiting)" for rc
    by (simp add: list_all_iff phase_ok_def)
  from enabled_count_le [of "race_initial ts self" tk ts evs] this
  show "enabled_count tk ts evs (race_initial ts self)
     \<le> length ts * Suc (nat (retry_count (mr_config self) + 1))"
    by (simp add: race_initial_def work_left_def steps_left_def sum_list_replicate)
next
  show "list_all (\<lambda>i. is_finished (phs ! i)) pending \<and> distinct ds \<and> set ds = set pending \<longrightarrow>
      fst (race_run tk ts pending (Wake ds # evs) (phs, self)) \<noteq> StillWaiting"
  proof
    assume fin: "list_all (\<lambda>i. is_finished (phs ! i)) pending \<and> distinct ds \<and> set ds = set pending"
    then have "wake_enabled phs pending ds" by (auto simp: wake_enabled_def list_all_iff)
    moreover have "filter (\<lambda>i. i \<notin> set ds) pending = []" using fin by (simp add: filter_empty_conv)
    ultimately show "fst (race_run tk ts pending (Wake ds # evs) (phs, self)) \<noteq> StillWaiting"
      by (cases pending) (simp_all split: option.splits)
  qed
qed

theorem race_is_bounded_witness:
  "fst (race_run (\<lambda>_ _. None) [] [0, 1] [Wake [1, 0]]
     (replicate 2 (Finished (Inl bad_candidate)), sample_router (Member MR_RACE) None)) \<noteq> StillWaiting"
proof -
  have "list_all (\<lambda>i. is_finished (replicate 2 (Finished (Inl bad_candidate)) ! i)) [0, 1]
      \<and> distinct [1, 0 :: nat] \<and> set [1, 0 :: nat] = set [0, 1]"
    by (auto simp: is_finished_def)
  with race_is_bounded [of "\<lambda>_ _. None" "[]" "[]" "sample_router (Member MR_RACE) None"
      "replicate 2 (Finished (Inl bad_candidate))" "[0, 1]" "[1, 0]"]
  show ?thesis by blast
qed

text \<open>
  C1: the race returns the first success. If a race is won, the schedule has a wake-up before which
  the race was still waiting and whose awaited tasks start with failures followed by a finished task
  with the returned response, which carries no error; one win is counted for its provider, and no
  statistics moved before.
\<close>

theorem race_returns_first_success:
  assumes "race_run tk ts pending evs (phs, s) = (Won r, phs', s')"
  shows "\<exists>evs1 xs i ys evs2 s1. evs = evs1 @ Wake (xs @ i # ys) # evs2
     \<and> race_run tk ts pending evs1 (phs, s) = (StillWaiting, phs', s1)
     \<and> list_all (\<lambda>j. \<not> is_success (phs' ! j)) xs
     \<and> phs' ! i = Finished (Inr r) \<and> a_error r = None
     \<and> s' = count_win r s1 \<and> race_wins s1 = race_wins s"
proof -
  from race_run_won [OF assms] obtain evs1 ds evs2 s1 where w: "evs = evs1 @ Wake ds # evs2"
    "race_run tk ts pending evs1 (phs, s) = (StillWaiting, phs', s1)"
    "first_success phs' ds = Some r" "s' = count_win r s1" by blast
  from first_success_Some [OF w(3)] obtain xs i ys where "ds = xs @ i # ys"
    "\<forall>j \<in> set xs. \<not> is_success (phs' ! j)" "phs' ! i = Finished (Inr r)" "a_error r = None" by blast
  with w race_run_keeps [OF w(2)] show ?thesis
    by (intro exI [of _ evs1] exI [of _ xs] exI [of _ i] exI [of _ ys] exI [of _ evs2] exI [of _ s1])
      (simp add: list_all_iff)
qed

text \<open>The sample race: one task that gets a good reply at once.\<close>

definition sample_race :: "race_outcome \<times> call_phase list \<times> mrouter" where
  "sample_race = race_run (\<lambda>_ _. None) [(''p'', sample_provider, sample_request)] [0]
     [Begin 0 0 0 0 0, Wake [], Outcome 0 (HttpReply 200 (Inr sample_reply) (Inr []), 0, 0), Wake [0]]
     ([Waiting], sample_router (Member MR_RACE) None)"

theorem race_returns_first_success_witness:
  "\<exists>r. fst sample_race = Won r \<and> a_error r = None"
proof -
  have "case sample_race of (Won r, phs, s) \<Rightarrow> True | _ \<Rightarrow> False" by code_simp
  then obtain r phs' s' where "sample_race = (Won r, phs', s')"
    by (auto split: prod.splits race_outcome.splits)
  with race_returns_first_success [of "\<lambda>_ _. None" "[(''p'', sample_provider, sample_request)]" "[0]"
      "[Begin 0 0 0 0 0, Wake [], Outcome 0 (HttpReply 200 (Inr sample_reply) (Inr []), 0, 0), Wake [0]]"
      "[Waiting]" "sample_router (Member MR_RACE) None" r phs' s']
  show ?thesis by (auto simp: sample_race_def)
qed

text \<open>
  C13: a race fails only when everybody failed. When the loop over the pending tasks ends without a
  winner, every task has finished, with an exception or an error response, and no win is counted.
\<close>

theorem race_fails_only_if_all_failed:
  assumes "race_run tk ts pending evs (phs, s) = (AllFailed, phs', s')"
  shows "list_all (\<lambda>i. is_finished (phs' ! i) \<and> \<not> is_success (phs' ! i)) pending
     \<and> race_wins s' = race_wins s"
  using race_run_all_failed [OF assms] race_run_keeps [OF assms] by (auto simp: list_all_iff)

theorem race_fails_only_if_all_failed_witness:
  "let (out, phs, s) = race_run (\<lambda>_ _. None) [] [0] [Wake [0]]
         ([Finished (Inl bad_candidate)], sample_router (Member MR_RACE) None)
   in out = AllFailed \<and> \<not> is_success (phs ! 0)"
proof -
  have r: "race_run (\<lambda>_ _. None) [] [0] [Wake [0]]
         ([Finished (Inl bad_candidate)], sample_router (Member MR_RACE) None)
       = (AllFailed, [Finished (Inl bad_candidate)], sample_router (Member MR_RACE) None)"
    by (simp add: wake_enabled_def is_finished_def)
  from race_fails_only_if_all_failed [OF r] show ?thesis unfolding r by simp
qed

text \<open>
  C2: the budget holds under every schedule. Whatever route is taken and however the tasks of a race
  interleave, the spending recorded in the router's tracker stays within the hourly budget.
\<close>

theorem route_within_budget:
  assumes "0 \<le> budget_per_hour cfg"
  shows "hourly_spent (tracker (snd (mr_route tk envs req (mr_start (new_mrouter now cfg provs)))))
     \<le> budget_per_hour cfg"
proof -
  let ?s = "mr_start (new_mrouter now cfg provs)"
  have "tracker_ok (tracker ?s) \<and> hourly_budget (tracker ?s) = budget_per_hour cfg"
    using new_tracker_ok [OF assms] by (simp add: mr_start_def new_mrouter_def new_cost_tracker_def)
  from budget_inv.I_route [OF this, of tk envs req] show ?thesis by (simp add: tracker_ok_def)
qed

definition sample_route_env :: route_env where
  "sample_route_env = \<lparr>direct = sample_env (\<lambda>_. HttpReply 200 (Inr sample_reply) (Inr [])), draw = 0,
     schedule = [Begin 0 0 0 0 0, Outcome 0 (HttpReply 500 (Inr JNull) (Inr []), 0, 0), Wake [0]],
     race_start = 0, race_end = 0, fallback_now = 0\<rparr>"

theorem route_within_budget_witness:
  "hourly_spent (tracker (snd (mr_route (\<lambda>_ _. None) [sample_route_env] sample_request
     (mr_start (new_mrouter 0 (mk_routing_config (Member MR_RACE) None 1 [''p/m''] [])
        [(''p'', sample_provider)]))))) \<le> 1"
  using route_within_budget [of "mk_routing_config (Member MR_RACE) None 1 [''p/m''] []" "\<lambda>_ _. None"
      "[sample_route_env]" sample_request 0 "[(''p'', sample_provider)]"]
  by (simp add: mk_routing_config_def)

section \<open>The fallback\<close>

text \<open>A router without a session: no task and no call succeeds.\<close>

definition failed_call :: "llm_response res \<Rightarrow> bool" where
  "failed_call r \<longleftrightarrow> (case r of Inl e \<Rightarrow> True | Inr a \<Rightarrow> a_error a \<noteq> None)"

lemma failed_call_simps [simp]:
  "failed_call (Inl e)" "failed_call (Inr a) \<longleftrightarrow> a_error a \<noteq> None"
  by (simp_all add: failed_call_def)

lemma prepare_call_failed:
  assumes "prepare_call tk t1 t2 p req s = (Inl r, s')"
  shows "failed_call r"
  using assms
  by (auto simp: prepare_call_def error_response_def Let_def
      split: sum.splits option.splits prod.splits if_splits)

lemma attempt_no_session:
  assumes "attempt pid p req payload mc start env n s = (Some r, s')" "mr_session s = NoSession"
  shows "a_error r \<noteq> None"
  using assms
  by (auto simp: attempt_def handle_exn_def error_response_def Let_def split: prod.splits if_splits)

lemma next_phase_failed: "\<not> is_success (next_phase p req cfg mc payload start t n)"
  by (simp add: next_phase_def is_success_def exhausted_def error_response_def)

lemma is_success_Finished [simp]: "is_success (Finished r) \<longleftrightarrow> \<not> failed_call r"
  by (cases r) (simp_all add: is_success_def)

lemma task_event_no_session:
  assumes "mr_session s = NoSession" "list_all (\<lambda>ph. \<not> is_success ph) phs"
  shows "list_all (\<lambda>ph. \<not> is_success ph) (fst (task_event tk ts ev (phs, s)))"
proof (cases ev)
  case (Begin i start t1 t2 te)
  obtain pid p req where tsk: "ts ! i = (pid, p, req)" by (cases "ts ! i")
  obtain r s1 where pr: "prepare_call tk t1 t2 p req s = (r, s1)" by fastforce
  have "\<not> is_success (fst (begin_task tk start t1 t2 te (ts ! i) s))"
    using pr tsk by (auto simp: begin_task_def next_phase_failed split: sum.splits dest: prepare_call_failed)
  with assms Begin show ?thesis by (auto simp: list_all_length nth_list_update split: prod.splits)
next
  case (Outcome i env)
  obtain pid p req where tsk: "ts ! i = (pid, p, req)" by (cases "ts ! i")
  have "\<not> is_success (fst (post_task env (ts ! i) mc payload start n te s))" for mc payload start n te
    using assms(1) tsk
    by (auto simp: post_task_def next_phase_failed split: prod.splits option.splits dest: attempt_no_session)
  with assms Outcome show ?thesis
    by (auto simp: list_all_length nth_list_update split: prod.splits call_phase.splits) (metis fst_conv)+
next
  case (Wake ds)
  with assms show ?thesis by simp
qed

lemma race_run_no_session:
  "race_run tk ts pending evs st = (out, phs', s') \<Longrightarrow> mr_session (snd st) = NoSession \<Longrightarrow>
   list_all (\<lambda>ph. \<not> is_success ph) (fst st) \<Longrightarrow> list_all (\<lambda>i. i < length (fst st)) pending \<Longrightarrow>
   \<forall>r. out \<noteq> Won r"
proof (induction tk ts pending evs st rule: race_run.induct)
  case (3 tk ts q pending ds evs phs self)
  show ?case
  proof (cases "wake_enabled phs (q # pending) ds")
    case True
    then have "set ds \<subseteq> set (q # pending)" by (auto simp: wake_enabled_def)
    moreover have "\<forall>i < length phs. \<not> is_success (phs ! i)" using "3.prems"(3) by (simp add: list_all_length)
    moreover have "\<forall>i \<in> set (q # pending). i < length phs" using "3.prems"(4) by (simp add: list_all_iff)
    ultimately have "\<forall>i \<in> set ds. \<not> is_success (phs ! i)" by blast
    then have none: "first_success phs ds = None" by (simp add: first_success_None)
    show ?thesis
    proof (rule "3.IH"(1) [OF True none])
      show "race_run tk ts (filter (\<lambda>i. i \<notin> set ds) (q # pending)) evs (phs, self) = (out, phs', s')"
        using True none "3.prems"(1) by simp
    qed (use "3.prems" in \<open>simp_all add: list_all_iff\<close>)
  next
    case False
    with "3.prems" "3.IH"(2) show ?thesis by simp
  qed
next
  case (4 tk ts q pending i start t1 t2 te evs phs self)
  let ?ev = "Begin i start t1 t2 te"
  have run: "race_run tk ts (q # pending) evs (task_event tk ts ?ev (phs, self)) = (out, phs', s')"
    using "4.prems"(1) by (simp only: race_run.simps)
  have "mr_session (snd (task_event tk ts ?ev (phs, self))) = NoSession"
    using "4.prems"(2) by (simp add: task_event_session del: task_event.simps)
  with "4.IH" [OF run] task_event_no_session [of self phs tk ts ?ev] "4.prems" show ?case
    by (simp del: task_event.simps)
next
  case (5 tk ts q pending i env evs phs self)
  let ?ev = "Outcome i env"
  have run: "race_run tk ts (q # pending) evs (task_event tk ts ?ev (phs, self)) = (out, phs', s')"
    using "5.prems"(1) by (simp only: race_run.simps)
  have "mr_session (snd (task_event tk ts ?ev (phs, self))) = NoSession"
    using "5.prems"(2) by (simp add: task_event_session del: task_event.simps)
  with "5.IH" [OF run] task_event_no_session [of self phs tk ts ?ev] "5.prems" show ?case
    by (simp del: task_event.simps)
qed simp_all

lemma call_no_session:
  assumes "mr_session s = NoSession"
  shows "failed_call (fst (call_provider tk env pid p req s))"
proof -
  obtain r s1 where pr: "prepare_call tk (t_charge1 env) (t_charge2 env) p req s = (r, s1)" by fastforce
  have "mr_session s1 = NoSession" using prepare_call_frame [OF pr] assms by (simp add: same_router_def)
  then have loop: "a_error (fst (attempt_loop pid p req pl mc st es te k n s1)) \<noteq> None" for pl mc st es te k n
    by (rule attempt_loop_no_session)
  show ?thesis
  proof (cases r)
    case (Inl x)
    with pr prepare_call_failed show ?thesis by (auto simp: call_provider_def)
  next
    case (Inr x)
    with pr loop show ?thesis
      by (cases x) (simp add: call_provider_def split_beta Let_def)
  qed
qed

lemma uniform_no_session:
  "mr_session s = NoSession \<Longrightarrow> failed_call (fst (uniform_route tk env req s))"
  by (auto simp: uniform_route_def Let_def call_no_session split: option.splits)

lemma smart_no_session:
  "mr_session s = NoSession \<Longrightarrow> failed_call (fst (smart_route tk x env req s))"
  by (auto simp: smart_route_def Let_def call_no_session uniform_no_session split: option.splits sum.splits)

lemma route_no_session:
  "mr_session s = NoSession \<Longrightarrow> fst (mr_route tk envs req s) = Some r \<Longrightarrow> failed_call r"
proof (induction envs arbitrary: s r)
  case (Cons env envs)
  let ?s = "s\<lparr>total_requests := total_requests s + 1\<rparr>"
  have no: "mr_session ?s = NoSession" using Cons.prems(1) by simp
  have won: "fst (race_run tk ts [0..<length ts] (schedule env) (race_initial ts ?s)) \<noteq> Won a" for ts a
    using race_run_no_session [of tk ts "[0..<length ts]" "schedule env" "race_initial ts ?s"] no
    by (cases "race_run tk ts [0..<length ts] (schedule env) (race_initial ts ?s)")
      (simp add: race_initial_def list_all_iff is_success_def)
  have fb: "failed_call r" if "mr_route tk envs req (fallback_router t fb s') = (Some r, fr)" for t fb s' r fr
    by (rule Cons.IH [of "fallback_router t fb s'"])
      (use that in \<open>simp_all add: fallback_router_def new_mrouter_def\<close>)
  show ?case
  proof (cases "strategy (mr_config s) = Member MR_RACE")
    case False
    with Cons.prems(2) uniform_no_session [OF no] smart_no_session [OF no] show ?thesis
      by (auto simp: Let_def split: if_splits)
  next
    case True
    show ?thesis
    proof (cases "race_tasks (mr_providers s) req (candidates (mr_config s))")
      case (Inl e)
      with True Cons.prems(2) show ?thesis by (auto simp: Let_def)
    next
      case (Inr ts)
      obtain out phs s' where run:
        "race_run tk ts [0..<length ts] (schedule env) (race_initial ts ?s) = (out, phs, s')"
        by (metis prod_cases3)
      show ?thesis
      proof (cases out)
        case (Won a)
        with won [of ts a] run show ?thesis by simp
      qed (use True Inr run Cons.prems(2) fb in
          \<open>auto simp: Let_def race_failed_def split: option.splits sum.splits prod.splits\<close>)
    qed
  qed
qed simp

text \<open>
  C4: the fallback of a race never succeeds. When every candidate of a race has failed, the route ends
  with an exception or an error response, whatever the fallback strategy and whatever the providers
  would answer: the router created for the fallback is never started, so it has no HTTP session.
\<close>

theorem fallback_never_succeeds:
  assumes "strategy (mr_config s) = Member MR_RACE"
    and "race_tasks (mr_providers s) req (candidates (mr_config s)) = Inr ts"
    and "race_run tk ts [0..<length ts] (schedule env)
           (race_initial ts (s\<lparr>total_requests := total_requests s + 1\<rparr>)) = (AllFailed, phs, s1)"
    and "fst (mr_route tk (env # envs) req s) = Some r"
  shows "(case r of Inl e \<Rightarrow> True | Inr a \<Rightarrow> a_error a \<noteq> None)"
proof -
  have fb: "failed_call r" if "mr_route tk envs req (fallback_router t fb s1) = (Some r, fr)" for t fb r fr
    by (rule route_no_session [of "fallback_router t fb s1" tk envs req])
      (use that in \<open>simp_all add: fallback_router_def new_mrouter_def\<close>)
  have "failed_call r"
    using assms fb
    by (auto simp: Let_def race_failed_def split: option.splits sum.splits prod.splits)
  then show ?thesis by (simp add: failed_call_def)
qed

theorem fallback_never_succeeds_witness:
  "case fst (mr_route (\<lambda>_ _. None) [sample_route_env, sample_route_env] sample_request
       (sample_router (Member MR_RACE) (Some (Member MR_UNIFORM)))) of
     Some (Inr a) \<Rightarrow> a_error a \<noteq> None | _ \<Rightarrow> False"
proof -
  let ?s = "sample_router (Member MR_RACE) (Some (Member MR_UNIFORM))"
  have "case (race_tasks (mr_providers ?s) sample_request (candidates (mr_config ?s))) of
      Inr ts \<Rightarrow> (case race_run (\<lambda>_ _. None) ts [0..<length ts] (schedule sample_route_env)
        (race_initial ts (?s\<lparr>total_requests := total_requests ?s + 1\<rparr>)) of
          (AllFailed, phs, s1) \<Rightarrow> True | _ \<Rightarrow> False) | _ \<Rightarrow> False" by code_simp
  then obtain ts phs s1 where r: "race_tasks (mr_providers ?s) sample_request (candidates (mr_config ?s)) = Inr ts"
    "race_run (\<lambda>_ _. None) ts [0..<length ts] (schedule sample_route_env)
        (race_initial ts (?s\<lparr>total_requests := total_requests ?s + 1\<rparr>)) = (AllFailed, phs, s1)"
    by (auto split: sum.splits prod.splits race_outcome.splits)
  have "case fst (mr_route (\<lambda>_ _. None) [sample_route_env, sample_route_env] sample_request ?s) of
      Some (Inr a) \<Rightarrow> True | _ \<Rightarrow> False" by code_simp
  then obtain a where a: "fst (mr_route (\<lambda>_ _. None) [sample_route_env, sample_route_env] sample_request ?s)
      = Some (Inr a)" by (auto split: option.splits sum.splits)
  have "strategy (mr_config ?s) = Member MR_RACE"
    by (simp add: sample_router_def mr_start_def new_mrouter_def mk_routing_config_def)
  from fallback_never_succeeds [OF this r a] a show ?thesis by simp
qed

section \<open>Weighted selection\<close>

text \<open>
  The sum of the first \<open>n\<close> scores, as the loop over them accumulates it, and where the loop stops.
\<close>

definition running_score :: "(string, rat) dict \<Rightarrow> nat \<Rightarrow> rat" where
  "running_score scores n = fsum_plain (take n (dict_values scores))"

lemma pick_loop_stops:
  "fl c = c \<Longrightarrow>
   case pick_loop x c scores of
     Some pid \<Rightarrow> (\<exists>k < length scores. fst (scores ! k) = pid
       \<and> (\<forall>j < k. foldl fadd c (take (Suc j) (dict_values scores)) < x)
       \<and> x \<le> foldl fadd c (take (Suc k) (dict_values scores))
       \<and> (0 < snd (scores ! k) \<or> k = 0 \<and> x \<le> c))
   | None \<Rightarrow> (\<forall>k < length scores. foldl fadd c (take (Suc k) (dict_values scores)) < x)"
proof (induction scores arbitrary: c)
  case (Cons e scores)
  obtain pid w where e: "e = (pid, w)" by (cases e)
  show ?case
  proof (cases "x \<le> fadd c w")
    case True
    have "0 < w \<or> x \<le> c"
    proof (cases "0 < w")
      case False
      then have "fadd c w \<le> fl c" unfolding fadd_def by (intro f64.rnd_mono) simp
      with True Cons.prems show ?thesis by simp
    qed simp
    with True e show ?thesis by (auto intro!: exI [of _ 0])
  next
    case False
    then have below: "fadd c w < x" by simp
    have ih: "case pick_loop x (fadd c w) scores of
       Some pid \<Rightarrow> (\<exists>k < length scores. fst (scores ! k) = pid
         \<and> (\<forall>j < k. foldl fadd (fadd c w) (take (Suc j) (dict_values scores)) < x)
         \<and> x \<le> foldl fadd (fadd c w) (take (Suc k) (dict_values scores))
         \<and> (0 < snd (scores ! k) \<or> k = 0 \<and> x \<le> fadd c w))
     | None \<Rightarrow> (\<forall>k < length scores. foldl fadd (fadd c w) (take (Suc k) (dict_values scores)) < x)"
      by (rule Cons.IH) (simp add: fadd_def f64.rnd_idem)
    show ?thesis
    proof (cases "pick_loop x (fadd c w) scores")
      case None
      with ih have none: "foldl fadd (fadd c w) (take (Suc k) (dict_values scores)) < x"
        if "k < length scores" for k using that by simp
      have "foldl fadd c (take (Suc k) (dict_values (e # scores))) < x" if "k < length (e # scores)" for k
        using that below none e by (cases k) simp_all
      with None False e show ?thesis by (simp add: Let_def)
    next
      case (Some pid')
      with ih below obtain k where k: "k < length scores" "fst (scores ! k) = pid'"
        "\<forall>j < k. foldl fadd (fadd c w) (take (Suc j) (dict_values scores)) < x"
        "x \<le> foldl fadd (fadd c w) (take (Suc k) (dict_values scores))" "0 < snd (scores ! k)" by auto
      have "foldl fadd c (take (Suc j) (dict_values (e # scores))) < x" if "j < Suc k" for j
        using that below k(3) e by (cases j) simp_all
      with k Some False e show ?thesis
        by (auto simp: Let_def intro!: exI [of _ "Suc k"])
    qed
  qed
qed simp

lemma smart_scores_in: "smart_scores provs ws = Inr scores \<Longrightarrow> (pid, w) \<in> set scores \<Longrightarrow> \<exists>p. map_of provs pid = Some p"
  by (induction provs ws arbitrary: scores rule: smart_scores.induct)
    (auto simp: rbind_eq_Inr split: option.splits)

lemma total_score_empty: "total_score [] = 0"
  by (simp add: total_score_def py_sum_def)

lemma select_weighted_registered:
  assumes "smart_scores provs ws = Inr scores" "scores \<noteq> []"
  shows "\<exists>p. map_of provs (select_weighted x scores) = Some p"
proof -
  have "\<exists>k < length scores. fst (scores ! k) = select_weighted x scores"
  proof (cases "pick_loop x 0 scores")
    case None
    with assms(2) show ?thesis by (intro exI [of _ 0]) (simp add: select_weighted_def hd_conv_nth)
  next
    case (Some pid)
    with pick_loop_stops [where c = 0 and x = x and scores = scores] show ?thesis by (auto simp: select_weighted_def)
  qed
  then obtain k where "k < length scores" "fst (scores ! k) = select_weighted x scores" by blast
  with smart_scores_in [OF assms(1), of "select_weighted x scores" "snd (scores ! k)"] show ?thesis
    by (metis nth_mem prod.collapse)
qed

text \<open>
  C14: weighted selection, for every value \<open>r\<close> of \<open>random()\<close>. The pick is the scaled value and, for a
  positive total, lies between zero and the total. The request goes to a registered provider with
  the caller's model. That provider is the first one whose running sum of rounded scores reaches the
  pick; its score is positive unless it is the first and the pick is not above zero, which happens
  for \<open>r = 0\<close>. If no running sum reaches the pick, which the compensated total allows, it is the
  first provider.
\<close>

theorem smart_selects_interval:
  assumes "smart_scores (mr_providers s) (weights (mr_config s)) = Inr scores"
    and "total_score scores \<noteq> 0" "0 \<le> r" "r < 1"
  shows "let x = random_uniform 0 (total_score scores) r; pid = select_weighted x scores
   in (0 < total_score scores \<longrightarrow> 0 \<le> x \<and> x \<le> total_score scores)
    \<and> (\<exists>p. map_of (mr_providers s) pid = Some p
         \<and> smart_route tk r env req s = call_provider tk env pid p (sub_request req (q_model req) pid) s)
    \<and> ((\<exists>k < length scores. pid = fst (scores ! k)
           \<and> (\<forall>j < k. running_score scores (Suc j) < x) \<and> x \<le> running_score scores (Suc k)
           \<and> (0 < snd (scores ! k) \<or> k = 0 \<and> x \<le> 0))
       \<or> pid = fst (hd scores) \<and> (\<forall>k < length scores. running_score scores (Suc k) < x))"
proof -
  let ?x = "random_uniform 0 (total_score scores) r"
  let ?pid = "select_weighted ?x scores"
  have "0 \<le> ?x \<and> ?x \<le> total_score scores" if "0 < total_score scores"
    using that assms(3,4) by (intro random_uniform_bounds) (simp_all add: total_score_def fl_py_sum)
  moreover have "scores \<noteq> []" using assms(2) total_score_empty by blast
  then obtain p where p: "map_of (mr_providers s) ?pid = Some p"
    using select_weighted_registered [OF assms(1)] by blast
  then have "smart_route tk r env req s = call_provider tk env ?pid p (sub_request req (q_model req) ?pid) s"
    using assms(1,2) by (simp add: smart_route_def Let_def)
  moreover have "(\<exists>k < length scores. ?pid = fst (scores ! k)
           \<and> (\<forall>j < k. running_score scores (Suc j) < ?x) \<and> ?x \<le> running_score scores (Suc k)
           \<and> (0 < snd (scores ! k) \<or> k = 0 \<and> ?x \<le> 0))
       \<or> ?pid = fst (hd scores) \<and> (\<forall>k < length scores. running_score scores (Suc k) < ?x)"
    using pick_loop_stops [where c = 0 and x = ?x and scores = scores]
    by (cases "pick_loop ?x 0 scores") (auto simp: select_weighted_def running_score_def fsum_plain_def)
  ultimately show ?thesis using p unfolding Let_def by blast
qed

text \<open>With \<open>r = 0\<close> the first provider is called although its weight is zero.\<close>

theorem smart_selects_interval_witness:
  "let s = sample_router (Member MR_SMART) None;
       s = s\<lparr>mr_config := (mr_config s)\<lparr>weights := [(''p'', 0), (''q'', 2)]\<rparr>,
             mr_providers := [(''p'', sample_provider), (''q'', sample_provider)]\<rparr>;
       env = sample_env (\<lambda>_. HttpReply 200 (Inr sample_reply) (Inr []))
   in smart_route (\<lambda>_ _. None) 0 env sample_request s
        = call_provider (\<lambda>_ _. None) env ''p'' sample_provider (sub_request sample_request ''m'' ''p'') s"
proof -
  let ?s0 = "sample_router (Member MR_SMART) None"
  let ?s = "?s0\<lparr>mr_config := (mr_config ?s0)\<lparr>weights := [(''p'', 0), (''q'', 2)]\<rparr>,
             mr_providers := [(''p'', sample_provider), (''q'', sample_provider)]\<rparr>"
  have "smart_scores [(''p'', sample_provider), (''q'', sample_provider)] [(''p'', 0), (''q'', 2)]
      = Inr [(''p'', 0), (''q'', 2)]" by code_simp
  then have s: "smart_scores (mr_providers ?s) (weights (mr_config ?s)) = Inr [(''p'', 0), (''q'', 2)]"
    by simp
  have t: "total_score [(''p'', 0), (''q'', 2)] = 2" by code_simp
  have x: "random_uniform 0 2 0 = 0" by code_simp
  have "select_weighted 0 [(''p'', 0), (''q'', 2)] = ''p''" by code_simp
  with smart_selects_interval [OF s, of 0 "\<lambda>_ _. None"
      "sample_env (\<lambda>_. HttpReply 200 (Inr sample_reply) (Inr []))" sample_request] t x show ?thesis
    by (simp add: Let_def sample_request_def)
qed

text \<open>
  The pick can exceed every running sum: 2 to the 53 and four scores of one add up to 2 to the 53
  in the loop, which rounds after each addition, and to four more in \<open>sum\<close>.
\<close>

lemma smart_fallback_example:
  "let scores = (''a'', 9007199254740992) # map (\<lambda>k. (k, 1)) [''b'', ''c'', ''d'', ''e''];
       x = random_uniform 0 (total_score scores) (9007199254740991 / 9007199254740992)
   in running_score scores 5 < x \<and> x \<le> total_score scores \<and> select_weighted x scores = ''a''"
  by code_simp

section \<open>Uniform routing\<close>






section \<open>Configurations read from JSON\<close>

text \<open>
  A router with its strategy fields replaced: every other field of its configuration and its whole
  state stay. No step of a call looks at the two fields, so each step commutes with the replacement.
\<close>

definition uniform_config :: "routing_config \<Rightarrow> routing_config" where
  "uniform_config cfg = cfg\<lparr>strategy := Member MR_UNIFORM, fallback_strategy := None\<rparr>"

definition forget_strategy :: "mrouter \<Rightarrow> mrouter" where
  "forget_strategy s = s\<lparr>mr_config := uniform_config (mr_config s)\<rparr>"

named_theorems forget_simps \<open>operations commute with \<open>forget_strategy\<close>\<close>

lemma uniform_config_fields [forget_simps]:
  "strategy (uniform_config cfg) = Member MR_UNIFORM" "fallback_strategy (uniform_config cfg) = None"
  "budget_per_hour (uniform_config cfg) = budget_per_hour cfg"
  "candidates (uniform_config cfg) = candidates cfg" "retry_count (uniform_config cfg) = retry_count cfg"
  "retry_delay_ms (uniform_config cfg) = retry_delay_ms cfg"
  "retry_on_errors (uniform_config cfg) = retry_on_errors cfg"
  "race_timeout_ms (uniform_config cfg) = race_timeout_ms cfg"
  by (simp_all add: uniform_config_def)

lemma forget_strategy_fields [forget_simps]:
  "mr_config (forget_strategy s) = uniform_config (mr_config s)"
  "mr_providers (forget_strategy s) = mr_providers s" "tracker (forget_strategy s) = tracker s"
  "mr_session (forget_strategy s) = mr_session s" "total_requests (forget_strategy s) = total_requests s"
  "race_wins (forget_strategy s) = race_wins s" "trace (forget_strategy s) = trace s"
  by (simp_all add: forget_strategy_def)

lemma forget_strategy_updates [forget_simps]:
  "(forget_strategy s)\<lparr>tracker := tr\<rparr> = forget_strategy (s\<lparr>tracker := tr\<rparr>)"
  "(forget_strategy s)\<lparr>total_requests := n\<rparr> = forget_strategy (s\<lparr>total_requests := n\<rparr>)"
  "add_effect e (forget_strategy s) = forget_strategy (add_effect e s)"
  "update_latency pid l (forget_strategy s) = forget_strategy (update_latency pid l s)"
  by (simp_all add: forget_strategy_def add_effect_def update_latency_def split: option.splits)

lemma forget_handlers [forget_simps]:
  "may_retry (uniform_config cfg) n tag = may_retry cfg n tag"
  "retry_sleep (forget_strategy s) = forget_strategy (retry_sleep s)"
  "handle_exn p req lat n e (forget_strategy s) = apsnd forget_strategy (handle_exn p req lat n e s)"
  "handle_error_status p req lat n code txt (forget_strategy s)
     = apsnd forget_strategy (handle_error_status p req lat n code txt s)"
  by (simp_all add: may_retry_def retry_sleep_def handle_exn_def handle_error_status_def forget_simps)

lemma forget_attempt [forget_simps]:
  "attempt pid p req payload mc start env n (forget_strategy s)
     = apsnd forget_strategy (attempt pid p req payload mc start env n s)"
  by (simp add: attempt_def Let_def forget_simps split: prod.splits http_outcome.splits sum.splits)

lemma forget_attempt_loop [forget_simps]:
  "attempt_loop pid p req payload mc start envs te k n (forget_strategy s)
     = apsnd forget_strategy (attempt_loop pid p req payload mc start envs te k n s)"
  by (induction k arbitrary: n s) (simp_all add: forget_simps split: prod.splits option.splits)

lemma forget_prepare_call [forget_simps]:
  "prepare_call tk t1 t2 p req (forget_strategy s) = apsnd forget_strategy (prepare_call tk t1 t2 p req s)"
  by (simp add: prepare_call_def Let_def forget_simps split: sum.splits option.splits prod.splits)

lemma forget_call [forget_simps]:
  "call_provider tk env pid p req (forget_strategy s) = apsnd forget_strategy (call_provider tk env pid p req s)"
  by (simp add: call_provider_def forget_simps split: sum.splits prod.splits)

lemma forget_uniform_route [forget_simps]:
  "uniform_route tk env req (forget_strategy s) = apsnd forget_strategy (uniform_route tk env req s)"
  by (simp add: uniform_route_def uniform_candidate_def Let_def forget_simps split: option.splits)

text \<open>A router whose strategy is a plain value routes like the one that is configured as uniform.\<close>

definition plain_strategy :: "mrouter \<Rightarrow> bool" where
  "plain_strategy s \<longleftrightarrow> (\<exists>v. strategy (mr_config s) = Plain v)"

lemma plain_route_uniform:
  assumes "plain_strategy s"
  shows "mr_route tk envs req (forget_strategy s) = apsnd forget_strategy (mr_route tk envs req s)"
  using assms by (cases envs)
    (auto simp: plain_strategy_def Let_def forget_simps apfst_def apsnd_def split_beta map_prod_def)

lemma plain_route_plain: "plain_strategy s \<Longrightarrow> plain_strategy (snd (mr_route tk envs req s))"
  using config_inv.I_route [of s "mr_config s" "mr_session s" tk envs req] by (simp add: plain_strategy_def)

text \<open>The table of routers with every strategy forgotten, and the entry points that set it up so.\<close>

definition forget_registry :: "router_registry_dict \<Rightarrow> router_registry_dict" where
  "forget_registry reg = map (apsnd forget_strategy) reg"

fun uniform_step ::
  "(string \<Rightarrow> string \<Rightarrow> nat option) \<Rightarrow> cffi_op \<Rightarrow> router_registry_dict
     \<Rightarrow> json res option \<times> router_registry_dict" where
  "uniform_step tk (InitRouter now doc provs) reg =
     (Some (Inr (JInt 0)),
      dict_set 0 (mr_start (new_mrouter now (uniform_config (config_of_doc doc)) provs)) reg)"
| "uniform_step tk (RouteRequest envs h req) reg = cffi_route_request tk envs h req reg"

fun uniform_run ::
  "(string \<Rightarrow> string \<Rightarrow> nat option) \<Rightarrow> cffi_op list \<Rightarrow> router_registry_dict
     \<Rightarrow> json res option list \<times> router_registry_dict" where
  "uniform_run tk [] reg = ([], reg)"
| "uniform_run tk (op # ops) reg =
     (let (r, reg) = uniform_step tk op reg; (rs, reg) = uniform_run tk ops reg in (r # rs, reg))"

lemma forget_registry_set:
  "dict_set h (forget_strategy s) (forget_registry reg) = forget_registry (dict_set h s reg)"
  by (induction reg) (auto simp: forget_registry_def)

lemma forget_registry_lookup: "map_of (forget_registry reg) h = map_option forget_strategy (map_of reg h)"
  by (induction reg) (auto simp: forget_registry_def)

text \<open>One step: the answer does not depend on the strategies, and routers stay without a member.\<close>

definition plain_registry :: "router_registry_dict \<Rightarrow> bool" where
  "plain_registry reg \<longleftrightarrow> (\<forall>h s. map_of reg h = Some s \<longrightarrow> plain_strategy s)"

lemma plain_registry_set:
  "plain_registry reg \<Longrightarrow> plain_strategy s \<Longrightarrow> plain_registry (dict_set h s reg)"
  by (simp add: plain_registry_def dict_simps)

lemma init_plain: "plain_strategy (mr_start (new_mrouter now (config_of_doc doc) provs))"
  by (simp add: plain_strategy_def mr_start_def new_mrouter_def config_of_doc_def)

lemma init_forget:
  "mr_start (new_mrouter now (uniform_config cfg) provs) = forget_strategy (mr_start (new_mrouter now cfg provs))"
  by (simp add: mr_start_def new_mrouter_def forget_strategy_def uniform_config_def)

lemma route_request_forget:
  assumes "plain_registry reg"
  shows "cffi_route_request tk envs h req (forget_registry reg)
     = apsnd forget_registry (cffi_route_request tk envs h req reg)"
proof (cases "map_of reg h")
  case (Some s)
  with assms have "plain_strategy s" by (simp add: plain_registry_def)
  from plain_route_uniform [OF this, of tk envs req] Some show ?thesis
    by (simp add: cffi_route_request_def forget_registry_lookup forget_registry_set split_beta
        del: mr_route.simps)
qed (simp add: cffi_route_request_def forget_registry_lookup)

lemma route_request_plain:
  "plain_registry reg \<Longrightarrow> plain_registry (snd (cffi_route_request tk envs h req reg))"
proof (cases "map_of reg h")
  case (Some s)
  assume reg: "plain_registry reg"
  with Some have "plain_strategy (snd (mr_route tk envs req s))"
    using plain_route_plain by (simp add: plain_registry_def)
  with Some plain_registry_set [OF reg] show ?thesis
    by (simp add: cffi_route_request_def split_beta)
qed (simp add: cffi_route_request_def)

lemma cffi_step_forget:
  assumes "plain_registry reg"
  shows "uniform_step tk op (forget_registry reg) = apsnd forget_registry (cffi_step tk op reg)
     \<and> plain_registry (snd (cffi_step tk op reg))"
  using assms
  by (cases op) (simp_all add: cffi_init_router_def init_forget forget_registry_set route_request_forget
      route_request_plain plain_registry_set init_plain)

lemma cffi_run_forget:
  "plain_registry reg \<Longrightarrow> uniform_run tk ops (forget_registry reg) = apsnd forget_registry (cffi_run tk ops reg)"
proof (induction ops arbitrary: reg)
  case (Cons op ops)
  from cffi_step_forget [OF Cons.prems, of tk op] Cons.IH [of "snd (cffi_step tk op reg)"]
  show ?case by (simp add: split_beta)
qed simp

text \<open>
  C18: a strategy named in JSON is never used. Any sequence of \<open>init_router\<close> and \<open>route_request\<close>
  calls gives the same answers, posts and charges as with every document's strategy replaced by the
  uniform one and its fallback left out: the final routers differ in these two fields only. And
  \<open>select_provider\<close> never answers: when there are candidates and the context has no \<open>get\<close> or its
  count is no integer, that error is raised; otherwise it is the \<open>AttributeError\<close> for the strategy's
  \<open>value\<close>, because the document's strategy is not converted to the enumeration.
\<close>

theorem json_strategy_is_ignored:
  "uniform_run tk ops [] = apsnd forget_registry (cffi_run tk ops [])
   \<and> cffi_select_provider doc ctx r = Inl
       (case (if d_candidates doc = [] then Inr 0 else request_count_of ctx) of
          Inl e \<Rightarrow> e
        | Inr n \<Rightarrow> Exn AttributeError (quoted (type_name (d_strategy doc))
                     @ '' object has no attribute '' @ quoted ''value''))"
proof
  show "uniform_run tk ops [] = apsnd forget_registry (cffi_run tk ops [])"
    using cffi_run_forget [of "[]" tk ops] by (simp add: plain_registry_def forget_registry_def)
  show "cffi_select_provider doc ctx r = Inl
       (case (if d_candidates doc = [] then Inr 0 else request_count_of ctx) of
          Inl e \<Rightarrow> e
        | Inr n \<Rightarrow> Exn AttributeError (quoted (type_name (d_strategy doc))
                     @ '' object has no attribute '' @ quoted ''value''))"
    by (simp add: cffi_select_provider_def choose_provider_def config_of_doc_def split: sum.split)
qed

text \<open>A count that is no integer is reported before the strategy is looked at.\<close>

lemma select_provider_bad_count:
  "d_candidates doc = [''p/m''] \<Longrightarrow>
   map_sum exn_class id (cffi_select_provider doc (JObj [(''request_count'', JNull)]) r) = Inl TypeError
   \<and> map_sum exn_class id (cffi_select_provider doc (JObj [(''request_count'', JStr ''abc'')]) r) = Inl ValueError"
proof -
  assume c: "d_candidates doc = [''p/m'']"
  have "request_count_of (JObj [(''request_count'', JStr ''abc'')])
      = Inl (Exn ValueError (''invalid literal for int() with base 10: '' @ quoted ''abc''))"
    by (simp add: request_count_of_def dict_getd_def py_int_examples del: py_int.simps)
  with c show ?thesis
    by (simp add: cffi_select_provider_def choose_provider_def config_of_doc_def request_count_of_def
        dict_getd_def)
qed

end
