(* ===== verification/HttpRetry.thy ===== *)
theory HttpRetry
  imports PyValue
begin

text \<open>
  \<open>python/model_clients.py\<close>: the response record, the base client and its two retrying posts.
  \<open>httpx\<close> is a parameter: \<open>outcomes n\<close> is what the \<open>n\<close>-th request of a call ends in, either an exception
  or a reply with its status code, the exception \<open>raise_for_status\<close> would raise, if any, and what
  \<open>json()\<close> gives or raises. What a call does outside is returned as a list of effects.
\<close>

section \<open>Data\<close>

record model_response =
  m_text :: json
  m_tokens :: json
  m_cost :: rat
  m_latency_ms :: rat
  m_provider :: string
  m_model :: string
  m_raw :: json
  m_success :: bool
  m_error :: string

record client =
  c_name :: string
  c_base_url :: string
  c_api_key :: string
  c_model :: string
  c_cost_per_1k :: rat
  c_max_tokens :: int

definition base_client :: "string \<Rightarrow> string \<Rightarrow> string \<Rightarrow> string \<Rightarrow> rat \<Rightarrow> int \<Rightarrow> client" where
  "base_client name url key model cost maxt =
     \<lparr>c_name = name, c_base_url = rstrip CHR ''/'' url, c_api_key = key, c_model = model,
      c_cost_per_1k = cost, c_max_tokens = maxt\<rparr>"

text \<open>\<open>complete\<close> and \<open>acomplete\<close> of the base class\<close>

definition base_complete :: "client \<Rightarrow> msg list \<Rightarrow> model_response res" where
  "base_complete self ms = Inl (Exn NotImplementedError [])"

definition base_acomplete :: "client \<Rightarrow> msg list \<Rightarrow> model_response res" where
  "base_acomplete self ms = Inl (Exn NotImplementedError [])"

definition compute_cost :: "client \<Rightarrow> json \<Rightarrow> rat res" where
  "compute_cost self tokens =
     rbind (py_div_const tokens 1000) (\<lambda>x. Inr (fmul (c_cost_per_1k self) x))"

type_synonym headers = "(string, string) dict"

definition base_headers :: "client \<Rightarrow> headers" where
  "base_headers self =
     [(''Authorization'', ''Bearer '' @ c_api_key self), (''Content-Type'', ''application/json'')]"

section \<open>The retry loops\<close>

record reply =
  status_code :: int
  status_error :: "pyexn option"
  reply_json :: "json res"

type_synonym outcomes = "nat \<Rightarrow> pyexn + reply"

text \<open>\<open>TimeSleep\<close> blocks the thread, \<open>AioSleep\<close> suspends the task.\<close>

datatype net_effect =
    HttpxPost string json headers | TimeSleep nat
  | ClientPost string json headers | AioSleep nat

definition max_retries_error :: pyexn where
  "max_retries_error = Exn HTTPError ''Max retries exceeded''"

definition is_retried_status :: "int \<Rightarrow> bool" where
  "is_retried_status c \<longleftrightarrow> c \<in> {500, 502, 503}"

text \<open>The two \<open>except\<close> clauses: whether the loop goes on with this exception as the last one.\<close>

definition goes_on :: "pyexn \<Rightarrow> bool" where
  "goes_on e \<longleftrightarrow> (case exn_class e of
     HTTPStatusError c \<Rightarrow> is_retried_status c | HttpTimeoutException \<Rightarrow> True | _ \<Rightarrow> False)"

text \<open>
  \<open>for attempt in range(3)\<close>: \<open>k\<close> passes are left, \<open>n\<close> is the index of the next one, \<open>lst\<close> is
  \<open>last_err\<close>. A reply 429 sleeps and goes on without touching \<open>last_err\<close>.
\<close>

fun post_loop ::
  "string \<Rightarrow> json \<Rightarrow> headers \<Rightarrow> outcomes \<Rightarrow> nat \<Rightarrow> nat \<Rightarrow> pyexn option \<Rightarrow> reply res \<times> net_effect list" where
  "post_loop url payload hs outs 0 n lst =
     (Inl (case lst of Some e \<Rightarrow> e | None \<Rightarrow> max_retries_error), [])"
| "post_loop url payload hs outs (Suc k) n lst =
     (let again = (\<lambda>lst'. let (r, es) = post_loop url payload hs outs k (Suc n) lst'
                     in (r, HttpxPost url payload hs # TimeSleep (2 ^ n) # es))
      in case outs n of
           Inl e \<Rightarrow> if goes_on e then again (Some e) else (Inl e, [HttpxPost url payload hs])
         | Inr r \<Rightarrow>
             if status_code r = 429 then again lst
             else (case status_error r of
                None \<Rightarrow> (Inr r, [HttpxPost url payload hs])
              | Some e \<Rightarrow>
                  if goes_on e then again (Some e) else (Inl e, [HttpxPost url payload hs])))"

definition post :: "(client \<Rightarrow> headers) \<Rightarrow> outcomes \<Rightarrow> client \<Rightarrow> string \<Rightarrow> json \<Rightarrow> reply res \<times> net_effect list"
  where
  "post hf outs self url payload = post_loop url payload (hf self) outs 3 0 None"

fun apost_loop ::
  "string \<Rightarrow> json \<Rightarrow> headers \<Rightarrow> outcomes \<Rightarrow> nat \<Rightarrow> nat \<Rightarrow> pyexn option \<Rightarrow> reply res \<times> net_effect list" where
  "apost_loop url payload hs outs 0 n lst =
     (Inl (case lst of Some e \<Rightarrow> e | None \<Rightarrow> max_retries_error), [])"
| "apost_loop url payload hs outs (Suc k) n lst =
     (let again = (\<lambda>lst'. let (r, es) = apost_loop url payload hs outs k (Suc n) lst'
                     in (r, ClientPost url payload hs # AioSleep (2 ^ n) # es))
      in case outs n of
           Inl e \<Rightarrow> if goes_on e then again (Some e) else (Inl e, [ClientPost url payload hs])
         | Inr r \<Rightarrow>
             if status_code r = 429 then again lst
             else (case status_error r of
                None \<Rightarrow> (Inr r, [ClientPost url payload hs])
              | Some e \<Rightarrow>
                  if goes_on e then again (Some e) else (Inl e, [ClientPost url payload hs])))"

definition apost :: "(client \<Rightarrow> headers) \<Rightarrow> outcomes \<Rightarrow> client \<Rightarrow> string \<Rightarrow> json \<Rightarrow> reply res \<times> net_effect list"
  where
  "apost hf outs self url payload = apost_loop url payload (hf self) outs 3 0 None"

section \<open>Reading the effects\<close>

fun is_post_effect :: "net_effect \<Rightarrow> bool" where
  "is_post_effect (HttpxPost u p h) = True"
| "is_post_effect (ClientPost u p h) = True"
| "is_post_effect (TimeSleep d) = False"
| "is_post_effect (AioSleep d) = False"

fun sleep_time :: "net_effect \<Rightarrow> nat" where
  "sleep_time (TimeSleep d) = d"
| "sleep_time (AioSleep d) = d"
| "sleep_time (HttpxPost u p h) = 0"
| "sleep_time (ClientPost u p h) = 0"

fun blocking :: "net_effect \<Rightarrow> bool" where
  "blocking (HttpxPost u p h) = True"
| "blocking (TimeSleep d) = True"
| "blocking (ClientPost u p h) = False"
| "blocking (AioSleep d) = False"

fun to_async :: "net_effect \<Rightarrow> net_effect" where
  "to_async (HttpxPost u p h) = ClientPost u p h"
| "to_async (TimeSleep d) = AioSleep d"
| "to_async (ClientPost u p h) = ClientPost u p h"
| "to_async (AioSleep d) = AioSleep d"

definition post_count :: "net_effect list \<Rightarrow> nat" where
  "post_count es = length (filter is_post_effect es)"

definition total_sleep :: "net_effect list \<Rightarrow> nat" where
  "total_sleep es = sum_list (map sleep_time es)"

lemma effect_counts [simp]:
  "post_count [] = 0" "total_sleep [] = 0"
  "post_count (e # es) = (if is_post_effect e then 1 else 0) + post_count es"
  "total_sleep (e # es) = sleep_time e + total_sleep es"
  by (simp_all add: post_count_def total_sleep_def)

lemma to_async_counts [simp]:
  "is_post_effect (to_async e) = is_post_effect e" "sleep_time (to_async e) = sleep_time e"
  "\<not> blocking (to_async e)"
  by (cases e; simp)+

lemma apost_loop_async:
  "apost_loop url payload hs outs k n lst = map_prod id (map to_async) (post_loop url payload hs outs k n lst)"
  by (induction k arbitrary: n lst)
    (auto simp: Let_def split: sum.splits option.splits prod.splits)

lemma post_loop_bounds:
  "post_count (snd (post_loop url payload hs outs k n lst)) \<le> k
   \<and> total_sleep (snd (post_loop url payload hs outs k n lst)) + 2 ^ n \<le> 2 ^ (n + k)
   \<and> list_all blocking (snd (post_loop url payload hs outs k n lst))"
proof (induction k arbitrary: n lst)
  case (Suc k)
  have ih: "post_count (snd (post_loop url payload hs outs k (Suc n) l)) \<le> k"
    "2 ^ n + total_sleep (snd (post_loop url payload hs outs k (Suc n) l)) + 2 ^ n \<le> 2 * 2 ^ (n + k)"
    "list_all blocking (snd (post_loop url payload hs outs k (Suc n) l))" for l
    using Suc.IH [of "Suc n" l] by simp_all
  have "(2 :: nat) ^ n \<le> 2 * 2 ^ (n + k)" by (simp add: power_add)
  with ih show ?case
    by (simp add: Let_def split_beta split: sum.splits option.splits)
qed simp

section \<open>Retried outcomes\<close>

text \<open>An outcome after which the loop goes on, and what it leaves in \<open>last_err\<close>\<close>

definition retried :: "pyexn + reply \<Rightarrow> bool" where
  "retried o' \<longleftrightarrow> (case o' of
     Inl e \<Rightarrow> goes_on e
   | Inr r \<Rightarrow> status_code r = 429 \<or> (\<exists>e. status_error r = Some e \<and> goes_on e))"

definition carried :: "pyexn + reply \<Rightarrow> pyexn option" where
  "carried o' = (case o' of
     Inl e \<Rightarrow> Some e | Inr r \<Rightarrow> if status_code r = 429 then None else status_error r)"

definition keep_error :: "pyexn + reply \<Rightarrow> pyexn option \<Rightarrow> pyexn option" where
  "keep_error o' lst = (case carried o' of None \<Rightarrow> lst | Some e \<Rightarrow> Some e)"

definition good_reply :: "pyexn + reply \<Rightarrow> reply \<Rightarrow> bool" where
  "good_reply o' r \<longleftrightarrow> o' = Inr r \<and> status_code r \<noteq> 429 \<and> status_error r = None"

definition retry_effects :: "string \<Rightarrow> json \<Rightarrow> headers \<Rightarrow> nat list \<Rightarrow> net_effect list" where
  "retry_effects url payload hs ns = concat (map (\<lambda>n. [HttpxPost url payload hs, TimeSleep (2 ^ n)]) ns)"

lemma post_loop_retried:
  assumes "retried (outs n)"
  shows "post_loop url payload hs outs (Suc k) n lst =
     apsnd (\<lambda>es. HttpxPost url payload hs # TimeSleep (2 ^ n) # es)
       (post_loop url payload hs outs k (Suc n) (keep_error (outs n) lst))"
  using assms
  by (auto simp: retried_def keep_error_def carried_def Let_def apsnd_def map_prod_def split_beta
      split: sum.splits option.splits)

lemma post_loop_all_retried:
  "(\<And>i. n \<le> i \<Longrightarrow> i < n + m \<Longrightarrow> retried (outs i)) \<Longrightarrow>
   post_loop url payload hs outs (m + k) n lst =
     apsnd (\<lambda>es. retry_effects url payload hs [n..<n + m] @ es)
       (post_loop url payload hs outs k (n + m) (fold (\<lambda>i. keep_error (outs i)) [n..<n + m] lst))"
proof (induction m arbitrary: n lst)
  case 0
  then show ?case by (simp add: retry_effects_def apsnd_def map_prod_def split_beta)
next
  case (Suc m)
  have "post_loop url payload hs outs (Suc m + k) n lst =
     apsnd (\<lambda>es. HttpxPost url payload hs # TimeSleep (2 ^ n) # es)
       (post_loop url payload hs outs (m + k) (Suc n) (keep_error (outs n) lst))"
    using post_loop_retried [of outs n url payload hs "m + k" lst] Suc.prems [of n] by simp
  also have "post_loop url payload hs outs (m + k) (Suc n) (keep_error (outs n) lst) =
     apsnd (\<lambda>es. retry_effects url payload hs [Suc n..<Suc n + m] @ es)
       (post_loop url payload hs outs k (Suc n + m)
         (fold (\<lambda>i. keep_error (outs i)) [Suc n..<Suc n + m] (keep_error (outs n) lst)))"
    by (rule Suc.IH) (use Suc.prems in auto)
  finally show ?case
    by (simp add: upt_conv_Cons retry_effects_def apsnd_def map_prod_def split_beta del: upt_Suc)
qed

lemma post_loop_good:
  "good_reply (outs n) r \<Longrightarrow>
   post_loop url payload hs outs (Suc k) n lst = (Inr r, [HttpxPost url payload hs])"
  by (simp add: good_reply_def Let_def)

section \<open>Properties of the posts\<close>

definition sample_client :: client where
  "sample_client = base_client ''c'' ''u/'' ''k'' ''m'' 0 16"

definition timeout_outcome :: "pyexn + reply" where
  "timeout_outcome = Inl (Exn HttpTimeoutException ''slow'')"

definition status_outcome :: "int \<Rightarrow> pyexn + reply" where
  "status_outcome c = Inr \<lparr>status_code = c,
     status_error = (if c = 200 then None else Some (Exn (HTTPStatusError c) ''status'')),
     reply_json = Inr JNull\<rparr>"

text \<open>
  C24: the retry loop reaches a good reply. If the first \<open>k < 3\<close> requests time out, are answered 429 or
  answered 500, 502 or 503, and the next one gets a good reply, the post returns that reply, after
  sleeping 1, 2, ... seconds between the requests and not after the last.
\<close>

theorem post_reaches_reply:
  assumes "k < 3" "\<forall>i < k. retried (outs i)" "good_reply (outs k) r"
  shows "post hf outs self url payload =
     (Inr r, retry_effects url payload (hf self) [0..<k] @ [HttpxPost url payload (hf self)])"
proof -
  obtain j where j: "3 = k + Suc j" by (rule that [of "2 - k"]) (use assms(1) in simp)
  have "post_loop url payload (hf self) outs (k + Suc j) 0 None =
      apsnd (\<lambda>es. retry_effects url payload (hf self) [0..<0 + k] @ es)
       (post_loop url payload (hf self) outs (Suc j) (0 + k) (fold (\<lambda>i. keep_error (outs i)) [0..<0 + k] None))"
    by (rule post_loop_all_retried) (use assms(2) in simp)
  then show ?thesis
    unfolding post_def j by (simp add: post_loop_good [where outs = outs and n = k, OF assms(3)] del: post_loop.simps)
qed

theorem post_reaches_reply_witness:
  "\<exists>r. fst (post base_headers (\<lambda>n. if n = 0 then timeout_outcome else if n = 1 then status_outcome 503
        else status_outcome 200) sample_client ''u'' JNull) = Inr r"
proof -
  let ?o = "\<lambda>n :: nat. if n = 0 then timeout_outcome else if n = 1 then status_outcome 503 else status_outcome 200"
  have "\<forall>i < 2. retried (?o i)"
    by (simp add: retried_def timeout_outcome_def status_outcome_def goes_on_def is_retried_status_def)
  moreover have "\<exists>r. good_reply (?o 2) r" by (simp add: good_reply_def status_outcome_def)
  ultimately show ?thesis
    using post_reaches_reply [of 2 ?o _ base_headers sample_client "''u''" JNull] by force
qed

text \<open>
  C25: giving up. When all three requests are retried outcomes, the post sleeps 1, 2 and 4 seconds, the
  last time for nothing, and raises the most recent exception that a reply other than 429 left; only
  if there is none, "Max retries exceeded".
\<close>

theorem post_gives_up:
  assumes "\<forall>i < 3. retried (outs i)"
  shows "post hf outs self url payload =
     (Inl (case List.map_filter (\<lambda>i. carried (outs i)) [2, 1, 0] of
             e # es \<Rightarrow> e | [] \<Rightarrow> max_retries_error),
      retry_effects url payload (hf self) [0, 1, 2])"
proof -
  have u: "[0..<3] = [0, 1, 2 :: nat]" by (simp add: upt_rec numeral_3_eq_3)
  have "post_loop url payload (hf self) outs (3 + 0) 0 None =
      apsnd (\<lambda>es. retry_effects url payload (hf self) [0..<0 + 3] @ es)
       (post_loop url payload (hf self) outs 0 (0 + 3) (fold (\<lambda>i. keep_error (outs i)) [0..<0 + 3] None))"
    by (rule post_loop_all_retried) (use assms in simp)
  then show ?thesis
    unfolding post_def by (auto simp: u keep_error_def List.map_filter_def split: option.splits)
qed

theorem post_gives_up_witness:
  "fst (post base_headers (\<lambda>n. if n = 0 then timeout_outcome else status_outcome 429) sample_client ''u'' JNull)
     = Inl (Exn HttpTimeoutException ''slow'')"
proof -
  let ?o = "\<lambda>n :: nat. if n = 0 then timeout_outcome else status_outcome 429"
  have "\<forall>i < 3. retried (?o i)"
    by (simp add: retried_def timeout_outcome_def status_outcome_def goes_on_def)
  from post_gives_up [OF this, of base_headers sample_client "''u''" JNull]
  show ?thesis by (simp add: List.map_filter_def carried_def timeout_outcome_def status_outcome_def)
qed

end
