(* ===== verification/ModelClients.thy ===== *)
theory ModelClients
  imports HttpRetry
begin

text \<open>
  \<open>python/model_clients.py\<close>: the eighteen provider clients and the factory. Each client's
  \<open>complete\<close> builds a request, posts it with the retry loop, decodes the reply and turns every
  exception on the way into a failed response; \<open>acomplete\<close> does the same with the asynchronous
  post. A client has its constructor, \<open>complete\<close> and \<open>acomplete\<close> as definitions; what they share
  (the \<open>try\<close> block, the request of the OpenAI-compatible services) is defined once.
\<close>

section \<open>The shape of a completion\<close>

text \<open>The environment of one call: the clock at its start, after decoding and for an error.\<close>

record call_context =
  cc_start :: rat
  cc_ok :: rat
  cc_err :: rat
  cc_outcomes :: outcomes

type_synonym kwargs = "(string, json) dict"

definition client_elapsed :: "rat \<Rightarrow> rat \<Rightarrow> rat" where
  "client_elapsed start now = fmul (fsub now start) 1000"

definition success_response :: "client \<Rightarrow> rat \<Rightarrow> json \<Rightarrow> json \<Rightarrow> rat \<Rightarrow> json \<Rightarrow> model_response" where
  "success_response self lat text tokens cost data =
     \<lparr>m_text = text, m_tokens = tokens, m_cost = cost, m_latency_ms = lat, m_provider = c_name self,
      m_model = c_model self, m_raw = data, m_success = True, m_error = []\<rparr>"

definition failure_response :: "client \<Rightarrow> rat \<Rightarrow> pyexn \<Rightarrow> model_response" where
  "failure_response self lat e =
     \<lparr>m_text = JStr [], m_tokens = JInt 0, m_cost = 0, m_latency_ms = lat, m_provider = c_name self,
      m_model = c_model self, m_raw = JNull, m_success = False, m_error = exn_str e\<rparr>"

text \<open>\<open>r.json()\<close>, the text and the tokens, the cost\<close>

definition read_reply ::
  "(json \<Rightarrow> (json \<times> json) res) \<Rightarrow> (json \<Rightarrow> rat res) \<Rightarrow> reply \<Rightarrow> (json \<times> json \<times> rat \<times> json) res" where
  "read_reply decode costf r =
     rbind (reply_json r) (\<lambda>data.
     rbind (decode data) (\<lambda>(text, tokens).
     rbind (costf tokens) (\<lambda>c. Inr (text, tokens, c, data))))"

definition try_complete ::
  "client \<Rightarrow> call_context \<Rightarrow> (string \<times> json) res \<Rightarrow> (string \<Rightarrow> json \<Rightarrow> reply res \<times> net_effect list)
     \<Rightarrow> (json \<Rightarrow> (json \<times> json) res) \<Rightarrow> (json \<Rightarrow> rat res) \<Rightarrow> model_response \<times> net_effect list" where
  "try_complete self cc built send decode costf =
     (let failed = failure_response self (client_elapsed (cc_start cc) (cc_err cc)) in
      case built of
        Inl e \<Rightarrow> (failed e, [])
      | Inr (url, payload) \<Rightarrow>
          (case send url payload of
             (r, es) \<Rightarrow>
               (case rbind r (read_reply decode costf) of
                  Inl e \<Rightarrow> (failed e, es)
                | Inr (text, tokens, c, data) \<Rightarrow>
                    (success_response self (client_elapsed (cc_start cc) (cc_ok cc)) text tokens c data, es))))"

definition kw_max_tokens :: "client \<Rightarrow> kwargs \<Rightarrow> json" where
  "kw_max_tokens self kw = dict_getd kw ''max_tokens'' (JInt (c_max_tokens self))"

text \<open>The request and the reply of the OpenAI-compatible services\<close>

definition chat_payload :: "client \<Rightarrow> kwargs \<Rightarrow> msg list \<Rightarrow> (string \<times> json) list" where
  "chat_payload self kw ms =
     [(''model'', JStr (c_model self)), (''messages'', json_of_msgs ms),
      (''max_tokens'', kw_max_tokens self kw)]"

definition chat_request :: "string \<Rightarrow> client \<Rightarrow> kwargs \<Rightarrow> msg list \<Rightarrow> (string \<times> json) res" where
  "chat_request path self kw ms = Inr (c_base_url self @ path, JObj (chat_payload self kw ms))"

definition usage_tokens :: "json \<Rightarrow> int \<Rightarrow> json res" where
  "usage_tokens data d =
     rbind (get_default data ''usage'' (JObj [])) (\<lambda>u. get_default u ''total_tokens'' (JInt d))"

definition chat_path :: "subscript list" where
  "chat_path = [Key ''choices'', First, Key ''message'', Key ''content'']"

definition chat_decode :: "int \<Rightarrow> json \<Rightarrow> (json \<times> json) res" where
  "chat_decode d data =
     rbind (get_path data chat_path) (\<lambda>text. rbind (usage_tokens data d) (\<lambda>tok. Inr (text, tok)))"

text \<open>\<open>Content-Type\<close> alone, for the local services; and a cost that is always zero\<close>

definition plain_headers :: "client \<Rightarrow> headers" where
  "plain_headers self = [(''Content-Type'', ''application/json'')]"

definition zero_cost :: "json \<Rightarrow> rat res" where
  "zero_cost tokens = Inr 0"

definition or_arg :: "string option \<Rightarrow> string \<Rightarrow> string" where
  "or_arg x d = (case x of None \<Rightarrow> d | Some y \<Rightarrow> y)"

section \<open>OpenAI\<close>

definition openai_init :: "string \<Rightarrow> string option \<Rightarrow> client" where
  "openai_init api_key model =
     base_client ''openai'' ''https://api.openai.com/v1'' api_key
       (or_arg model ''gpt-4o'') (fl (5 / 1000)) 4096"

text \<open>Only this client passes \<open>temperature\<close> on.\<close>

definition openai_request :: "client \<Rightarrow> kwargs \<Rightarrow> msg list \<Rightarrow> (string \<times> json) res" where
  "openai_request self kw ms =
     Inr (c_base_url self @ ''/chat/completions'',
       JObj (chat_payload self kw ms
         @ (case map_of kw ''temperature'' of None \<Rightarrow> [] | Some t \<Rightarrow> [(''temperature'', t)])))"

definition openai_complete :: "client \<Rightarrow> kwargs \<Rightarrow> call_context \<Rightarrow> msg list \<Rightarrow> model_response \<times> net_effect list"
  where
  "openai_complete self kw cc ms =
     try_complete self cc (openai_request self kw ms) (post base_headers (cc_outcomes cc) self) (chat_decode 0) (compute_cost self)"

definition openai_acomplete :: "client \<Rightarrow> kwargs \<Rightarrow> call_context \<Rightarrow> msg list \<Rightarrow> model_response \<times> net_effect list"
  where
  "openai_acomplete self kw cc ms =
     try_complete self cc (openai_request self kw ms) (apost base_headers (cc_outcomes cc) self) (chat_decode 0) (compute_cost self)"

section \<open>Anthropic\<close>

definition anthropic_init :: "string \<Rightarrow> string option \<Rightarrow> client" where
  "anthropic_init api_key model =
     base_client ''anthropic'' ''https://api.anthropic.com/v1'' api_key
       (or_arg model ''claude-sonnet-4-20250514'') (fl (3 / 1000)) 4096"

definition anthropic_headers :: "client \<Rightarrow> headers" where
  "anthropic_headers self =
     [(''x-api-key'', c_api_key self), (''Content-Type'', ''application/json''),
      (''anthropic-version'', ''2023-06-01'')]"

text \<open>The loop that takes the system message out of the conversation; a later one replaces it.\<close>

fun anthropic_split :: "string \<Rightarrow> msg list \<Rightarrow> msg list \<Rightarrow> (string \<times> msg list) res" where
  "anthropic_split sys acc [] = Inr (sys, acc)"
| "anthropic_split sys acc (m # ms) =
     rbind (msg_item m ''role'') (\<lambda>role.
       if role = ''system'' then rbind (msg_item m ''content'') (\<lambda>c. anthropic_split c acc ms)
       else anthropic_split sys (acc @ [m]) ms)"

definition anthropic_request :: "client \<Rightarrow> kwargs \<Rightarrow> msg list \<Rightarrow> (string \<times> json) res" where
  "anthropic_request self kw ms =
     rbind (anthropic_split [] [] ms) (\<lambda>(sys, rest).
       Inr (c_base_url self @ ''/messages'',
         JObj (chat_payload self kw rest @ (if sys = [] then [] else [(''system'', JStr sys)]))))"

definition anthropic_decode :: "json \<Rightarrow> (json \<times> json) res" where
  "anthropic_decode data =
     rbind (get_path data [Key ''content'', First, Key ''text'']) (\<lambda>text.
     rbind (get_default data ''usage'' (JObj [])) (\<lambda>u.
     rbind (get_default u ''input_tokens'' (JInt 0)) (\<lambda>a.
     rbind (get_default u ''output_tokens'' (JInt 0)) (\<lambda>b.
     rbind (py_add a b) (\<lambda>tok. Inr (text, tok))))))"

definition anthropic_complete :: "client \<Rightarrow> kwargs \<Rightarrow> call_context \<Rightarrow> msg list \<Rightarrow> model_response \<times> net_effect list"
  where
  "anthropic_complete self kw cc ms =
     try_complete self cc (anthropic_request self kw ms) (post anthropic_headers (cc_outcomes cc) self) anthropic_decode (compute_cost self)"

definition anthropic_acomplete :: "client \<Rightarrow> kwargs \<Rightarrow> call_context \<Rightarrow> msg list \<Rightarrow> model_response \<times> net_effect list"
  where
  "anthropic_acomplete self kw cc ms =
     try_complete self cc (anthropic_request self kw ms) (apost anthropic_headers (cc_outcomes cc) self) anthropic_decode (compute_cost self)"

section \<open>Google\<close>

definition google_init :: "string \<Rightarrow> string option \<Rightarrow> client" where
  "google_init api_key model =
     base_client ''google'' ''https://generativelanguage.googleapis.com/v1beta'' api_key
       (or_arg model ''gemini-1.5-pro'') (fl (1 / 1000)) 4096"

definition gemini_content :: "msg \<Rightarrow> json res" where
  "gemini_content m =
     rbind (msg_item m ''role'') (\<lambda>role.
     rbind (msg_item m ''content'') (\<lambda>c.
     Inr (JObj [(''role'', JStr (if role \<in> {''user'', ''system''} then ''user'' else ''model'')),
                (''parts'', JList [JObj [(''text'', JStr c)]])])))"

definition google_request :: "client \<Rightarrow> kwargs \<Rightarrow> msg list \<Rightarrow> (string \<times> json) res" where
  "google_request self kw ms =
     rbind (rmap_list gemini_content ms) (\<lambda>cs.
       Inr (c_base_url self @ ''/models/'' @ c_model self @ '':generateContent?key='' @ c_api_key self,
         JObj [(''contents'', JList cs)]))"

definition google_decode :: "json \<Rightarrow> (json \<times> json) res" where
  "google_decode data =
     rbind (get_path data [Key ''candidates'', First, Key ''content'', Key ''parts'', First, Key ''text'']) (\<lambda>text.
     rbind (get_default data ''metadata'' (JObj [])) (\<lambda>u.
     rbind (get_default u ''tokenCount'' (JInt 120)) (\<lambda>tok. Inr (text, tok))))"

definition google_complete :: "client \<Rightarrow> kwargs \<Rightarrow> call_context \<Rightarrow> msg list \<Rightarrow> model_response \<times> net_effect list"
  where
  "google_complete self kw cc ms =
     try_complete self cc (google_request self kw ms) (post base_headers (cc_outcomes cc) self) google_decode (compute_cost self)"

definition google_acomplete :: "client \<Rightarrow> kwargs \<Rightarrow> call_context \<Rightarrow> msg list \<Rightarrow> model_response \<times> net_effect list"
  where
  "google_acomplete self kw cc ms =
     try_complete self cc (google_request self kw ms) (apost base_headers (cc_outcomes cc) self) google_decode (compute_cost self)"

section \<open>DeepSeek\<close>

definition deepseek_init :: "string \<Rightarrow> string option \<Rightarrow> client" where
  "deepseek_init api_key model =
     base_client ''deepseek'' ''https://api.deepseek.com/v1'' api_key
       (or_arg model ''deepseek-chat'') (fl (3 / 10000)) 4096"

definition deepseek_complete :: "client \<Rightarrow> kwargs \<Rightarrow> call_context \<Rightarrow> msg list \<Rightarrow> model_response \<times> net_effect list"
  where
  "deepseek_complete self kw cc ms =
     try_complete self cc (chat_request ''/chat/completions'' self kw ms) (post base_headers (cc_outcomes cc) self) (chat_decode 100) (compute_cost self)"

definition deepseek_acomplete :: "client \<Rightarrow> kwargs \<Rightarrow> call_context \<Rightarrow> msg list \<Rightarrow> model_response \<times> net_effect list"
  where
  "deepseek_acomplete self kw cc ms =
     try_complete self cc (chat_request ''/chat/completions'' self kw ms) (apost base_headers (cc_outcomes cc) self) (chat_decode 100) (compute_cost self)"

section \<open>Ollama\<close>

definition ollama_init :: "string option \<Rightarrow> string option \<Rightarrow> client" where
  "ollama_init url model =
     base_client ''ollama'' (rstrip CHR ''/'' (or_arg url ''http://localhost:11434'')) []
       (or_arg model ''llama3'') 0 8192"

definition ollama_request :: "client \<Rightarrow> kwargs \<Rightarrow> msg list \<Rightarrow> (string \<times> json) res" where
  "ollama_request self kw ms =
     Inr (c_base_url self @ ''/api/chat'',
       JObj [(''model'', JStr (c_model self)), (''messages'', json_of_msgs ms), (''stream'', JBool False),
             (''options'', JObj [(''num_predict'', kw_max_tokens self kw)])])"

definition ollama_decode :: "json \<Rightarrow> (json \<times> json) res" where
  "ollama_decode data =
     rbind (get_path data [Key ''message'', Key ''content'']) (\<lambda>text.
     rbind (get_default data ''eval_count'' (JInt 80)) (\<lambda>tok. Inr (text, tok)))"

definition ollama_complete :: "client \<Rightarrow> kwargs \<Rightarrow> call_context \<Rightarrow> msg list \<Rightarrow> model_response \<times> net_effect list"
  where
  "ollama_complete self kw cc ms =
     try_complete self cc (ollama_request self kw ms) (post plain_headers (cc_outcomes cc) self) ollama_decode zero_cost"

definition ollama_acomplete :: "client \<Rightarrow> kwargs \<Rightarrow> call_context \<Rightarrow> msg list \<Rightarrow> model_response \<times> net_effect list"
  where
  "ollama_acomplete self kw cc ms =
     try_complete self cc (ollama_request self kw ms) (apost plain_headers (cc_outcomes cc) self) ollama_decode zero_cost"

section \<open>Moonshot\<close>

definition moonshot_init :: "string \<Rightarrow> string option \<Rightarrow> client" where
  "moonshot_init api_key model =
     base_client ''moonshot'' ''https://api.moonshot.cn/v1'' api_key
       (or_arg model ''moonshot-v1-32k'') (fl (2 / 1000)) 4096"

definition moonshot_complete :: "client \<Rightarrow> kwargs \<Rightarrow> call_context \<Rightarrow> msg list \<Rightarrow> model_response \<times> net_effect list"
  where
  "moonshot_complete self kw cc ms =
     try_complete self cc (chat_request ''/chat/completions'' self kw ms) (post base_headers (cc_outcomes cc) self) (chat_decode 130) (compute_cost self)"

definition moonshot_acomplete :: "client \<Rightarrow> kwargs \<Rightarrow> call_context \<Rightarrow> msg list \<Rightarrow> model_response \<times> net_effect list"
  where
  "moonshot_acomplete self kw cc ms =
     try_complete self cc (chat_request ''/chat/completions'' self kw ms) (apost base_headers (cc_outcomes cc) self) (chat_decode 130) (compute_cost self)"

section \<open>Zhipuai\<close>

definition zhipuai_init :: "string \<Rightarrow> string option \<Rightarrow> client" where
  "zhipuai_init api_key model =
     base_client ''zhipuai'' ''https://open.bigmodel.cn/api/paas/v4'' api_key
       (or_arg model ''glm-4-plus'') (fl (1 / 1000)) 4096"

definition zhipuai_complete :: "client \<Rightarrow> kwargs \<Rightarrow> call_context \<Rightarrow> msg list \<Rightarrow> model_response \<times> net_effect list"
  where
  "zhipuai_complete self kw cc ms =
     try_complete self cc (chat_request ''/chat/completions'' self kw ms) (post base_headers (cc_outcomes cc) self) (chat_decode 110) (compute_cost self)"

definition zhipuai_acomplete :: "client \<Rightarrow> kwargs \<Rightarrow> call_context \<Rightarrow> msg list \<Rightarrow> model_response \<times> net_effect list"
  where
  "zhipuai_acomplete self kw cc ms =
     try_complete self cc (chat_request ''/chat/completions'' self kw ms) (apost base_headers (cc_outcomes cc) self) (chat_decode 110) (compute_cost self)"

section \<open>Groq\<close>

definition groq_init :: "string \<Rightarrow> string option \<Rightarrow> client" where
  "groq_init api_key model =
     base_client ''groq'' ''https://api.groq.com/openai/v1'' api_key
       (or_arg model ''llama-3.1-70b-versatile'') (fl (7 / 10000)) 8192"

definition groq_complete :: "client \<Rightarrow> kwargs \<Rightarrow> call_context \<Rightarrow> msg list \<Rightarrow> model_response \<times> net_effect list"
  where
  "groq_complete self kw cc ms =
     try_complete self cc (chat_request ''/chat/completions'' self kw ms) (post base_headers (cc_outcomes cc) self) (chat_decode 90) (compute_cost self)"

definition groq_acomplete :: "client \<Rightarrow> kwargs \<Rightarrow> call_context \<Rightarrow> msg list \<Rightarrow> model_response \<times> net_effect list"
  where
  "groq_acomplete self kw cc ms =
     try_complete self cc (chat_request ''/chat/completions'' self kw ms) (apost base_headers (cc_outcomes cc) self) (chat_decode 90) (compute_cost self)"

section \<open>Together\<close>

definition together_init :: "string \<Rightarrow> string option \<Rightarrow> client" where
  "together_init api_key model =
     base_client ''together'' ''https://api.together.xyz/v1'' api_key
       (or_arg model ''meta-llama/Meta-Llama-3.1-70B-Instruct-Turbo'') (fl (9 / 10000)) 4096"

definition together_complete :: "client \<Rightarrow> kwargs \<Rightarrow> call_context \<Rightarrow> msg list \<Rightarrow> model_response \<times> net_effect list"
  where
  "together_complete self kw cc ms =
     try_complete self cc (chat_request ''/chat/completions'' self kw ms) (post base_headers (cc_outcomes cc) self) (chat_decode 140) (compute_cost self)"

definition together_acomplete :: "client \<Rightarrow> kwargs \<Rightarrow> call_context \<Rightarrow> msg list \<Rightarrow> model_response \<times> net_effect list"
  where
  "together_acomplete self kw cc ms =
     try_complete self cc (chat_request ''/chat/completions'' self kw ms) (apost base_headers (cc_outcomes cc) self) (chat_decode 140) (compute_cost self)"

section \<open>Cohere\<close>

definition cohere_init :: "string \<Rightarrow> string option \<Rightarrow> client" where
  "cohere_init api_key model =
     base_client ''cohere'' ''https://api.cohere.com/v2'' api_key
       (or_arg model ''command-r-plus'') (fl (3 / 1000)) 4096"

text \<open>
  System and assistant messages go to the history; of all the others only the last is kept, as the
  message to answer.
\<close>

definition history_item :: "string \<Rightarrow> string \<Rightarrow> json" where
  "history_item role text = JObj [(''role'', JStr role), (''message'', JStr text)]"

fun cohere_split :: "string \<Rightarrow> json list \<Rightarrow> msg list \<Rightarrow> (string \<times> json list) res" where
  "cohere_split lst hist [] = Inr (lst, hist)"
| "cohere_split lst hist (m # ms) =
     rbind (msg_item m ''role'') (\<lambda>role.
     rbind (msg_item m ''content'') (\<lambda>c.
       if role = ''system'' then cohere_split lst (hist @ [history_item ''SYSTEM'' c]) ms
       else if role = ''assistant'' then cohere_split lst (hist @ [history_item ''CHATBOT'' c]) ms
       else cohere_split c hist ms))"

definition cohere_request :: "client \<Rightarrow> kwargs \<Rightarrow> msg list \<Rightarrow> (string \<times> json) res" where
  "cohere_request self kw ms =
     rbind (cohere_split [] [] ms) (\<lambda>(lst, hist).
       Inr (c_base_url self @ ''/chat'',
         JObj [(''model'', JStr (c_model self)), (''message'', JStr lst), (''chat_history'', JList hist),
               (''max_tokens'', kw_max_tokens self kw)]))"

definition cohere_tokens :: "json \<Rightarrow> string \<Rightarrow> json res" where
  "cohere_tokens meta key =
     rbind (get_default meta ''tokens'' (JObj [])) (\<lambda>t. get_default t key (JInt 0))"

definition cohere_decode :: "json \<Rightarrow> (json \<times> json) res" where
  "cohere_decode data =
     rbind (get_key data ''text'') (\<lambda>text.
     rbind (get_default data ''meta'' (JObj [])) (\<lambda>meta.
     rbind (cohere_tokens meta ''input_tokens'') (\<lambda>a.
     rbind (cohere_tokens meta ''output_tokens'') (\<lambda>b.
     rbind (py_add a b) (\<lambda>tok. Inr (text, tok))))))"

definition cohere_complete :: "client \<Rightarrow> kwargs \<Rightarrow> call_context \<Rightarrow> msg list \<Rightarrow> model_response \<times> net_effect list"
  where
  "cohere_complete self kw cc ms =
     try_complete self cc (cohere_request self kw ms) (post base_headers (cc_outcomes cc) self) cohere_decode (compute_cost self)"

definition cohere_acomplete :: "client \<Rightarrow> kwargs \<Rightarrow> call_context \<Rightarrow> msg list \<Rightarrow> model_response \<times> net_effect list"
  where
  "cohere_acomplete self kw cc ms = cohere_complete self kw cc ms"

section \<open>Qwen\<close>

definition qwen_init :: "string \<Rightarrow> string option \<Rightarrow> client" where
  "qwen_init api_key model =
     base_client ''qwen'' ''https://dashscope.aliyuncs.com/compatible-mode/v1'' api_key
       (or_arg model ''qwen-max'') (fl (2 / 1000)) 4096"

definition qwen_complete :: "client \<Rightarrow> kwargs \<Rightarrow> call_context \<Rightarrow> msg list \<Rightarrow> model_response \<times> net_effect list"
  where
  "qwen_complete self kw cc ms =
     try_complete self cc (chat_request ''/chat/completions'' self kw ms) (post base_headers (cc_outcomes cc) self) (chat_decode 100) (compute_cost self)"

definition qwen_acomplete :: "client \<Rightarrow> kwargs \<Rightarrow> call_context \<Rightarrow> msg list \<Rightarrow> model_response \<times> net_effect list"
  where
  "qwen_acomplete self kw cc ms =
     try_complete self cc (chat_request ''/chat/completions'' self kw ms) (apost base_headers (cc_outcomes cc) self) (chat_decode 100) (compute_cost self)"

section \<open>Mistral\<close>

definition mistral_init :: "string \<Rightarrow> string option \<Rightarrow> client" where
  "mistral_init api_key model =
     base_client ''mistral'' ''https://api.mistral.ai/v1'' api_key
       (or_arg model ''mistral-large-latest'') (fl (2 / 1000)) 4096"

definition mistral_complete :: "client \<Rightarrow> kwargs \<Rightarrow> call_context \<Rightarrow> msg list \<Rightarrow> model_response \<times> net_effect list"
  where
  "mistral_complete self kw cc ms =
     try_complete self cc (chat_request ''/chat/completions'' self kw ms) (post base_headers (cc_outcomes cc) self) (chat_decode 100) (compute_cost self)"

definition mistral_acomplete :: "client \<Rightarrow> kwargs \<Rightarrow> call_context \<Rightarrow> msg list \<Rightarrow> model_response \<times> net_effect list"
  where
  "mistral_acomplete self kw cc ms =
     try_complete self cc (chat_request ''/chat/completions'' self kw ms) (apost base_headers (cc_outcomes cc) self) (chat_decode 100) (compute_cost self)"

section \<open>Perplexity\<close>

definition perplexity_init :: "string \<Rightarrow> string option \<Rightarrow> client" where
  "perplexity_init api_key model =
     base_client ''perplexity'' ''https://api.perplexity.ai'' api_key
       (or_arg model ''sonar-medium'') (fl (1 / 1000)) 4096"

definition perplexity_complete :: "client \<Rightarrow> kwargs \<Rightarrow> call_context \<Rightarrow> msg list \<Rightarrow> model_response \<times> net_effect list"
  where
  "perplexity_complete self kw cc ms =
     try_complete self cc (chat_request ''/chat/completions'' self kw ms) (post base_headers (cc_outcomes cc) self) (chat_decode 100) (compute_cost self)"

definition perplexity_acomplete :: "client \<Rightarrow> kwargs \<Rightarrow> call_context \<Rightarrow> msg list \<Rightarrow> model_response \<times> net_effect list"
  where
  "perplexity_acomplete self kw cc ms =
     try_complete self cc (chat_request ''/chat/completions'' self kw ms) (apost base_headers (cc_outcomes cc) self) (chat_decode 100) (compute_cost self)"

section \<open>Baichuan\<close>

definition baichuan_init :: "string \<Rightarrow> string option \<Rightarrow> client" where
  "baichuan_init api_key model =
     base_client ''baichuan'' ''https://api.baichuan-ai.com/v1'' api_key
       (or_arg model ''baichuan3-turbo'') (fl (1 / 1000)) 4096"

definition baichuan_complete :: "client \<Rightarrow> kwargs \<Rightarrow> call_context \<Rightarrow> msg list \<Rightarrow> model_response \<times> net_effect list"
  where
  "baichuan_complete self kw cc ms =
     try_complete self cc (chat_request ''/chat/completions'' self kw ms) (post base_headers (cc_outcomes cc) self) (chat_decode 100) (compute_cost self)"

definition baichuan_acomplete :: "client \<Rightarrow> kwargs \<Rightarrow> call_context \<Rightarrow> msg list \<Rightarrow> model_response \<times> net_effect list"
  where
  "baichuan_acomplete self kw cc ms =
     try_complete self cc (chat_request ''/chat/completions'' self kw ms) (apost base_headers (cc_outcomes cc) self) (chat_decode 100) (compute_cost self)"

section \<open>Minimax\<close>

definition minimax_init :: "string \<Rightarrow> string option \<Rightarrow> client" where
  "minimax_init api_key model =
     base_client ''minimax'' ''https://api.minimax.chat/v1'' api_key
       (or_arg model ''abab6.5s'') (fl (1 / 1000)) 4096"

definition minimax_decode :: "json \<Rightarrow> (json \<times> json) res" where
  "minimax_decode data =
     rbind (get_path data [Key ''choices'', First, Key ''messages'', First, Key ''text'']) (\<lambda>text.
     rbind (usage_tokens data 100) (\<lambda>tok. Inr (text, tok)))"

definition minimax_complete :: "client \<Rightarrow> kwargs \<Rightarrow> call_context \<Rightarrow> msg list \<Rightarrow> model_response \<times> net_effect list"
  where
  "minimax_complete self kw cc ms =
     try_complete self cc (chat_request ''/text/chatcompletion_pro'' self kw ms) (post base_headers (cc_outcomes cc) self) minimax_decode (compute_cost self)"

definition minimax_acomplete :: "client \<Rightarrow> kwargs \<Rightarrow> call_context \<Rightarrow> msg list \<Rightarrow> model_response \<times> net_effect list"
  where
  "minimax_acomplete self kw cc ms =
     try_complete self cc (chat_request ''/text/chatcompletion_pro'' self kw ms) (apost base_headers (cc_outcomes cc) self) minimax_decode (compute_cost self)"

section \<open>Fireworks\<close>

definition fireworks_init :: "string \<Rightarrow> string option \<Rightarrow> client" where
  "fireworks_init api_key model =
     base_client ''fireworks'' ''https://api.fireworks.ai/inference/v1'' api_key
       (or_arg model ''accounts/fireworks/models/mixtral-8x7b-instruct'') (fl (5 / 10000)) 4096"

definition fireworks_complete :: "client \<Rightarrow> kwargs \<Rightarrow> call_context \<Rightarrow> msg list \<Rightarrow> model_response \<times> net_effect list"
  where
  "fireworks_complete self kw cc ms =
     try_complete self cc (chat_request ''/chat/completions'' self kw ms) (post base_headers (cc_outcomes cc) self) (chat_decode 100) (compute_cost self)"

definition fireworks_acomplete :: "client \<Rightarrow> kwargs \<Rightarrow> call_context \<Rightarrow> msg list \<Rightarrow> model_response \<times> net_effect list"
  where
  "fireworks_acomplete self kw cc ms =
     try_complete self cc (chat_request ''/chat/completions'' self kw ms) (apost base_headers (cc_outcomes cc) self) (chat_decode 100) (compute_cost self)"

section \<open>Vllm\<close>

definition vllm_init :: "string option \<Rightarrow> string option \<Rightarrow> client" where
  "vllm_init url model =
     base_client ''vllm'' (rstrip CHR ''/'' (or_arg url ''http://localhost:8000'')) []
       (or_arg model ''default'') 0 4096"

definition vllm_complete :: "client \<Rightarrow> kwargs \<Rightarrow> call_context \<Rightarrow> msg list \<Rightarrow> model_response \<times> net_effect list"
  where
  "vllm_complete self kw cc ms =
     try_complete self cc (chat_request ''/v1/chat/completions'' self kw ms) (post plain_headers (cc_outcomes cc) self) (chat_decode 100) zero_cost"

definition vllm_acomplete :: "client \<Rightarrow> kwargs \<Rightarrow> call_context \<Rightarrow> msg list \<Rightarrow> model_response \<times> net_effect list"
  where
  "vllm_acomplete self kw cc ms =
     try_complete self cc (chat_request ''/v1/chat/completions'' self kw ms) (apost plain_headers (cc_outcomes cc) self) (chat_decode 100) zero_cost"

section \<open>Huggingface\<close>

definition huggingface_init :: "string option \<Rightarrow> string option \<Rightarrow> client" where
  "huggingface_init url model =
     base_client ''huggingface'' (rstrip CHR ''/'' (or_arg url ''http://localhost:8080'')) []
       (or_arg model ''default'') 0 4096"

definition huggingface_complete :: "client \<Rightarrow> kwargs \<Rightarrow> call_context \<Rightarrow> msg list \<Rightarrow> model_response \<times> net_effect list"
  where
  "huggingface_complete self kw cc ms =
     try_complete self cc (chat_request ''/v1/chat/completions'' self kw ms) (post plain_headers (cc_outcomes cc) self) (chat_decode 100) zero_cost"

definition huggingface_acomplete :: "client \<Rightarrow> kwargs \<Rightarrow> call_context \<Rightarrow> msg list \<Rightarrow> model_response \<times> net_effect list"
  where
  "huggingface_acomplete self kw cc ms =
     try_complete self cc (chat_request ''/v1/chat/completions'' self kw ms) (apost plain_headers (cc_outcomes cc) self) (chat_decode 100) zero_cost"

section \<open>The registry and the factory\<close>

datatype client_class =
    OpenAIClient | AnthropicClient | GoogleClient | DeepSeekClient
  | OllamaClient | MoonshotClient | ZhipuaiClient | GroqClient
  | TogetherClient | CohereClient | QwenClient | MistralClient
  | PerplexityClient | BaichuanClient | MinimaxClient | FireworksClient
  | VllmClient | HuggingfaceClient

definition PROVIDERS :: "(string, client_class) dict" where
  "PROVIDERS =
     [(''openai'', OpenAIClient), (''anthropic'', AnthropicClient), (''google'', GoogleClient),
      (''deepseek'', DeepSeekClient), (''ollama'', OllamaClient), (''moonshot'', MoonshotClient),
      (''zhipuai'', ZhipuaiClient), (''groq'', GroqClient), (''together'', TogetherClient),
      (''cohere'', CohereClient), (''qwen'', QwenClient), (''mistral'', MistralClient),
      (''perplexity'', PerplexityClient), (''baichuan'', BaichuanClient), (''minimax'', MinimaxClient),
      (''fireworks'', FireworksClient), (''vllm'', VllmClient), (''huggingface'', HuggingfaceClient)]"

definition is_local_class :: "client_class \<Rightarrow> bool" where
  "is_local_class cls \<longleftrightarrow> cls \<in> {OllamaClient, VllmClient, HuggingfaceClient}"

fun client_complete ::
  "client_class \<Rightarrow> client \<Rightarrow> kwargs \<Rightarrow> call_context \<Rightarrow> msg list \<Rightarrow> model_response \<times> net_effect list"
  where
  "client_complete OpenAIClient = openai_complete"
| "client_complete AnthropicClient = anthropic_complete"
| "client_complete GoogleClient = google_complete"
| "client_complete DeepSeekClient = deepseek_complete"
| "client_complete OllamaClient = ollama_complete"
| "client_complete MoonshotClient = moonshot_complete"
| "client_complete ZhipuaiClient = zhipuai_complete"
| "client_complete GroqClient = groq_complete"
| "client_complete TogetherClient = together_complete"
| "client_complete CohereClient = cohere_complete"
| "client_complete QwenClient = qwen_complete"
| "client_complete MistralClient = mistral_complete"
| "client_complete PerplexityClient = perplexity_complete"
| "client_complete BaichuanClient = baichuan_complete"
| "client_complete MinimaxClient = minimax_complete"
| "client_complete FireworksClient = fireworks_complete"
| "client_complete VllmClient = vllm_complete"
| "client_complete HuggingfaceClient = huggingface_complete"

fun client_acomplete ::
  "client_class \<Rightarrow> client \<Rightarrow> kwargs \<Rightarrow> call_context \<Rightarrow> msg list \<Rightarrow> model_response \<times> net_effect list"
  where
  "client_acomplete OpenAIClient = openai_acomplete"
| "client_acomplete AnthropicClient = anthropic_acomplete"
| "client_acomplete GoogleClient = google_acomplete"
| "client_acomplete DeepSeekClient = deepseek_acomplete"
| "client_acomplete OllamaClient = ollama_acomplete"
| "client_acomplete MoonshotClient = moonshot_acomplete"
| "client_acomplete ZhipuaiClient = zhipuai_acomplete"
| "client_acomplete GroqClient = groq_acomplete"
| "client_acomplete TogetherClient = together_acomplete"
| "client_acomplete CohereClient = cohere_acomplete"
| "client_acomplete QwenClient = qwen_acomplete"
| "client_acomplete MistralClient = mistral_acomplete"
| "client_acomplete PerplexityClient = perplexity_acomplete"
| "client_acomplete BaichuanClient = baichuan_acomplete"
| "client_acomplete MinimaxClient = minimax_acomplete"
| "client_acomplete FireworksClient = fireworks_acomplete"
| "client_acomplete VllmClient = vllm_acomplete"
| "client_acomplete HuggingfaceClient = huggingface_acomplete"

text \<open>Calling the class with keyword arguments\<close>

fun class_name :: "client_class \<Rightarrow> string" where
  "class_name OpenAIClient = ''OpenAIClient''"
| "class_name AnthropicClient = ''AnthropicClient''"
| "class_name GoogleClient = ''GoogleClient''"
| "class_name DeepSeekClient = ''DeepSeekClient''"
| "class_name OllamaClient = ''OllamaClient''"
| "class_name MoonshotClient = ''MoonshotClient''"
| "class_name ZhipuaiClient = ''ZhipuaiClient''"
| "class_name GroqClient = ''GroqClient''"
| "class_name TogetherClient = ''TogetherClient''"
| "class_name CohereClient = ''CohereClient''"
| "class_name QwenClient = ''QwenClient''"
| "class_name MistralClient = ''MistralClient''"
| "class_name PerplexityClient = ''PerplexityClient''"
| "class_name BaichuanClient = ''BaichuanClient''"
| "class_name MinimaxClient = ''MinimaxClient''"
| "class_name FireworksClient = ''FireworksClient''"
| "class_name VllmClient = ''VllmClient''"
| "class_name HuggingfaceClient = ''HuggingfaceClient''"

definition missing_argument :: "client_class \<Rightarrow> pyexn" where
  "missing_argument cls = Exn TypeError (class_name cls
     @ ''.__init__() missing 1 required positional argument: '' @ quoted ''api_key'')"

definition unexpected_argument :: "client_class \<Rightarrow> string \<Rightarrow> pyexn" where
  "unexpected_argument cls k = Exn TypeError (class_name cls
     @ ''.__init__() got an unexpected keyword argument '' @ quoted k)"

definition with_key ::
  "client_class \<Rightarrow> (string \<Rightarrow> string option \<Rightarrow> client) \<Rightarrow> string option \<Rightarrow> string option \<Rightarrow> client res" where
  "with_key cls init key model =
     (case key of None \<Rightarrow> Inl (missing_argument cls) | Some k \<Rightarrow> Inr (init k model))"

text \<open>The first argument is the key of a remote service or the address of a local one.\<close>

fun init_class :: "client_class \<Rightarrow> string option \<Rightarrow> string option \<Rightarrow> client res" where
  "init_class OpenAIClient x model = with_key OpenAIClient openai_init x model"
| "init_class AnthropicClient x model = with_key AnthropicClient anthropic_init x model"
| "init_class GoogleClient x model = with_key GoogleClient google_init x model"
| "init_class DeepSeekClient x model = with_key DeepSeekClient deepseek_init x model"
| "init_class OllamaClient x model = Inr (ollama_init x model)"
| "init_class MoonshotClient x model = with_key MoonshotClient moonshot_init x model"
| "init_class ZhipuaiClient x model = with_key ZhipuaiClient zhipuai_init x model"
| "init_class GroqClient x model = with_key GroqClient groq_init x model"
| "init_class TogetherClient x model = with_key TogetherClient together_init x model"
| "init_class CohereClient x model = with_key CohereClient cohere_init x model"
| "init_class QwenClient x model = with_key QwenClient qwen_init x model"
| "init_class MistralClient x model = with_key MistralClient mistral_init x model"
| "init_class PerplexityClient x model = with_key PerplexityClient perplexity_init x model"
| "init_class BaichuanClient x model = with_key BaichuanClient baichuan_init x model"
| "init_class MinimaxClient x model = with_key MinimaxClient minimax_init x model"
| "init_class FireworksClient x model = with_key FireworksClient fireworks_init x model"
| "init_class VllmClient x model = Inr (vllm_init x model)"
| "init_class HuggingfaceClient x model = Inr (huggingface_init x model)"

definition first_param :: "client_class \<Rightarrow> string" where
  "first_param cls = (if is_local_class cls then ''base_url'' else ''api_key'')"

definition construct :: "client_class \<Rightarrow> (string, string) dict \<Rightarrow> client res" where
  "construct cls kw =
     (case find (\<lambda>k. k \<notin> {first_param cls, ''model''}) (dict_keys kw) of
        Some k \<Rightarrow> Inl (unexpected_argument cls k)
      | None \<Rightarrow> init_class cls (map_of kw (first_param cls)) (map_of kw ''model''))"

text \<open>\<open>list(PROVIDERS.keys())\<close>, printed\<close>

fun show_names :: "string list \<Rightarrow> string" where
  "show_names [] = []"
| "show_names [n] = quoted n"
| "show_names (n # m # ns) = quoted n @ '', '' @ show_names (m # ns)"

definition unknown_provider :: "string \<Rightarrow> pyexn" where
  "unknown_provider name = Exn ValueError
     (''Unknown provider: '' @ name @ ''. Available: ['' @ show_names (dict_keys PROVIDERS) @ '']'')"

definition create_provider :: "string \<Rightarrow> (string, string) dict \<Rightarrow> (client_class \<times> client) res" where
  "create_provider name kw =
     (case map_of PROVIDERS name of
        None \<Rightarrow> Inl (unknown_provider name)
      | Some cls \<Rightarrow> rbind (construct cls kw) (\<lambda>c. Inr (cls, c)))"

section \<open>The contract of a completion\<close>

text \<open>
  What a caller relies on: a completion returns (it never raises), a failed one carries no text, no
  tokens and no cost, and it costs at most three requests and seven seconds of sleep.
\<close>

definition completion_ok :: "model_response \<times> net_effect list \<Rightarrow> bool" where
  "completion_ok re \<longleftrightarrow> (case re of (r, es) \<Rightarrow>
     (m_success r \<longrightarrow> m_error r = [])
     \<and> (\<not> m_success r \<longrightarrow> m_text r = JStr [] \<and> m_tokens r = JInt 0 \<and> m_cost r = 0 \<and> m_raw r = JNull)
     \<and> post_count es \<le> 3 \<and> total_sleep es \<le> 7)"

locale completion =
  fixes run :: "kwargs \<Rightarrow> call_context \<Rightarrow> msg list \<Rightarrow> model_response \<times> net_effect list"
  assumes run_ok: "completion_ok (run kw cc ms)"
begin

text \<open>A batch of conversations, one call after the other\<close>

definition run_batch :: "kwargs \<Rightarrow> (call_context \<times> msg list) list \<Rightarrow> model_response list \<times> net_effect list" where
  "run_batch kw qs =
     (map (\<lambda>(cc, ms). fst (run kw cc ms)) qs, concat (map (\<lambda>(cc, ms). snd (run kw cc ms)) qs))"

lemma post_count_append: "post_count (es @ fs) = post_count es + post_count fs"
  by (induction es) simp_all

lemma total_sleep_append: "total_sleep (es @ fs) = total_sleep es + total_sleep fs"
  by (induction es) simp_all

lemma batch_bounds:
  "length (fst (run_batch kw qs)) = length qs
   \<and> post_count (snd (run_batch kw qs)) \<le> 3 * length qs
   \<and> total_sleep (snd (run_batch kw qs)) \<le> 7 * length qs"
proof (induction qs)
  case (Cons q qs)
  obtain cc ms where q: "q = (cc, ms)" by (cases q)
  have "post_count (snd (run kw cc ms)) \<le> 3" "total_sleep (snd (run kw cc ms)) \<le> 7"
    using run_ok [of kw cc ms] by (auto simp: completion_ok_def split: prod.splits)
  with Cons show ?case by (simp add: run_batch_def q post_count_append total_sleep_append)
qed (simp add: run_batch_def)

end

text \<open>An asynchronous version that does the same with the asynchronous effects.\<close>

locale async_completion = completion run for run +
  fixes arun :: "kwargs \<Rightarrow> call_context \<Rightarrow> msg list \<Rightarrow> model_response \<times> net_effect list"
  assumes arun_agrees: "arun kw cc ms = map_prod id (map to_async) (run kw cc ms)"
begin

lemma arun_never_blocks: "list_all (\<lambda>e. \<not> blocking e) (snd (arun kw cc ms))"
  by (simp add: arun_agrees list_all_iff)

lemma arun_result: "fst (arun kw cc ms) = fst (run kw cc ms)"
  by (simp add: arun_agrees)

lemma async_counts:
  "post_count (map to_async es) = post_count es" "total_sleep (map to_async es) = total_sleep es"
  by (induction es) simp_all

lemma arun_ok: "completion_ok (arun kw cc ms)"
  using run_ok [of kw cc ms]
  by (cases "run kw cc ms") (simp add: arun_agrees completion_ok_def async_counts)

end

sublocale async_completion \<subseteq> async: completion arun
  by unfold_locales (rule arun_ok)

lemma post_bounds:
  "post_count (snd (post hf outs self url payload)) \<le> 3
   \<and> total_sleep (snd (post hf outs self url payload)) \<le> 7
   \<and> list_all blocking (snd (post hf outs self url payload))"
  using post_loop_bounds [of url payload "hf self" outs 3 0 None] by (simp add: post_def)

lemma apost_post: "apost hf outs self url payload = map_prod id (map to_async) (post hf outs self url payload)"
  by (simp add: post_def apost_def apost_loop_async)

lemma try_complete_ok:
  assumes "\<And>url payload. post_count (snd (send url payload)) \<le> 3 \<and> total_sleep (snd (send url payload)) \<le> 7"
  shows "completion_ok (try_complete self cc built send decode costf)"
proof (cases built)
  case (Inl e)
  then show ?thesis by (simp add: try_complete_def completion_ok_def failure_response_def)
next
  case (Inr up)
  obtain url payload where up: "up = (url, payload)" by (cases up)
  from assms [of url payload] Inr up show ?thesis
    by (auto simp: try_complete_def completion_ok_def failure_response_def success_response_def Let_def
        split: prod.splits sum.splits)
qed

lemma try_complete_async:
  "try_complete self cc built (apost hf outs c) decode costf
     = map_prod id (map to_async) (try_complete self cc built (post hf outs c) decode costf)"
  by (auto simp: try_complete_def Let_def apost_post split: sum.splits prod.splits)

text \<open>Every client but Cohere is an instance of one pair of functions.\<close>

interpretation posting: async_completion
  "\<lambda>kw cc ms. try_complete self cc (req self kw ms) (post hf (cc_outcomes cc) self) decode costf"
  "\<lambda>kw cc ms. try_complete self cc (req self kw ms) (apost hf (cc_outcomes cc) self) decode costf"
  for self req hf decode costf
proof
  fix kw cc ms
  show "completion_ok (try_complete self cc (req self kw ms) (post hf (cc_outcomes cc) self) decode costf)"
    by (rule try_complete_ok) (use post_bounds in blast)
qed (rule try_complete_async)

lemmas complete_defs =
  openai_complete_def anthropic_complete_def google_complete_def deepseek_complete_def
  ollama_complete_def moonshot_complete_def zhipuai_complete_def groq_complete_def
  together_complete_def cohere_complete_def qwen_complete_def mistral_complete_def
  perplexity_complete_def baichuan_complete_def minimax_complete_def fireworks_complete_def
  vllm_complete_def huggingface_complete_def

lemmas acomplete_defs =
  openai_acomplete_def anthropic_acomplete_def google_acomplete_def deepseek_acomplete_def
  ollama_acomplete_def moonshot_acomplete_def zhipuai_acomplete_def groq_acomplete_def
  together_acomplete_def cohere_acomplete_def qwen_acomplete_def mistral_acomplete_def
  perplexity_acomplete_def baichuan_acomplete_def minimax_acomplete_def fireworks_acomplete_def
  vllm_acomplete_def huggingface_acomplete_def

text \<open>The request, the headers, the decoder and the cost of each class\<close>

fun class_request :: "client_class \<Rightarrow> client \<Rightarrow> kwargs \<Rightarrow> msg list \<Rightarrow> (string \<times> json) res" where
  "class_request OpenAIClient = openai_request"
| "class_request AnthropicClient = anthropic_request"
| "class_request GoogleClient = google_request"
| "class_request OllamaClient = ollama_request"
| "class_request CohereClient = cohere_request"
| "class_request MinimaxClient = chat_request ''/text/chatcompletion_pro''"
| "class_request VllmClient = chat_request ''/v1/chat/completions''"
| "class_request HuggingfaceClient = chat_request ''/v1/chat/completions''"
| "class_request cls = chat_request ''/chat/completions''"

definition class_headers :: "client_class \<Rightarrow> client \<Rightarrow> headers" where
  "class_headers cls = (if cls = AnthropicClient then anthropic_headers
     else if is_local_class cls then plain_headers else base_headers)"

fun class_decode :: "client_class \<Rightarrow> json \<Rightarrow> (json \<times> json) res" where
  "class_decode OpenAIClient = chat_decode 0"
| "class_decode AnthropicClient = anthropic_decode"
| "class_decode GoogleClient = google_decode"
| "class_decode OllamaClient = ollama_decode"
| "class_decode CohereClient = cohere_decode"
| "class_decode MinimaxClient = minimax_decode"
| "class_decode MoonshotClient = chat_decode 130"
| "class_decode ZhipuaiClient = chat_decode 110"
| "class_decode GroqClient = chat_decode 90"
| "class_decode TogetherClient = chat_decode 140"
| "class_decode cls = chat_decode 100"

definition class_cost :: "client_class \<Rightarrow> client \<Rightarrow> json \<Rightarrow> rat res" where
  "class_cost cls = (if is_local_class cls then (\<lambda>self. zero_cost) else compute_cost)"

lemma client_complete_eq:
  "client_complete cls self kw cc ms =
     try_complete self cc (class_request cls self kw ms) (post (class_headers cls) (cc_outcomes cc) self)
       (class_decode cls) (class_cost cls self)"
  by (cases cls) (simp_all add: complete_defs class_headers_def class_cost_def is_local_class_def)

lemma client_acomplete_eq:
  "cls \<noteq> CohereClient \<Longrightarrow> client_acomplete cls self kw cc ms =
     try_complete self cc (class_request cls self kw ms) (apost (class_headers cls) (cc_outcomes cc) self)
       (class_decode cls) (class_cost cls self)"
  by (cases cls) (simp_all add: acomplete_defs class_headers_def class_cost_def is_local_class_def)

interpretation every_client: completion "client_complete cls self" for cls self
  by unfold_locales (simp only: client_complete_eq posting.run_ok)

section \<open>Properties\<close>

text \<open>
  C9: completions are total and bounded. For every client class, every conversation and every
  behaviour of the service, both \<open>complete\<close> and \<open>acomplete\<close> return a response; a failed one has no
  text, tokens or cost, and at most three requests and seven seconds of sleep are spent.
\<close>

theorem clients_never_raise:
  "completion_ok (client_complete cls self kw cc ms) \<and> completion_ok (client_acomplete cls self kw cc ms)"
proof (cases "cls = CohereClient")
  case True
  then show ?thesis using every_client.run_ok [of cls self kw cc ms] by (simp add: cohere_acomplete_def)
next
  case False
  then show ?thesis
    by (simp only: client_complete_eq client_acomplete_eq posting.run_ok posting.arun_ok simp_thms)
qed

text \<open>
  C20: the two interfaces agree. Every client except Cohere returns from \<open>acomplete\<close> what \<open>complete\<close>
  returns, and its effects are the same requests and sleeps done asynchronously. Cohere's \<open>acomplete\<close>
  is its \<open>complete\<close>: every effect of it blocks the event loop.
\<close>

theorem async_agrees:
  "(if cls = CohereClient then
      client_acomplete cls self kw cc ms = client_complete cls self kw cc ms
      \<and> list_all blocking (snd (client_acomplete cls self kw cc ms))
    else client_acomplete cls self kw cc ms = map_prod id (map to_async) (client_complete cls self kw cc ms)
      \<and> list_all (\<lambda>e. \<not> blocking e) (snd (client_acomplete cls self kw cc ms)))"
proof (cases "cls = CohereClient")
  case True
  have "list_all blocking (snd (client_complete cls self kw cc ms))"
    using post_bounds
    by (auto simp: client_complete_eq try_complete_def Let_def split: sum.splits prod.splits)
      (metis snd_conv)+
  with True show ?thesis by (simp add: cohere_acomplete_def)
next
  case False
  then show ?thesis
    by (simp only: client_complete_eq client_acomplete_eq posting.arun_agrees if_False simp_thms)
      (simp add: list_all_iff)
qed

section \<open>Decoding a well-formed reply\<close>

text \<open>A document of the shape each client reads, with a text and two token counts\<close>

definition usage_field :: "int \<Rightarrow> int \<Rightarrow> string \<times> json" where
  "usage_field a b = (''usage'', JObj [(''total_tokens'', JInt (a + b))])"

fun encode_reply :: "client_class \<Rightarrow> string \<Rightarrow> int \<Rightarrow> int \<Rightarrow> json" where
  "encode_reply AnthropicClient text a b =
     JObj [(''content'', JList [JObj [(''text'', JStr text)]]),
           (''usage'', JObj [(''input_tokens'', JInt a), (''output_tokens'', JInt b)])]"
| "encode_reply GoogleClient text a b =
     JObj [(''candidates'', JList [JObj [(''content'', JObj [(''parts'', JList [JObj [(''text'', JStr text)]])])]]),
           (''metadata'', JObj [(''tokenCount'', JInt (a + b))])]"
| "encode_reply OllamaClient text a b =
     JObj [(''message'', JObj [(''content'', JStr text)]), (''eval_count'', JInt (a + b))]"
| "encode_reply CohereClient text a b =
     JObj [(''text'', JStr text),
           (''meta'', JObj [(''tokens'', JObj [(''input_tokens'', JInt a), (''output_tokens'', JInt b)])])]"
| "encode_reply MinimaxClient text a b =
     JObj [(''choices'', JList [JObj [(''messages'', JList [JObj [(''text'', JStr text)]])]]), usage_field a b]"
| "encode_reply cls text a b =
     JObj [(''choices'', JList [put_path [Key ''message'', Key ''content''] (JStr text)]), usage_field a b]"

lemma decode_encode: "class_decode cls (encode_reply cls text a b) = Inr (JStr text, JInt (a + b))"
  by (cases cls)
    (simp_all add: chat_decode_def chat_path_def usage_tokens_def usage_field_def dict_getd_def
      anthropic_decode_def google_decode_def ollama_decode_def cohere_decode_def cohere_tokens_def
      minimax_decode_def num_op_def)

definition well_formed_msg :: "msg \<Rightarrow> bool" where
  "well_formed_msg m \<longleftrightarrow> map_of m ''role'' \<noteq> None \<and> map_of m ''content'' \<noteq> None"

definition msg_role :: "msg \<Rightarrow> string" where
  "msg_role m = the (map_of m ''role'')"

definition msg_content :: "msg \<Rightarrow> string" where
  "msg_content m = the (map_of m ''content'')"

lemma well_formed_items:
  "well_formed_msg m \<Longrightarrow> msg_item m ''role'' = Inr (msg_role m)"
  "well_formed_msg m \<Longrightarrow> msg_item m ''content'' = Inr (msg_content m)"
  by (auto simp: well_formed_msg_def msg_item_def msg_role_def msg_content_def)

lemma anthropic_split_eq:
  "list_all well_formed_msg ms \<Longrightarrow>
   anthropic_split sys acc ms =
     Inr (last (sys # map msg_content (filter (\<lambda>m. msg_role m = ''system'') ms)),
          acc @ filter (\<lambda>m. msg_role m \<noteq> ''system'') ms)"
  by (induction ms arbitrary: sys acc) (simp_all add: well_formed_items)

definition is_history :: "msg \<Rightarrow> bool" where
  "is_history m \<longleftrightarrow> msg_role m \<in> {''system'', ''assistant''}"

definition history_json :: "msg \<Rightarrow> json" where
  "history_json m =
     history_item (if msg_role m = ''system'' then ''SYSTEM'' else ''CHATBOT'') (msg_content m)"

lemma cohere_split_eq:
  "list_all well_formed_msg ms \<Longrightarrow>
   cohere_split lst hist ms =
     Inr (last (lst # map msg_content (filter (\<lambda>m. \<not> is_history m) ms)),
          hist @ map history_json (filter is_history ms))"
  by (induction ms arbitrary: lst hist)
    (simp_all add: well_formed_items is_history_def history_json_def)

lemma gemini_contents_eq:
  "list_all well_formed_msg ms \<Longrightarrow>
   rmap_list gemini_content ms = Inr (map (\<lambda>m. JObj
      [(''role'', JStr (if msg_role m \<in> {''user'', ''system''} then ''user'' else ''model'')),
       (''parts'', JList [JObj [(''text'', JStr (msg_content m))]])]) ms)"
  by (induction ms) (simp_all add: gemini_content_def well_formed_items)

lemma request_total:
  assumes "list_all well_formed_msg ms"
  obtains up where "class_request cls self kw ms = Inr up"
proof -
  have "\<exists>up. class_request cls self kw ms = Inr up"
    by (cases cls)
      (simp_all add: openai_request_def anthropic_request_def google_request_def ollama_request_def
        cohere_request_def chat_request_def anthropic_split_eq [OF assms] cohere_split_eq [OF assms]
        gemini_contents_eq [OF assms])
  then show thesis using that by blast
qed

lemma retry_effects_count: "post_count (retry_effects url payload hs ns) = length ns"
  by (induction ns) (simp_all add: retry_effects_def)

text \<open>
  C11: a good reply is decoded. When every message has a role and a content and the service, after
  fewer than three transient failures, sends the document the client expects, the completion
  succeeds with that text, the sum of the token counts and the cost they imply.
\<close>

theorem complete_decodes_reply:
  assumes "list_all well_formed_msg ms" "k < 3" "\<forall>i < k. retried (cc_outcomes cc i)"
    and "good_reply (cc_outcomes cc k) r" "reply_json r = Inr (encode_reply cls text a b)"
  shows "case client_complete cls self kw cc ms of (resp, es) \<Rightarrow>
     m_success resp \<and> m_text resp = JStr text \<and> m_tokens resp = JInt (a + b)
     \<and> m_cost resp = (if is_local_class cls then 0 else fmul (c_cost_per_1k self) (idiv (a + b) 1000))
     \<and> post_count es = k + 1"
proof -
  obtain url payload where rq: "class_request cls self kw ms = Inr (url, payload)"
    by (metis request_total [OF assms(1)] surj_pair)
  have counts: "post_count (es @ [HttpxPost u p h]) = post_count es + 1" for es u p h
    by (induction es) simp_all
  have "read_reply (class_decode cls) (class_cost cls self) r =
      Inr (JStr text, JInt (a + b),
        if is_local_class cls then 0 else fmul (c_cost_per_1k self) (idiv (a + b) 1000),
        encode_reply cls text a b)"
    by (simp add: read_reply_def assms(5) decode_encode class_cost_def zero_cost_def compute_cost_def)
  then show ?thesis
    by (simp add: client_complete_eq try_complete_def rq post_reaches_reply [OF assms(2-4)]
        success_response_def counts retry_effects_count Let_def)
qed

theorem complete_decodes_reply_witness:
  "case client_complete AnthropicClient (anthropic_init ''k'' None) []
      \<lparr>cc_start = 0, cc_ok = 1, cc_err = 1, cc_outcomes = (\<lambda>n. if n = 0 then timeout_outcome else
         Inr \<lparr>status_code = 200, status_error = None,
              reply_json = Inr (encode_reply AnthropicClient ''hello'' 3 4)\<rparr>)\<rparr>
      [[(''role'', ''user''), (''content'', ''hi'')]] of (resp, es) \<Rightarrow>
     m_text resp = JStr ''hello'' \<and> m_tokens resp = JInt 7 \<and> post_count es = 2"
proof -
  let ?r = "\<lparr>status_code = 200, status_error = None,
              reply_json = Inr (encode_reply AnthropicClient ''hello'' 3 4)\<rparr> :: reply"
  let ?cc = "\<lparr>cc_start = 0, cc_ok = 1, cc_err = 1,
      cc_outcomes = (\<lambda>n. if n = 0 then timeout_outcome else Inr ?r)\<rparr> :: call_context"
  have h: "list_all well_formed_msg [[(''role'', ''user''), (''content'', ''hi'')]]"
    "1 < (3 :: nat)" "\<forall>i < 1. retried (cc_outcomes ?cc i)"
    "good_reply (cc_outcomes ?cc 1) ?r"
    "reply_json ?r = Inr (encode_reply AnthropicClient ''hello'' 3 4)"
    by (simp_all add: well_formed_msg_def retried_def timeout_outcome_def goes_on_def good_reply_def)
  from complete_decodes_reply [OF h, of "anthropic_init ''k'' None" "[]"]
  show ?thesis by (simp split: prod.splits)
qed

text \<open>
  C26: what becomes of a conversation. For messages with a role and a content, Anthropic gets the last
  system message as \<open>system\<close> and all other messages in order; Google gets one content per message;
  Cohere gets the system and assistant messages as history and only the last of the others as the
  message: every earlier user message is lost.
\<close>

theorem conversation_conversion:
  assumes "list_all well_formed_msg ms"
  shows "anthropic_split [] [] ms =
      Inr (last ([] # map msg_content (filter (\<lambda>m. msg_role m = ''system'') ms)),
           filter (\<lambda>m. msg_role m \<noteq> ''system'') ms)
   \<and> cohere_split [] [] ms =
      Inr (last ([] # map msg_content (filter (\<lambda>m. \<not> is_history m) ms)),
           map history_json (filter is_history ms))
   \<and> rmap_list gemini_content ms = Inr (map (\<lambda>m. JObj
      [(''role'', JStr (if msg_role m \<in> {''user'', ''system''} then ''user'' else ''model'')),
       (''parts'', JList [JObj [(''text'', JStr (msg_content m))]])]) ms)"
  using anthropic_split_eq [OF assms, of "[]" "[]"] cohere_split_eq [OF assms, of "[]" "[]"]
    gemini_contents_eq [OF assms] by simp_all

theorem conversation_conversion_witness:
  "cohere_split [] [] [[(''role'', ''user''), (''content'', ''a'')], [(''role'', ''assistant''), (''content'', ''b'')],
       [(''role'', ''user''), (''content'', ''c'')]]
     = Inr (''c'', [history_item ''CHATBOT'' ''b''])"
proof -
  have "list_all well_formed_msg [[(''role'', ''user''), (''content'', ''a'')],
      [(''role'', ''assistant''), (''content'', ''b'')], [(''role'', ''user''), (''content'', ''c'')]]"
    by (simp add: well_formed_msg_def)
  from conversation_conversion [OF this]
  show ?thesis by (simp add: is_history_def history_json_def msg_role_def msg_content_def)
qed

definition sample_context :: call_context where
  "sample_context = \<lparr>cc_start = 0, cc_ok = 0, cc_err = 0, cc_outcomes = (\<lambda>_. timeout_outcome)\<rparr>"

text \<open>
  Only the OpenAI client honours \<open>temperature\<close>. For every other class a completion with a
  temperature is the completion without it.
\<close>

theorem temperature_is_ignored:
  assumes "cls \<noteq> OpenAIClient"
  shows "client_complete cls self (dict_set ''temperature'' t kw) cc ms = client_complete cls self kw cc ms"
proof -
  have "kw_max_tokens self (dict_set ''temperature'' t kw) = kw_max_tokens self kw"
    by (simp add: kw_max_tokens_def dict_getd_def dict_simps)
  then have "class_request cls self (dict_set ''temperature'' t kw) ms = class_request cls self kw ms"
    using assms
    by (cases cls)
      (simp_all add: anthropic_request_def google_request_def ollama_request_def cohere_request_def
        chat_request_def chat_payload_def)
  then show ?thesis by (simp add: client_complete_eq)
qed

theorem temperature_is_ignored_witness:
  "client_complete GroqClient (groq_init ''k'' None) [(''temperature'', JFloat 0)] sample_context []
     = client_complete GroqClient (groq_init ''k'' None) [] sample_context []"
  using temperature_is_ignored [of GroqClient "groq_init ''k'' None" "JFloat 0" "[]" sample_context "[]"]
  by simp

section \<open>The factory\<close>

lemma init_class_name:
  assumes "(name, cls) \<in> set PROVIDERS" "init_class cls x model = Inr c"
  shows "c_name c = name"
  using assms
  by (cases cls) (auto simp: PROVIDERS_def with_key_def openai_init_def anthropic_init_def google_init_def
      deepseek_init_def ollama_init_def moonshot_init_def zhipuai_init_def groq_init_def together_init_def
      cohere_init_def qwen_init_def mistral_init_def perplexity_init_def baichuan_init_def
      minimax_init_def fireworks_init_def vllm_init_def huggingface_init_def base_client_def
      split: option.splits)

text \<open>
  C39: the factory. A name outside the registry raises \<open>ValueError\<close>; a created client carries the name
  it was asked for and the class registered under it; created with a key alone, a remote service
  gives a client and a local one raises \<open>TypeError\<close>, and created with nothing, the other way round.
\<close>

theorem create_provider_behaviour:
  "(name \<notin> set (dict_keys PROVIDERS) \<longrightarrow> create_provider name kw = Inl (unknown_provider name))
   \<and> (create_provider name kw = Inr (cls, c) \<longrightarrow> c_name c = name \<and> map_of PROVIDERS name = Some cls)
   \<and> (map_of PROVIDERS name = Some cls \<longrightarrow>
        create_provider name [(''api_key'', key)] =
          (if is_local_class cls then Inl (unexpected_argument cls ''api_key'')
           else map_sum id (Pair cls) (init_class cls (Some key) None))
        \<and> create_provider name [] =
          (if is_local_class cls then map_sum id (Pair cls) (init_class cls None None)
           else Inl (missing_argument cls)))"
proof (intro conjI impI)
  show "name \<notin> set (dict_keys PROVIDERS) \<Longrightarrow> create_provider name kw = Inl (unknown_provider name)"
    by (simp add: create_provider_def map_of_eq_None_iff [THEN iffD2])
next
  assume "create_provider name kw = Inr (cls, c)"
  then show m: "map_of PROVIDERS name = Some cls"
    by (auto simp: create_provider_def rbind_eq_Inr split: option.splits)
  with \<open>create_provider name kw = Inr (cls, c)\<close>
  have "init_class cls (map_of kw (first_param cls)) (map_of kw ''model'') = Inr c"
    by (auto simp: create_provider_def rbind_eq_Inr construct_def split: option.splits)
  then show "c_name c = name" using init_class_name map_of_SomeD [OF m] by blast
next
  assume "map_of PROVIDERS name = Some cls"
  then show "create_provider name [(''api_key'', key)] =
          (if is_local_class cls then Inl (unexpected_argument cls ''api_key'')
           else map_sum id (Pair cls) (init_class cls (Some key) None))"
    "create_provider name [] =
          (if is_local_class cls then map_sum id (Pair cls) (init_class cls None None)
           else Inl (missing_argument cls))"
    by (cases cls; simp add: create_provider_def construct_def first_param_def is_local_class_def with_key_def)+
qed

theorem create_provider_behaviour_witness:
  "create_provider ''ollama'' [(''api_key'', ''k'')] = Inl (unexpected_argument OllamaClient ''api_key'')"
  using create_provider_behaviour [of "''ollama''" "[]" OllamaClient _ "''k''"]
  by (simp add: PROVIDERS_def is_local_class_def)

end
