(* ===== verification/Spec2Isabelle.thy ===== *)
theory Spec2Isabelle
  imports Condenser RouterCore RaceRouting ModelClients
begin

text \<open>
  LingNet Agent OS, Python layer: a verification library.

  The Python layer of LingNet Agent OS decides which language-model provider answers a request,
  what it may cost, and how a conversation is cut to fit. It has four modules:
  \<^item> \<open>python/condenser.py\<close> compresses a conversation (deduplication, sliding window, summary cut);
  \<^item> \<open>python/router_core.py\<close> keeps a registry of providers with health and latency statistics,
    selects one by a strategy, routes with failure accounting, races several, exports metrics;
  \<^item> \<open>python_router_core.py\<close> is the asynchronous router the Zig layer calls: an hourly budget, provider
    calls with retries, a race of all candidates, weighted and uniform routing, a fallback router;
  \<^item> \<open>python/model_clients.py\<close> has one HTTP client per provider with a common retry loop, and a factory.
  The modules meet in two places. \<open>RouterCore._execute\<close> imports \<open>model_clients\<close>, and the import is all
  it uses: whether it raises is a parameter of the model. The entry points of \<open>python_router_core.py\<close>
  are called by the Zig layer with JSON documents.

  \<^bold>\<open>Theories\<close>
  \<^item> \<open>Prelude\<close>: results of code that can raise (\<open>rbind\<close>), Python dictionaries as association lists in
    insertion order, \<open>min\<close> and stable sorting, string operations, and lemmas about them.
  \<^item> \<open>Float64\<close>: IEEE binary64 as exact rationals with rounding to nearest-even (\<open>fl\<close>). The locale
    \<open>rounding\<close> states what the proofs use of it. Also the compensated \<open>sum\<close> of floats that Python has
    since 3.12 (\<open>py_sum\<close>) and \<open>random.uniform\<close> as a function of \<open>random()\<close>; overflow to infinity and NaN are not modelled.
  \<^item> \<open>PyValue\<close>: exceptions, JSON values and the Python operations on them with the errors they raise.
  \<^item> \<open>Md5\<close>: MD5 and UTF-8, for the fingerprints of messages.
  \<^item> \<open>Condenser\<close>: \<open>Message\<close>, \<open>Condenser\<close>. Locale \<open>compression_stage\<close>, interpreted on every stage and on
    the pipeline. Shown: the token budget, the greedy window, deduplication against a reference, the
    accounting of the result.
  \<^item> \<open>RouterCore\<close>: \<open>Provider\<close>, \<open>RouterCore\<close>. Locales \<open>registry\<close> and \<open>selector\<close>, interpreted on the
    registry and on each strategy. Shown: the counters agree in every reachable state, the complete
    effect of success, failure, race and health check on the router's state, what the strategies
    that take a minimum select, fairness of round robin, reading back the metrics.
  \<^item> \<open>CostTracker\<close>: \<open>CostTracker\<close>, \<open>TokenCounter\<close>. Locale \<open>budget_guard\<close>, interpreted on \<open>charge_sync\<close>.
    Shown: the budget holds over any charges; the tracker refines a ledger of accepted charges.
  \<^item> \<open>ModelRouter\<close>: the data of \<open>python_router_core.py\<close> and \<open>_call_provider\<close>, whose retry loop is
    \<open>attempt_loop\<close>. Shown: bounds on posts and sleeps, recovery from transient failures, what is
    retried and what is not, what the budget is charged.
  \<^item> \<open>RaceRouting\<close>: \<open>_race\<close>, \<open>_smart_route\<close>, \<open>_uniform_route\<close>, \<open>route\<close>, \<open>get_stats\<close> and the entry
    points. A race is a list of tasks, each in a phase (\<open>Waiting\<close>, \<open>Posting\<close>, \<open>Finished\<close>), and a
    schedule of task steps and wake-ups; \<open>race_run\<close> executes it. Locales \<open>call_invariant\<close> and its
    extension \<open>router_invariant\<close> carry a predicate through calls, task steps, races and routes; they
    are interpreted on the budget, on the configuration and session, and on the statistics. Shown
    for every schedule: the first success wins, failure means all failed, the number of steps is
    bounded, the budget holds; further that the fallback cannot succeed, which provider weighted
    selection calls for every value of \<open>random()\<close>, that uniform routing is fair, and, by a simulation
    over sequences of entry-point calls (\<open>cffi_run\<close>), that a strategy named in JSON has no effect. The
    entry points take decoded documents; \<open>int()\<close> of a request count is \<open>py_int\<close>.
  \<^item> \<open>HttpRetry\<close>: \<open>ModelResponse\<close>, \<open>BaseModelClient\<close>, \<open>_post\<close>, \<open>_apost\<close>. Shown: when the loop
    returns a reply, and what it raises when it gives up.
  \<^item> \<open>ModelClients\<close>: the eighteen clients and \<open>create_provider\<close>. Locales \<open>completion\<close> and its extension
    \<open>async_completion\<close>, interpreted on the clients. Shown: completions never raise and are bounded,
    both interfaces agree (Cohere's apart), replies are decoded, conversations are converted.

  \<^bold>\<open>Correspondence\<close>
  An object is a record and a method a function from record to result and record. An enumeration or
  tagged value is a datatype. Exceptions are values of \<open>pyexn\<close> in the left of a sum, caught where
  the code catches them. An attribute declared with one type but filled from JSON
  keeps the plain value (\<open>strategy_field\<close>). Objects shared between a dictionary and a local variable
  are updated through their key.

  \<^bold>\<open>Parameters\<close>
  What is not under the source tree is an argument of the definitions that use it: clock readings,
  the outcome of each HTTP request (\<open>http_outcome\<close>, \<open>outcomes\<close>), token counts of \<open>tiktoken\<close>, the value
  of \<open>random()\<close>, the completion order of futures and the schedule of the event loop. Theorems hold for all
  values of these, or name what they need of them.

  \<^bold>\<open>Bounds\<close>
  No fuel is used except by finite inputs: a retry loop recurses over the passes that are left, a race
  over its schedule, \<open>mr_route\<close> over the environments of the nested routers. A result \<open>None\<close> of a route
  says that the schedule or that list ended first; \<open>race_is_bounded\<close> bounds the steps a race can
  take, and a fallback router has no fallback of its own, so two environments are enough.

  \<^bold>\<open>Not modelled\<close>
  Log lines and printing; the command-line self-tests; parsing and printing of JSON text; effects of
  cancelled tasks after a race has returned. The Zig core, the SDK, the skills, the
  eBPF programs, the configuration presets and the tests are outside the Python layer.
\<close>

end
